(* ===== verification/Prelude.thy ===== *)
theory Prelude
  imports Main "HOL-Library.Word"
begin

section \<open>Prelude: machine integers, environment, shared automation\<close>

text \<open>
  What every component shares: Go's \<open>int\<close> / \<open>int64\<close> / \<open>time.Duration\<close> arithmetic (HOL integers with the
  64-bit wrap-around written out), \<open>time\<close> constants in nanoseconds, the process environment as the
  function that \<open>os.Getenv\<close> computes (an unset variable reads as the empty string), errors as their
  message text, and the theorem collections the component theories add to.
\<close>

named_theorems go_arith "evaluation of the wrap-around arithmetic of Go integers"
named_theorems go_defs "unfolding rules for small accessor-like definitions"

type_synonym env = "string \<Rightarrow> string"
type_synonym err = string

text \<open>
  Run-time panics are values. An operation that may also block for ever returns an \<open>outcome\<close>;
  \<open>sync_once\<close> is the state of a \<^verbatim>\<open>sync.Once\<close> (a \<open>Do\<close> inside its own function blocks).
\<close>

datatype panic = NilMapWrite | CloseOfClosedChannel | NilDereference | SendOnClosedChannel | SliceLenOutOfRange

datatype 'a outcome = Returned 'a | Panicked panic | Hangs

datatype sync_once = OnceNew | OnceRunning | OnceDone

text \<open>Two's complement wrap-around at 64 and 32 bits, as Go's conversions and products do.\<close>

definition wrap64 :: "int \<Rightarrow> int" where
  "wrap64 x = (x + 2 ^ 63) mod 2 ^ 64 - 2 ^ 63"

definition wrap32 :: "int \<Rightarrow> int" where
  "wrap32 x = (x + 2 ^ 31) mod 2 ^ 32 - 2 ^ 31"

definition uwrap32 :: "int \<Rightarrow> int" where
  "uwrap32 x = x mod 2 ^ 32"

definition uwrap64 :: "int \<Rightarrow> int" where
  "uwrap64 x = x mod 2 ^ 64"

definition in_i64 :: "int \<Rightarrow> bool" where
  "in_i64 x \<longleftrightarrow> - (2 ^ 63) \<le> x \<and> x < 2 ^ 63"

lemma wrap64_id: "in_i64 x \<Longrightarrow> wrap64 x = x"
  by (simp add: wrap64_def in_i64_def)

lemma wrap64_in_i64 [simp]: "in_i64 (wrap64 x)"
proof -
  have "0 \<le> (x + 2 ^ 63) mod 2 ^ 64" and "(x + 2 ^ 63) mod 2 ^ 64 < 2 ^ 64"
    by simp_all
  then show ?thesis
    by (simp add: wrap64_def in_i64_def)
qed

lemma wrap64_sint: "wrap64 x = sint (word_of_int x :: 64 word)"
  by (simp add: wrap64_def sint_uint signed_take_bit_eq_take_bit_shift take_bit_eq_mod
      unsigned_of_int mod_add_left_eq)

lemma wrap32_sint: "wrap32 x = sint (word_of_int x :: 32 word)"
  by (simp add: wrap32_def sint_uint signed_take_bit_eq_take_bit_shift take_bit_eq_mod
      unsigned_of_int mod_add_left_eq)

lemma wrap64_mod_eq: "wrap64 x mod 2 ^ 64 = x mod 2 ^ 64"
  by (simp add: wrap64_def mod_simps)

subsection \<open>Durations\<close>

text \<open>\<open>time.Duration\<close> is an \<open>int64\<close> count of nanoseconds.\<close>

abbreviation Millisecond :: int where "Millisecond \<equiv> 1000000"
abbreviation Second :: int where "Second \<equiv> 1000000000"
abbreviation Minute :: int where "Minute \<equiv> 60000000000"
abbreviation Hour :: int where "Hour \<equiv> 3600000000000"

text \<open>\<open>a * b\<close> on durations, with Go's silent overflow.\<close>

definition dur_mul :: "int \<Rightarrow> int \<Rightarrow> int" where
  "dur_mul a b = wrap64 (a * b)"

definition dur_add :: "int \<Rightarrow> int \<Rightarrow> int" where
  "dur_add a b = wrap64 (a + b)"

lemma dur_mul_exact: "in_i64 (a * b) \<Longrightarrow> dur_mul a b = a * b"
  by (simp add: dur_mul_def wrap64_id)

lemma dur_add_exact: "in_i64 (a + b) \<Longrightarrow> dur_add a b = a + b"
  by (simp add: dur_add_def wrap64_id)

lemmas [go_arith] = wrap64_def wrap32_def uwrap32_def uwrap64_def in_i64_def dur_mul_def dur_add_def

text \<open>\<open>time.Since\<close> and \<open>Time.Sub\<close> saturate.\<close>

definition elapsed :: "int \<Rightarrow> int \<Rightarrow> int" where
  "elapsed start now = max (- (2 ^ 63)) (min (2 ^ 63 - 1) (now - start))"

text \<open>Go's \<open>/\<close> and \<open>%\<close> truncate towards zero.\<close>

definition go_div :: "int \<Rightarrow> int \<Rightarrow> int" where
  "go_div a b = sgn a * sgn b * (\<bar>a\<bar> div \<bar>b\<bar>)"

definition go_mod :: "int \<Rightarrow> int \<Rightarrow> int" where
  "go_mod a b = a - b * go_div a b"

lemma go_div_nonneg: "0 \<le> a \<Longrightarrow> 0 < b \<Longrightarrow> go_div a b = a div b"
  by (cases "a = 0") (simp_all add: go_div_def)

lemma go_mod_nonneg: "0 \<le> a \<Longrightarrow> 0 < b \<Longrightarrow> go_mod a b = a mod b"
  by (simp add: go_mod_def go_div_nonneg minus_mult_div_eq_mod)

subsection \<open>Lists\<close>

text \<open>Left folds preserve what every step preserves.\<close>

lemma foldl_invariant:
  assumes "P b" and "\<And>x a. P a \<Longrightarrow> x \<in> set xs \<Longrightarrow> P (f a x)"
  shows "P (foldl f b xs)"
  using assms by (induction xs arbitrary: b) auto

lemma find_None_iff_all: "List.find P xs = None \<longleftrightarrow> (\<forall>x \<in> set xs. \<not> P x)"
  by (induction xs) auto

end
