(* ===== verification/GoStd.thy ===== *)
theory GoStd
  imports Prelude
begin

section \<open>The part of Go's standard library the sources use\<close>

text \<open>
  Go strings are byte strings, so a \<open>string\<close> (a list of 8-bit characters) models them exactly.
  This theory defines the functions of \<^verbatim>\<open>strings\<close>, \<^verbatim>\<open>strconv\<close>, \<^verbatim>\<open>fmt\<close>, \<^verbatim>\<open>net\<close> and
  \<^verbatim>\<open>path/filepath\<close> that the components call. They have no entry in the map of the development:
  they are not code of the repository.
\<close>

subsection \<open>Characters\<close>

abbreviation code :: "char \<Rightarrow> nat" where "code c \<equiv> of_char c"

definition is_digit :: "char \<Rightarrow> bool" where
  "is_digit c \<longleftrightarrow> 48 \<le> code c \<and> code c \<le> 57"

definition is_upper :: "char \<Rightarrow> bool" where
  "is_upper c \<longleftrightarrow> 65 \<le> code c \<and> code c \<le> 90"

definition is_lower :: "char \<Rightarrow> bool" where
  "is_lower c \<longleftrightarrow> 97 \<le> code c \<and> code c \<le> 122"

definition digit_val :: "char \<Rightarrow> nat" where
  "digit_val c = code c - 48"

subsection \<open>strings: prefixes, cutting, splitting\<close>

fun has_prefix :: "string \<Rightarrow> string \<Rightarrow> bool" where
  "has_prefix s [] = True"
| "has_prefix [] (p # ps) = False"
| "has_prefix (c # s) (p # ps) = (c = p \<and> has_prefix s ps)"

text \<open>\<open>strings.Contains(s, sub)\<close>.\<close>

fun contains :: "string \<Rightarrow> string \<Rightarrow> bool" where
  "contains [] sub = (sub = [])"
| "contains (c # s) sub = (has_prefix (c # s) sub \<or> contains s sub)"

text \<open>\<open>strings.TrimPrefix\<close>.\<close>

definition trim_prefix :: "string \<Rightarrow> string \<Rightarrow> string" where
  "trim_prefix s p = (if has_prefix s p then drop (length p) s else s)"

text \<open>\<open>strings.Cut\<close> at a one-byte separator: \<open>None\<close> when the separator does not occur.\<close>

fun cut :: "char \<Rightarrow> string \<Rightarrow> (string \<times> string) option" where
  "cut sep [] = None"
| "cut sep (c # s) =
     (if c = sep then Some ([], s)
      else case cut sep s of None \<Rightarrow> None | Some (a, b) \<Rightarrow> Some (c # a, b))"

text \<open>\<open>strings.Split\<close> at a one-byte separator: always at least one piece.\<close>

fun split_on :: "char \<Rightarrow> string \<Rightarrow> string list" where
  "split_on sep [] = [[]]"
| "split_on sep (c # s) =
     (if c = sep then [] # split_on sep s
      else case split_on sep s of [] \<Rightarrow> [[c]] | p # ps \<Rightarrow> (c # p) # ps)"

text \<open>\<open>strings.Join\<close>.\<close>

fun join_with :: "string \<Rightarrow> string list \<Rightarrow> string" where
  "join_with sep [] = []"
| "join_with sep [x] = x"
| "join_with sep (x # y # ys) = x @ sep @ join_with sep (y # ys)"

text \<open>\<open>strings.SplitN(s, sep, n)\<close> for \<open>n \<ge> 1\<close>: at most \<open>n\<close> pieces, the last one unsplit.\<close>

fun split_n :: "char \<Rightarrow> string \<Rightarrow> nat \<Rightarrow> string list" where
  "split_n sep s 0 = []"
| "split_n sep s (Suc 0) = [s]"
| "split_n sep s (Suc (Suc n)) =
     (case cut sep s of None \<Rightarrow> [s] | Some (a, b) \<Rightarrow> a # split_n sep b (Suc n))"

text \<open>\<open>strings.Index(s, sep)\<close> for one byte; \<open>None\<close> stands for -1.\<close>

fun index_of :: "char \<Rightarrow> string \<Rightarrow> nat option" where
  "index_of c [] = None"
| "index_of c (x # s) = (if x = c then Some 0 else map_option Suc (index_of c s))"

lemma has_prefix_iff: "has_prefix s p \<longleftrightarrow> (\<exists>t. s = p @ t)"
  by (induction s p rule: has_prefix.induct) auto

lemma has_prefix_append [simp]: "has_prefix (p @ s) p"
  by (auto simp: has_prefix_iff)

lemma contains_iff: "contains s sub \<longleftrightarrow> (\<exists>a b. s = a @ sub @ b)"
proof (induction s)
  case Nil
  then show ?case by auto
next
  case (Cons c s)
  show ?case
  proof
    assume "contains (c # s) sub"
    then consider "has_prefix (c # s) sub" | "contains s sub" by auto
    then show "\<exists>a b. c # s = a @ sub @ b"
    proof cases
      case 1
      then show ?thesis by (metis append_Nil has_prefix_iff)
    next
      case 2
      with Cons.IH show ?thesis by (metis append_Cons)
    qed
  next
    assume "\<exists>a b. c # s = a @ sub @ b"
    then obtain a b where eq: "c # s = a @ sub @ b" by blast
    show "contains (c # s) sub"
    proof (cases a)
      case Nil
      with eq have "has_prefix (c # s) sub" by (auto simp: has_prefix_iff)
      then show ?thesis by simp
    next
      case (Cons x a')
      with eq \<open>contains s sub \<longleftrightarrow> _\<close> show ?thesis by auto
    qed
  qed
qed

lemma cut_Some: "cut sep s = Some (a, b) \<Longrightarrow> s = a @ sep # b \<and> sep \<notin> set a"
  by (induction s arbitrary: a) (auto split: if_splits option.splits)

lemma cut_append: "sep \<notin> set a \<Longrightarrow> cut sep (a @ sep # b) = Some (a, b)"
  by (induction a) auto

lemma cut_None [simp]: "cut sep s = None \<longleftrightarrow> sep \<notin> set s"
  by (induction s) (auto split: option.splits)

lemma split_on_not_Nil [simp]: "split_on sep s \<noteq> []"
  by (induction s) (auto split: list.splits)

lemma split_on_nosep: "sep \<notin> set s \<Longrightarrow> split_on sep s = [s]"
  by (induction s) auto

lemma split_on_append:
  "sep \<notin> set a \<Longrightarrow> split_on sep (a @ sep # b) = a # split_on sep b"
  by (induction a) auto

lemma split_on_two:
  "split_on sep s = [a, b] \<longleftrightarrow> s = a @ sep # b \<and> sep \<notin> set a \<and> sep \<notin> set b"
proof
  show "split_on sep s = [a, b] \<Longrightarrow> s = a @ sep # b \<and> sep \<notin> set a \<and> sep \<notin> set b"
  proof (induction s arbitrary: a)
    case (Cons c s)
    show ?case
    proof (cases "c = sep")
      case True
      with Cons.prems have "a = []" "split_on sep s = [b]" by auto
      moreover have "split_on sep s = [b] \<Longrightarrow> s = b \<and> sep \<notin> set b" for s b
        by (induction s arbitrary: b) (auto split: if_splits list.splits)
      ultimately show ?thesis using True by auto
    next
      case False
      with Cons.prems obtain a' where "split_on sep s = [a', b]" "a = c # a'"
        by (auto split: list.splits)
      with Cons.IH False show ?thesis by auto
    qed
  qed simp
qed (simp add: split_on_append split_on_nosep)

subsection \<open>strings.TrimSpace\<close>

text \<open>
  Go trims Unicode white space. On UTF-8 bytes that is a fixed set of byte sequences: six ASCII
  characters, U+0085 and U+00A0 (two bytes), and the three-byte spaces U+1680, U+2000 to U+200A,
  U+2028, U+2029, U+202F, U+205F, U+3000. \<open>space_len\<close> is the length of the space that starts a
  byte string (0 if none), \<open>space_len_rev\<close> that of the space that ends it, on the reversed bytes.
\<close>

definition ascii_space :: "nat \<Rightarrow> bool" where
  "ascii_space n \<longleftrightarrow> n = 9 \<or> n = 10 \<or> n = 11 \<or> n = 12 \<or> n = 13 \<or> n = 32"

definition space2 :: "nat \<Rightarrow> nat \<Rightarrow> bool" where
  "space2 a b \<longleftrightarrow> a = 194 \<and> (b = 133 \<or> b = 160)"

definition space3 :: "nat \<Rightarrow> nat \<Rightarrow> nat \<Rightarrow> bool" where
  "space3 a b c \<longleftrightarrow>
     a = 225 \<and> b = 154 \<and> c = 128 \<or>
     a = 226 \<and> b = 128 \<and> (128 \<le> c \<and> c \<le> 138 \<or> c = 168 \<or> c = 169 \<or> c = 175) \<or>
     a = 226 \<and> b = 129 \<and> c = 159 \<or>
     a = 227 \<and> b = 128 \<and> c = 128"

fun space_len :: "string \<Rightarrow> nat" where
  "space_len [] = 0"
| "space_len [a] = (if ascii_space (code a) then 1 else 0)"
| "space_len [a, b] =
     (if ascii_space (code a) then 1 else if space2 (code a) (code b) then 2 else 0)"
| "space_len (a # b # c # s) =
     (if ascii_space (code a) then 1
      else if space2 (code a) (code b) then 2
      else if space3 (code a) (code b) (code c) then 3 else 0)"

fun space_len_rev :: "string \<Rightarrow> nat" where
  "space_len_rev [] = 0"
| "space_len_rev [a] = (if ascii_space (code a) then 1 else 0)"
| "space_len_rev [b, a] =
     (if ascii_space (code b) then 1 else if space2 (code a) (code b) then 2 else 0)"
| "space_len_rev (c # b # a # s) =
     (if ascii_space (code c) then 1
      else if space2 (code b) (code c) then 2
      else if space3 (code a) (code b) (code c) then 3 else 0)"

lemma space_len_nonempty: "0 < space_len s \<Longrightarrow> s \<noteq> []"
  by (cases s) simp_all

lemma space_len_rev_nonempty: "0 < space_len_rev s \<Longrightarrow> s \<noteq> []"
  by (cases s) simp_all

function trim_left :: "string \<Rightarrow> string" where
  "trim_left s = (if space_len s = 0 then s else trim_left (drop (space_len s) s))"
  by pat_completeness auto
termination
  by (relation "measure length") (simp_all add: space_len_nonempty diff_less)

function trim_rev :: "string \<Rightarrow> string" where
  "trim_rev s = (if space_len_rev s = 0 then s else trim_rev (drop (space_len_rev s) s))"
  by pat_completeness auto
termination
  by (relation "measure length") (simp_all add: space_len_rev_nonempty diff_less)

declare trim_left.simps [simp del] trim_rev.simps [simp del]

definition trim_space :: "string \<Rightarrow> string" where
  "trim_space s = rev (trim_rev (rev (trim_left s)))"

lemma trim_left_fix: "space_len (trim_left s) = 0"
proof (induction s rule: trim_left.induct)
  case (1 s)
  then show ?case by (subst trim_left.simps) (auto simp: trim_left.simps [of s])
qed

lemma trim_left_id: "space_len s = 0 \<Longrightarrow> trim_left s = s"
  by (subst trim_left.simps) simp

lemma trim_rev_id: "space_len_rev s = 0 \<Longrightarrow> trim_rev s = s"
  by (subst trim_rev.simps) simp

lemma trim_rev_fix: "space_len_rev (trim_rev s) = 0"
proof (induction s rule: trim_rev.induct)
  case (1 s)
  then show ?case by (subst trim_rev.simps) (auto simp: trim_rev.simps [of s])
qed

lemma trim_space_id:
  "space_len s = 0 \<Longrightarrow> space_len_rev (rev s) = 0 \<Longrightarrow> trim_space s = s"
  by (simp add: trim_space_def trim_left_id trim_rev_id)

lemma trim_space_Nil [simp]: "trim_space [] = []"
  by (simp add: trim_space_id)


text \<open>Printable ASCII at both ends is not trimmed.\<close>

lemma space_len_ascii: "32 < code c \<Longrightarrow> code c < 128 \<Longrightarrow> space_len (c # s) = 0"
  by (cases s rule: space_len.cases) (auto simp: ascii_space_def space2_def space3_def)

lemma space_len_rev_ascii: "32 < code c \<Longrightarrow> code c < 128 \<Longrightarrow> space_len_rev (c # s) = 0"
  by (cases s rule: space_len_rev.cases) (auto simp: ascii_space_def space2_def space3_def)

lemma trim_space_ascii_ends:
  "32 < code c \<Longrightarrow> code c < 128 \<Longrightarrow> 32 < code d \<Longrightarrow> code d < 128 \<Longrightarrow>
   trim_space (c # s @ [d]) = c # s @ [d]"
  by (rule trim_space_id) (simp_all add: space_len_ascii space_len_rev_ascii)

end
