(* ===== verification/GoText.thy ===== *)
theory GoText
  imports GoStd
begin

section \<open>strconv, fmt and friends\<close>

text \<open>
  Number parsing and printing (\<^verbatim>\<open>strconv.Atoi\<close>, \<^verbatim>\<open>Itoa\<close>, \<^verbatim>\<open>ParseBool\<close>), \<^verbatim>\<open>strings.ToLower\<close>, the
  verbs of \<^verbatim>\<open>fmt.Sprintf\<close> that the library's log formats use, and the address and path helpers.
\<close>

subsection \<open>strconv.Atoi and strconv.Itoa\<close>

fun digits_acc :: "nat \<Rightarrow> string \<Rightarrow> nat option" where
  "digits_acc acc [] = Some acc"
| "digits_acc acc (c # s) =
     (if is_digit c then digits_acc (10 * acc + digit_val c) s else None)"

definition unsigned_digits :: "string \<Rightarrow> nat option" where
  "unsigned_digits s = (if s = [] then None else digits_acc 0 s)"

text \<open>An optional sign, at least one digit, nothing else, and the result fits \<open>int64\<close>.\<close>

definition atoi :: "string \<Rightarrow> int option" where
  "atoi s =
     (let (neg, ds) =
        (case s of
           [] \<Rightarrow> (False, [])
         | c # r \<Rightarrow> (if c = CHR ''-'' then (True, r)
                    else if c = CHR ''+'' then (False, r) else (False, s)))
      in case unsigned_digits ds of
           None \<Rightarrow> None
         | Some n \<Rightarrow>
             (let v = (if neg then - int n else int n) in if in_i64 v then Some v else None))"

fun nat_digits :: "nat \<Rightarrow> string" where
  "nat_digits n =
     (if n < 10 then [char_of (48 + n)] else nat_digits (n div 10) @ [char_of (48 + n mod 10)])"

declare nat_digits.simps [simp del]

definition itoa :: "int \<Rightarrow> string" where
  "itoa i = (if i < 0 then CHR ''-'' # nat_digits (nat (- i)) else nat_digits (nat i))"

lemma code_digit_char: "(n::nat) < 10 \<Longrightarrow> code (char_of (48 + n)) = 48 + n"
  by simp

lemma is_digit_char: "(n::nat) < 10 \<Longrightarrow> is_digit (char_of (48 + n))"
  by (simp add: is_digit_def)

lemma digit_val_char: "(n::nat) < 10 \<Longrightarrow> digit_val (char_of (48 + n)) = n"
  by (simp add: digit_val_def)

lemma digit_chars [simp]:
  "(char_of (48::nat) :: char) = CHR ''0''"
  "(char_of (49::nat) :: char) = CHR ''1''"
  "(char_of (50::nat) :: char) = CHR ''2''"
  "(char_of (51::nat) :: char) = CHR ''3''"
  "(char_of (52::nat) :: char) = CHR ''4''"
  "(char_of (53::nat) :: char) = CHR ''5''"
  "(char_of (54::nat) :: char) = CHR ''6''"
  "(char_of (55::nat) :: char) = CHR ''7''"
  "(char_of (56::nat) :: char) = CHR ''8''"
  "(char_of (57::nat) :: char) = CHR ''9''"
  by code_simp+

lemma digits_acc_append:
  "digits_acc acc (s @ t) = (case digits_acc acc s of None \<Rightarrow> None | Some a \<Rightarrow> digits_acc a t)"
  by (induction acc s rule: digits_acc.induct) auto

lemma digits_acc_nat_digits: "digits_acc 0 (nat_digits n) = Some n"
proof (induction n rule: nat_digits.induct)
  case (1 n)
  show ?case
  proof (cases "n < 10")
    case True
    then show ?thesis
      by (subst nat_digits.simps) (simp add: is_digit_char digit_val_char)
  next
    case False
    with "1.IH" have "digits_acc 0 (nat_digits (n div 10)) = Some (n div 10)" by simp
    with False show ?thesis
      by (subst nat_digits.simps)
        (simp add: digits_acc_append is_digit_char digit_val_char)
  qed
qed

lemma nat_digits_digits: "\<forall>c \<in> set (nat_digits n). is_digit c"
proof (induction n rule: nat_digits.induct)
  case (1 n)
  then show ?case
    by (subst nat_digits.simps) (auto simp: is_digit_char)
qed

lemma nat_digits_not_Nil [simp]: "nat_digits n \<noteq> []"
  by (subst nat_digits.simps) simp

lemma not_digit_minus [simp]: "\<not> is_digit (CHR ''-'')" "\<not> is_digit (CHR ''+'')"
  by (simp_all add: is_digit_def)

lemma atoi_itoa: "in_i64 i \<Longrightarrow> atoi (itoa i) = Some i"
proof -
  assume r: "in_i64 i"
  show ?thesis
  proof (cases "i < 0")
    case True
    with r show ?thesis
      by (simp add: itoa_def atoi_def unsigned_digits_def digits_acc_nat_digits)
  next
    case False
    obtain c s where nd: "nat_digits (nat i) = c # s"
      by (cases "nat_digits (nat i)") simp_all
    then have "is_digit c" using nat_digits_digits [of "nat i"] by simp
    then have "c \<noteq> CHR ''-''" "c \<noteq> CHR ''+''" by auto
    moreover have "digits_acc 0 (c # s) = Some (nat i)"
      using digits_acc_nat_digits [of "nat i"] nd by simp
    ultimately show ?thesis
      using False r nd by (simp add: itoa_def atoi_def unsigned_digits_def)
  qed
qed

lemma atoi_in_i64: "atoi s = Some v \<Longrightarrow> in_i64 v"
  by (auto simp: atoi_def Let_def split: option.splits if_splits list.splits)

lemma atoi_Nil [simp]: "atoi [] = None"
  by (simp add: atoi_def unsigned_digits_def)

subsection \<open>strconv.ParseBool\<close>

definition parse_bool :: "string \<Rightarrow> bool option" where
  "parse_bool s =
     (if s \<in> {''1'', ''t'', ''T'', ''TRUE'', ''true'', ''True''} then Some True
      else if s \<in> {''0'', ''f'', ''F'', ''FALSE'', ''false'', ''False''} then Some False
      else None)"

subsection \<open>strings.ToLower\<close>

text \<open>
  ASCII letters are lowered byte by byte. The only two characters outside ASCII that Go lowers to
  an ASCII letter are U+0130 (C4 B0, to \<open>i\<close>) and the Kelvin sign U+212A (E2 84 AA, to \<open>k\<close>). All other
  bytes are kept: whatever Go maps them to stays outside ASCII, and the sources only compare
  lowered text with ASCII words or match it against an ASCII pattern.
\<close>

definition lower_char :: "char \<Rightarrow> char" where
  "lower_char c = (if is_upper c then char_of (code c + 32) else c)"

definition dotted_i :: "char \<Rightarrow> char \<Rightarrow> bool" where
  "dotted_i a b \<longleftrightarrow> code a = 196 \<and> code b = 176"

definition kelvin :: "char \<Rightarrow> char \<Rightarrow> char \<Rightarrow> bool" where
  "kelvin a b c \<longleftrightarrow> code a = 226 \<and> code b = 132 \<and> code c = 170"

fun to_lower :: "string \<Rightarrow> string" where
  "to_lower [] = []"
| "to_lower [a] = [lower_char a]"
| "to_lower [a, b] = (if dotted_i a b then ''i'' else [lower_char a, lower_char b])"
| "to_lower (a # b # c # t) =
     (if dotted_i a b then CHR ''i'' # to_lower (c # t)
      else if kelvin a b c then CHR ''k'' # to_lower t
      else lower_char a # to_lower (b # c # t))"

definition is_ascii :: "string \<Rightarrow> bool" where
  "is_ascii s \<longleftrightarrow> (\<forall>c \<in> set s. code c < 128)"

lemma to_lower_ascii: "is_ascii s \<Longrightarrow> to_lower s = map lower_char s"
  by (induction s rule: to_lower.induct)
    (simp_all add: is_ascii_def dotted_i_def kelvin_def)

subsection \<open>fmt.Sprintf\<close>

text \<open>
  An argument is a string, an integer or an error. The modelled directives are the ones the
  library's formats are built from: \<open>%s\<close>, \<open>%d\<close>, \<open>%v\<close> and \<open>%%\<close>, with Go's markers for an argument of the
  wrong type, a missing argument, surplus arguments and a format that ends in \<open>%\<close>. \<open>plain_format\<close>
  says that a format uses nothing else (no flags, widths or further verbs); theorems about
  rendered text are stated on plain formats.
\<close>

datatype goarg = AStr string | AInt int | AErr err

fun arg_text :: "goarg \<Rightarrow> string" where
  "arg_text (AStr s) = s"
| "arg_text (AInt i) = itoa i"
| "arg_text (AErr e) = e"

fun arg_type :: "goarg \<Rightarrow> string" where
  "arg_type (AStr s) = ''string''"
| "arg_type (AInt i) = ''int''"
| "arg_type (AErr e) = ''*errors.errorString''"

definition bad_verb :: "char \<Rightarrow> goarg \<Rightarrow> string" where
  "bad_verb v a = ''%!'' @ [v] @ ''('' @ arg_type a @ ''='' @ arg_text a @ '')''"

definition directive :: "char \<Rightarrow> goarg \<Rightarrow> string" where
  "directive v a =
     (if v = CHR ''v'' then arg_text a
      else if v = CHR ''s'' then
        (case a of AInt i \<Rightarrow> bad_verb v a | _ \<Rightarrow> arg_text a)
      else if v = CHR ''d'' then
        (case a of AInt i \<Rightarrow> arg_text a | _ \<Rightarrow> bad_verb v a)
      else bad_verb v a)"

fun extra_args :: "goarg list \<Rightarrow> string" where
  "extra_args [] = []"
| "extra_args [a] = arg_type a @ ''='' @ arg_text a"
| "extra_args (a # as) = arg_type a @ ''='' @ arg_text a @ '', '' @ extra_args as"

fun sprintf :: "string \<Rightarrow> goarg list \<Rightarrow> string" where
  "sprintf [] args = (if args = [] then [] else ''%!(EXTRA '' @ extra_args args @ '')'')"
| "sprintf [c] args =
     (if c = CHR ''%'' then ''%!(NOVERB)'' else [c]) @ sprintf [] args"
| "sprintf (c # v # s) args =
     (if c \<noteq> CHR ''%'' then c # sprintf (v # s) args
      else if v = CHR ''%'' then CHR ''%'' # sprintf s args
      else case args of
             [] \<Rightarrow> ''%!'' @ [v] @ ''(MISSING)'' @ sprintf s []
           | a # as \<Rightarrow> directive v a @ sprintf s as)"

text \<open>The number of arguments a plain format consumes; \<open>None\<close> outside the plain formats.\<close>

fun format_arity :: "string \<Rightarrow> nat option" where
  "format_arity [] = Some 0"
| "format_arity [c] = (if c = CHR ''%'' then None else Some 0)"
| "format_arity (c # v # s) =
     (if c \<noteq> CHR ''%'' then format_arity (v # s)
      else if v = CHR ''%'' then format_arity s
      else if v \<in> {CHR ''s'', CHR ''d'', CHR ''v''} then map_option Suc (format_arity s)
      else None)"

definition plain_format :: "string \<Rightarrow> bool" where
  "plain_format f \<longleftrightarrow> format_arity f \<noteq> None"

text \<open>A format that takes exactly its arguments can be extended on the right.\<close>

lemma sprintf_append:
  "format_arity f = Some (length args) \<Longrightarrow>
   sprintf (f @ g) (args @ brgs) = sprintf f args @ sprintf g brgs"
proof (induction f args rule: sprintf.induct)
  case (1 args)
  then show ?case by simp
next
  case (2 c args)
  then show ?case
    by (cases g) (auto split: if_splits)
next
  case (3 c v s args)
  show ?case
  proof (cases "c = CHR ''%''")
    case False
    with 3 show ?thesis by simp
  next
    case True
    show ?thesis
    proof (cases "v = CHR ''%''")
      case True
      with 3 \<open>c = _\<close> show ?thesis by simp
    next
      case False
      with "3.prems" True obtain a as where "args = a # as" "format_arity s = Some (length as)"
        by (cases args) (auto split: if_splits)
      with 3 True False show ?thesis by simp
    qed
  qed
qed

text \<open>Text without a percent sign renders as itself and takes no argument.\<close>

lemma format_arity_literal: "CHR ''%'' \<notin> set f \<Longrightarrow> format_arity f = Some 0"
proof (induction f)
  case (Cons c f)
  then show ?case by (cases f) auto
qed simp

lemma sprintf_literal: "CHR ''%'' \<notin> set f \<Longrightarrow> sprintf f [] = f"
proof (induction f)
  case (Cons c f)
  then show ?case by (cases f) auto
qed simp

lemma sprintf_literal_prefix:
  "CHR ''%'' \<notin> set p \<Longrightarrow> sprintf (p @ f) args = p @ sprintf f args"
  using sprintf_append [of p "[]" f args] by (simp add: format_arity_literal sprintf_literal)

subsection \<open>net.JoinHostPort and net.SplitHostPort\<close>

definition join_host_port :: "string \<Rightarrow> string \<Rightarrow> string" where
  "join_host_port host port =
     (if CHR '':'' \<in> set host then ''['' @ host @ '']:'' @ port else host @ '':'' @ port)"

text \<open>The split at the last colon.\<close>

definition last_colon :: "string \<Rightarrow> (string \<times> string) option" where
  "last_colon s = (case cut (CHR '':'') (rev s) of None \<Rightarrow> None | Some (a, b) \<Rightarrow> Some (rev b, rev a))"

definition split_host_port :: "string \<Rightarrow> (string \<times> string) option" where
  "split_host_port s =
     (case last_colon s of
        None \<Rightarrow> None
      | Some (h, p) \<Rightarrow>
          (case s of
             [] \<Rightarrow> None
           | c # r \<Rightarrow>
             if c = CHR ''['' then
               (case cut (CHR '']'') r of
                  None \<Rightarrow> None
                | Some (host, rest) \<Rightarrow>
                    (if rest = CHR '':'' # p \<and> CHR ''['' \<notin> set host \<and> CHR ''['' \<notin> set rest
                        \<and> CHR '']'' \<notin> set rest
                     then Some (host, p) else None))
             else if CHR '':'' \<in> set h \<or> CHR ''['' \<in> set s \<or> CHR '']'' \<in> set s then None
             else Some (h, p)))"

lemma split_host_port_Nil [simp]: "split_host_port [] = None"
  by (simp add: split_host_port_def last_colon_def)

lemma last_colon_join: "CHR '':'' \<notin> set p \<Longrightarrow> last_colon (h @ '':'' @ p) = Some (h, p)"
  by (simp add: last_colon_def cut_append)

text \<open>A host without brackets or colons and a port without them survive the round trip.\<close>

definition plain_host :: "string \<Rightarrow> bool" where
  "plain_host h \<longleftrightarrow> CHR '':'' \<notin> set h \<and> CHR ''['' \<notin> set h \<and> CHR '']'' \<notin> set h"

lemma split_join_host_port:
  assumes "plain_host h" and "plain_host p"
  shows "split_host_port (join_host_port h p) = Some (h, p)"
proof -
  have lc: "last_colon (h @ '':'' @ p) = Some (h, p)"
    using assms last_colon_join by (simp add: plain_host_def)
  show ?thesis
  proof (cases h)
    case Nil
    with assms lc show ?thesis
      by (simp add: split_host_port_def join_host_port_def plain_host_def)
  next
    case (Cons c r)
    with assms lc show ?thesis
      by (auto simp: split_host_port_def join_host_port_def plain_host_def)
  qed
qed

subsection \<open>path/filepath (on slash-separated paths)\<close>

text \<open>\<open>filepath.Ext\<close>: the suffix from the last dot of the last element, or the empty string.\<close>

fun ext_rev :: "string \<Rightarrow> string \<Rightarrow> string" where
  "ext_rev acc [] = []"
| "ext_rev acc (c # s) =
     (if c = CHR ''/'' then [] else if c = CHR ''.'' then c # acc else ext_rev (c # acc) s)"

definition filepath_ext :: "string \<Rightarrow> string" where
  "filepath_ext p = ext_rev [] (rev p)"

text \<open>\<open>filepath.Base\<close>: trailing slashes dropped, then what follows the last slash.\<close>

definition filepath_base :: "string \<Rightarrow> string" where
  "filepath_base p =
     (if p = [] then ''.''
      else let q = dropWhile (\<lambda>c. c = CHR ''/'') (rev p);
               b = rev (takeWhile (\<lambda>c. c \<noteq> CHR ''/'') q)
           in if b = [] then ''/'' else b)"

end
