(* ===== verification/AppGlobals.thy ===== *)
theory AppGlobals
  imports GoText
begin

section \<open>phhelper: application identity and log prefixes\<close>

text \<open>
  The package-level globals of \<^verbatim>\<open>phhelper/globenv.go\<close> (every access is under \<open>muGlob\<close>, so each
  accessor is one atomic step on the record), and the prefix builder of \<^verbatim>\<open>phhelper/helper.go\<close>.
\<close>

record globals =
  glob_app_name :: string
  glob_app_env :: string

definition get_app_name :: "globals \<Rightarrow> string" where
  "get_app_name g = glob_app_name g"

definition get_app_env :: "globals \<Rightarrow> string" where
  "get_app_env g = glob_app_env g"

definition set_app_name :: "string \<Rightarrow> globals \<Rightarrow> globals" where
  "set_app_name v g = g\<lparr>glob_app_name := v\<rparr>"

definition set_app_env :: "string \<Rightarrow> globals \<Rightarrow> globals" where
  "set_app_env v g = g\<lparr>glob_app_env := v\<rparr>"

lemma get_set_app [simp]:
  "get_app_name (set_app_name v g) = v" "get_app_env (set_app_name v g) = get_app_env g"
  "get_app_env (set_app_env v g) = v" "get_app_name (set_app_env v g) = get_app_name g"
  by (simp_all add: get_app_name_def get_app_env_def set_app_name_def set_app_env_def)

text \<open>\<open>LogModulePrefix\<close> is the constant \<open>pchelper\<close>; the branch for an empty module prefix stays in.\<close>

definition log_module_prefix :: string where
  "log_module_prefix = ''pchelper''"

definition build_log_prefix :: "string \<Rightarrow> string" where
  "build_log_prefix functionName =
     (let fn0 = trim_space functionName;
          fn = (if fn0 = [] then ''Log'' else fn0)
      in if log_module_prefix \<noteq> []
         then ''['' @ log_module_prefix @ ''.'' @ fn @ '']''
         else ''['' @ fn @ '']'')"

lemma build_log_prefix_nonempty: "build_log_prefix f \<noteq> []"
  by (simp add: build_log_prefix_def Let_def)

lemma build_log_prefix_trims:
  "build_log_prefix f = build_log_prefix (trim_space f)" if "trim_space (trim_space f) = trim_space f"
  using that by (simp add: build_log_prefix_def)

end
