(* ===== verification/Interfaces.thy ===== *)
theory Interfaces
  imports Prelude
begin

section \<open>Interfaces between the components\<close>

text \<open>
  The contracts that several components share, as locales. Each is interpreted on the model's own
  definitions in the theory of the component that provides it: \<open>kv_store\<close> on the mutex registry and
  on the AMQP header carrier, \<open>option_setters\<close> on the functional options of the audit publisher
  and of the tracing configuration,
  \<open>log_gate\<close> on the sampler and on the window limiter, \<open>invariant_steps\<close> on the AMQP client and on the
  audit publisher, \<open>refinement\<close> on the publisher and its specification, \<open>labelled_refinement\<close> on the store,
  \<open>decreasing_steps\<close> on the publisher after \<open>Stop\<close>, \<open>response_check\<close> on the operations of the object-store helper.
\<close>

subsection \<open>A keyed store\<close>

text \<open>
  \<open>put\<close> at a valid key is read back by \<open>get\<close>, other keys are untouched. \<open>emb\<close> says how a stored value
  is read (as \<open>Some v\<close> where absence is nil, as itself where absence is the empty string).
\<close>

locale kv_store =
  fixes put :: "'k \<Rightarrow> 'v \<Rightarrow> 'm \<Rightarrow> 'm"
    and get :: "'k \<Rightarrow> 'm \<Rightarrow> 'w"
    and emb :: "'v \<Rightarrow> 'w"
    and valid :: "'k \<Rightarrow> bool"
  assumes get_put: "valid k \<Longrightarrow> get k' (put k v m) = (if k' = k then emb v else get k' m)"
begin

definition puts :: "('k \<times> 'v) list \<Rightarrow> 'm \<Rightarrow> 'm" where
  "puts kvs m = foldl (\<lambda>m (k, v). put k v m) m kvs"

lemma get_put_same: "valid k \<Longrightarrow> get k (put k v m) = emb v"
  by (simp add: get_put)

lemma get_put_other: "valid k \<Longrightarrow> k' \<noteq> k \<Longrightarrow> get k' (put k v m) = get k' m"
  by (simp add: get_put)

lemma get_put_overwrite: "valid k \<Longrightarrow> get k' (put k v (put k u m)) = get k' (put k v m)"
  by (simp add: get_put)

lemma get_put_commute:
  "valid k \<Longrightarrow> valid l \<Longrightarrow> k \<noteq> l \<Longrightarrow>
   get k' (put k v (put l u m)) = get k' (put l u (put k v m))"
  by (simp add: get_put)

text \<open>After a sequence of writes a key reads as its last write, or as before when not written.\<close>

lemma get_puts:
  assumes "\<forall>(k, v) \<in> set kvs. valid k"
  shows "get k (puts kvs m) =
    (case map_of (rev kvs) k of None \<Rightarrow> get k m | Some v \<Rightarrow> emb v)"
  using assms
proof (induction kvs arbitrary: m)
  case Nil
  then show ?case by (simp add: puts_def)
next
  case (Cons kv kvs)
  obtain k' v' where kv: "kv = (k', v')" by (cases kv)
  have "get k (puts kvs (put k' v' m)) =
      (case map_of (rev kvs) k of None \<Rightarrow> get k (put k' v' m) | Some v \<Rightarrow> emb v)"
    using Cons by simp
  moreover have "puts (kv # kvs) m = puts kvs (put k' v' m)"
    by (simp add: puts_def kv)
  ultimately show ?case
    using Cons.prems by (simp add: kv get_put map_add_def split: option.splits)
qed

end

locale kv_store_del = kv_store put get emb valid
  for put :: "'k \<Rightarrow> 'v \<Rightarrow> 'm \<Rightarrow> 'm" and get :: "'k \<Rightarrow> 'm \<Rightarrow> 'w"
    and emb :: "'v \<Rightarrow> 'w" and valid :: "'k \<Rightarrow> bool" +
  fixes del :: "'k \<Rightarrow> 'm \<Rightarrow> 'm" and absent :: 'w
  assumes get_del: "get k' (del k m) = (if k' = k then absent else get k' m)"
begin

lemma get_del_put: "valid k \<Longrightarrow> get k' (del k (put k v m)) = get k' (del k m)"
  by (simp add: get_del get_put)

end

subsection \<open>Functional options\<close>

text \<open>Every option keeps a configuration well formed, so any list of options does.\<close>

locale option_setters =
  fixes apply_opt :: "'o \<Rightarrow> 'c \<Rightarrow> 'c" and wf :: "'c \<Rightarrow> bool"
  assumes apply_wf: "wf c \<Longrightarrow> wf (apply_opt opt c)"
begin

lemma apply_all_wf: "wf c \<Longrightarrow> wf (foldl (\<lambda>c opt. apply_opt opt c) c opts)"
  by (rule foldl_invariant) (auto intro: apply_wf)

end

subsection \<open>Invariants of step relations\<close>

locale invariant_steps =
  fixes step :: "'s \<Rightarrow> 's \<Rightarrow> bool" and inv :: "'s \<Rightarrow> bool"
  assumes step_inv: "step s t \<Longrightarrow> inv s \<Longrightarrow> inv t"
begin

lemma steps_inv: "step\<^sup>*\<^sup>* s t \<Longrightarrow> inv s \<Longrightarrow> inv t"
  by (induction rule: rtranclp_induct) (auto intro: step_inv)

end

subsection \<open>Steps that cannot go on for ever\<close>

text \<open>
  Every step of a state that satisfies the invariant makes its weight smaller. Then the weight bounds the
  length of every run, and every state can run to one that has no step.
\<close>

locale decreasing_steps = invariant_steps step inv
  for step :: "'s \<Rightarrow> 's \<Rightarrow> bool" and inv :: "'s \<Rightarrow> bool" +
  fixes weight :: "'s \<Rightarrow> nat"
  assumes step_weight: "step s t \<Longrightarrow> inv s \<Longrightarrow> weight t < weight s"
begin

lemma run_length: "(step ^^ n) s t \<Longrightarrow> inv s \<Longrightarrow> n + weight t \<le> weight s"
proof (induction n arbitrary: t)
  case (Suc n)
  then obtain u where u: "(step ^^ n) s u" "step u t" by auto
  then have "inv u" using Suc.prems steps_inv by (metis relpowp_imp_rtranclp)
  with u Suc show ?case using step_weight [OF u(2)] by fastforce
qed simp

lemma reaches_final: "inv s \<Longrightarrow> \<exists>t. step\<^sup>*\<^sup>* s t \<and> (\<forall>u. \<not> step t u)"
proof (induction "weight s" arbitrary: s rule: less_induct)
  case less
  show ?case
  proof (cases "\<exists>u. step s u")
    case True
    then obtain u where u: "step s u" by blast
    with less.hyps [OF step_weight [OF u less.prems] step_inv [OF u less.prems]] show ?thesis
      by (meson converse_rtranclp_into_rtranclp)
  qed blast
qed

end

subsection \<open>Refinement\<close>

text \<open>
  A step relation refines an abstract one through an abstraction function: under an invariant every
  concrete step is an abstract step or leaves the abstract state alone. Then runs map to runs.
\<close>

locale refinement = invariant_steps step inv
  for step :: "'s \<Rightarrow> 's \<Rightarrow> bool" and inv :: "'s \<Rightarrow> bool" +
  fixes spec :: "'a \<Rightarrow> 'a \<Rightarrow> bool" and abs :: "'s \<Rightarrow> 'a"
  assumes refines: "step s t \<Longrightarrow> inv s \<Longrightarrow> spec (abs s) (abs t) \<or> abs t = abs s"
begin

lemma refines_steps: "step\<^sup>*\<^sup>* s t \<Longrightarrow> inv s \<Longrightarrow> spec\<^sup>*\<^sup>* (abs s) (abs t)"
proof (induction rule: rtranclp_induct)
  case (step t u)
  then have "spec (abs t) (abs u) \<or> abs u = abs t" by (meson refines steps_inv)
  with step show ?case by (auto intro: rtranclp.rtrancl_into_rtrancl)
qed simp

text \<open>What the specification keeps, every reachable concrete state satisfies through the abstraction.\<close>

lemma transfer_invariant:
  assumes "step\<^sup>*\<^sup>* s t" and "inv s" and "P (abs s)" and "\<And>a b. spec a b \<Longrightarrow> P a \<Longrightarrow> P b"
  shows "P (abs t)"
  using refines_steps [OF assms(1,2)] assms(3) by (induction rule: rtranclp_induct) (auto intro: assms(4))

end

subsection \<open>Refinement of labelled runs\<close>

text \<open>
  When the steps carry labels (which call it was, with which arguments and what it returned), a refinement
  has the abstract step do what the same label stands for. Then a run with a sequence of labels is an
  abstract run with the same sequence.
\<close>

fun labelled_run :: "('e \<Rightarrow> 's \<Rightarrow> 's \<Rightarrow> bool) \<Rightarrow> 'e list \<Rightarrow> 's \<Rightarrow> 's \<Rightarrow> bool" where
  "labelled_run step [] s t \<longleftrightarrow> t = s"
| "labelled_run step (e # es) s t \<longleftrightarrow> (\<exists>u. step e s u \<and> labelled_run step es u t)"

locale labelled_refinement =
  fixes step :: "'e \<Rightarrow> 's \<Rightarrow> 's \<Rightarrow> bool" and spec :: "'e \<Rightarrow> 'a \<Rightarrow> 'a \<Rightarrow> bool" and abs :: "'s \<Rightarrow> 'a"
  assumes simulates: "step e s t \<Longrightarrow> spec e (abs s) (abs t)"
begin

lemma simulates_run: "labelled_run step es s t \<Longrightarrow> labelled_run spec es (abs s) (abs t)"
  by (induction es arbitrary: s) (auto dest: simulates)

lemma transfer_run_invariant:
  assumes "labelled_run step es s t" and "P (abs s)" and "\<And>e a b. spec e a b \<Longrightarrow> P a \<Longrightarrow> P b"
  shows "P (abs t)"
  using assms(1,2) by (induction es arbitrary: s) (auto dest: simulates assms(3))

end

subsection \<open>Rate gates for log lines\<close>

text \<open>
  A gate decides for a key and an instant whether a line passes and how many lines it stands for.
  A refused line reports no suppression, a report is never negative, and deciding for one key
  leaves the decisions for the other keys alone.
\<close>

locale log_gate =
  fixes check :: "'k \<Rightarrow> int \<Rightarrow> 'g \<Rightarrow> (bool \<times> int) \<times> 'g"
    and entry :: "'g \<Rightarrow> 'k \<Rightarrow> 'e"
    and ok :: "'g \<Rightarrow> bool"
  assumes refused_zero: "check k now g = ((False, n), g') \<Longrightarrow> n = 0"
    and report_nonneg: "ok g \<Longrightarrow> check k now g = ((a, n), g') \<Longrightarrow> 0 \<le> n"
    and check_ok: "ok g \<Longrightarrow> check k now g = (r, g') \<Longrightarrow> ok g'"
    and other_keys: "check k now g = (r, g') \<Longrightarrow> k' \<noteq> k \<Longrightarrow> entry g' k' = entry g k'"
begin

fun checks :: "('k \<times> int) list \<Rightarrow> 'g \<Rightarrow> (bool \<times> int) list \<times> 'g" where
  "checks [] g = ([], g)"
| "checks ((k, now) # calls) g =
     (let (r, g1) = check k now g; (rs, g2) = checks calls g1 in (r # rs, g2))"

lemma checks_other_keys:
  "checks calls g = (rs, g') \<Longrightarrow> k' \<notin> fst ` set calls \<Longrightarrow> entry g' k' = entry g k'"
proof (induction calls g arbitrary: rs g' rule: checks.induct)
  case (2 k now calls g)
  obtain r g1 where c: "check k now g = (r, g1)" by (cases "check k now g")
  obtain rs' g2 where cs: "checks calls g1 = (rs', g2)" by (cases "checks calls g1")
  from 2 c cs have "entry g' k' = entry g1 k'" by (auto simp: Let_def)
  with c "2.prems" other_keys show ?case by auto
qed simp

lemma checks_ok: "ok g \<Longrightarrow> checks calls g = (rs, g') \<Longrightarrow> ok g'"
proof (induction calls g arbitrary: rs g' rule: checks.induct)
  case (2 k now calls g)
  obtain r g1 where c: "check k now g = (r, g1)" by (cases "check k now g")
  obtain rs' g2 where cs: "checks calls g1 = (rs', g2)" by (cases "checks calls g1")
  from 2 c cs check_ok show ?case by (simp add: Let_def)
qed simp

lemma checks_reports_nonneg:
  "ok g \<Longrightarrow> checks calls g = (rs, g') \<Longrightarrow> (a, n) \<in> set rs \<Longrightarrow> 0 \<le> n"
proof (induction calls g arbitrary: rs g' rule: checks.induct)
  case (2 k now calls g)
  obtain a1 n1 g1 where c: "check k now g = ((a1, n1), g1)" by (metis surj_pair)
  obtain rs' g2 where cs: "checks calls g1 = (rs', g2)" by (cases "checks calls g1")
  from "2.prems" c cs have "(a, n) = (a1, n1) \<or> (a, n) \<in> set rs'" by (auto simp: Let_def)
  with 2 c cs show ?case by (metis Pair_inject check_ok report_nonneg)
qed simp

end

subsection \<open>Checks of a response\<close>

text \<open>
  A wrapper that calls a service and accepts some of its responses: it gives a result exactly for an
  accepted response, and an error for a failed call, a nil response and a response it refuses.
\<close>

locale response_check =
  fixes check :: "(err + 'r option) \<Rightarrow> err + 'a"
    and accept :: "'r \<Rightarrow> bool" and result :: "'r \<Rightarrow> 'a"
  assumes passes: "accept r \<Longrightarrow> check (Inr (Some r)) = Inr (result r)"
    and only_accepted: "check x = Inr a \<Longrightarrow> \<exists>r. x = Inr (Some r) \<and> accept r"
    and call_error: "check (Inl e) = Inl e"
begin

lemma check_Inr_iff: "check x = Inr a \<longleftrightarrow> (\<exists>r. x = Inr (Some r) \<and> accept r \<and> a = result r)"
  using only_accepted passes by fastforce

lemma check_error_iff: "(\<exists>e. check x = Inl e) \<longleftrightarrow> (\<forall>r. x = Inr (Some r) \<longrightarrow> \<not> accept r)"
proof (cases "check x")
  case (Inl e)
  then show ?thesis using passes by fastforce
next
  case (Inr a)
  then show ?thesis using only_accepted by fastforce
qed

text \<open>A provider that never answers an acceptable response never passes the check.\<close>

lemma never_passes: "(\<And>r. run = Inr (Some r) \<Longrightarrow> \<not> accept r) \<Longrightarrow> \<exists>e. check run = Inl e"
  by (simp add: check_error_iff)

end

end
