(* ===== verification/TraceConfig.thy ===== *)
theory TraceConfig
  imports Complex_Main AppGlobals Interfaces "HOL-Library.AList"
begin

section \<open>phtrace/config.go: configuration of the exporters\<close>

text \<open>
  \<open>Config\<close>, its options, the environment loader, the defaults and the validation of \<open>Init\<close>. Go maps
  that the code ranges over are association lists with distinct keys. \<open>strconv.ParseFloat\<close> and
  \<open>time.ParseDuration\<close> are parameters; a float is a rational or one of the special values.
\<close>

datatype go_float = Fin rat | NaN | PosInf | NegInf

definition float_is_zero :: "go_float \<Rightarrow> bool" where
  "float_is_zero f = (f = Fin 0)"

fun float_outside_unit :: "go_float \<Rightarrow> bool" where
  "float_outside_unit (Fin r) = (r < 0 \<or> r > 1)"
| "float_outside_unit NaN = False"
| "float_outside_unit PosInf = True"
| "float_outside_unit NegInf = True"

text \<open>\<open>%f\<close>: six decimals, the exact value rounded to the nearest, a tie to the even one.\<close>

definition round_half_even :: "rat \<Rightarrow> int" where
  "round_half_even x =
     (let k = \<lfloor>x\<rfloor>; f = x - of_int k in if f > 1 / 2 \<or> f = 1 / 2 \<and> odd k then k + 1 else k)"

fun float_f_text :: "go_float \<Rightarrow> string" where
  "float_f_text (Fin r) =
     (let n = nat (round_half_even (\<bar>r\<bar> * 1000000))
      in (if r < 0 then ''-'' else []) @ nat_digits (n div 1000000) @ CHR ''.'' #
         map (\<lambda>i. char_of (48 + n div 10 ^ i mod 10)) (rev [0..<6]))"
| "float_f_text NaN = ''NaN''"
| "float_f_text PosInf = ''+Inf''"
| "float_f_text NegInf = ''-Inf''"

record trace_config =
  tc_enabled :: bool
  tc_service_name :: string
  tc_service_version :: string
  tc_environment :: string
  tc_endpoint :: string
  tc_insecure :: bool
  tc_ca_cert_file :: string
  tc_headers :: "(string \<times> string) list"
  tc_headers_err :: "err option"
  tc_sampling_ratio :: go_float
  tc_dial_timeout :: int
  tc_batch_timeout :: int
  tc_batch_max_export_size :: int
  tc_metric_export_interval :: int
  tc_resource_attributes :: "(string \<times> string) list"

record std_parsers =
  parse_float :: "string \<Rightarrow> go_float option"
  parse_duration :: "string \<Rightarrow> int option"

subsection \<open>Environment readers\<close>

fun first_non_empty :: "string list \<Rightarrow> string" where
  "first_non_empty [] = []"
| "first_non_empty (v # vals) = (if trim_space v \<noteq> [] then trim_space v else first_non_empty vals)"

definition truthy :: "string \<Rightarrow> bool" where
  "truthy v \<longleftrightarrow> to_lower (trim_space v) \<in> {''1'', ''t'', ''true'', ''y'', ''yes'', ''on''}"

definition env_with :: "env \<Rightarrow> string \<Rightarrow> (string \<Rightarrow> 'a option) \<Rightarrow> 'a \<Rightarrow> 'a" where
  "env_with ev key parse def =
     (let v = trim_space (ev key)
      in if v = [] then def else case parse v of None \<Rightarrow> def | Some x \<Rightarrow> x)"

definition env_bool :: "env \<Rightarrow> string \<Rightarrow> bool \<Rightarrow> bool" where
  "env_bool ev key def = (let v = trim_space (ev key) in if v = [] then def else truthy v)"

definition env_int :: "env \<Rightarrow> string \<Rightarrow> int \<Rightarrow> int" where
  "env_int ev key def = env_with ev key atoi def"

definition env_float :: "std_parsers \<Rightarrow> env \<Rightarrow> string \<Rightarrow> go_float \<Rightarrow> go_float" where
  "env_float sp ev key def = env_with ev key (parse_float sp) def"

definition env_duration :: "std_parsers \<Rightarrow> env \<Rightarrow> string \<Rightarrow> int \<Rightarrow> int" where
  "env_duration sp ev key def = env_with ev key (parse_duration sp) def"

definition parse_resource_attrs :: "string \<Rightarrow> (string \<times> string) list" where
  "parse_resource_attrs raw =
     (if trim_space raw = [] then []
      else foldl (\<lambda>out kv.
             case cut (CHR ''='') (trim_space kv) of
               None \<Rightarrow> out
             | Some (a, b) \<Rightarrow> if trim_space a \<noteq> [] then AList.update (trim_space a) (trim_space b) out else out)
           [] (split_on (CHR '','') raw))"

subsection \<open>Export headers\<close>

text \<open>The expression \<^verbatim>\<open>^[a-z0-9][a-z0-9._-]*$\<close>.\<close>

definition header_key :: "string \<Rightarrow> bool" where
  "header_key s =
     (case s of
        [] \<Rightarrow> False
      | c # r \<Rightarrow> (is_lower c \<or> is_digit c) \<and>
                list_all (\<lambda>d. is_lower d \<or> is_digit d \<or> d = CHR ''.'' \<or> d = CHR ''_'' \<or> d = CHR ''-'') r)"

definition is_control :: "char \<Rightarrow> bool" where
  "is_control c \<longleftrightarrow> code c < 32 \<or> code c = 127"

text \<open>\<open>url.PathUnescape\<close>.\<close>

definition hex_val :: "char \<Rightarrow> nat option" where
  "hex_val c =
     (if is_digit c then Some (digit_val c)
      else if 97 \<le> code c \<and> code c \<le> 102 then Some (code c - 87)
      else if 65 \<le> code c \<and> code c \<le> 70 then Some (code c - 55) else None)"

fun path_unescape :: "string \<Rightarrow> string option" where
  "path_unescape [] = Some []"
| "path_unescape (c # s) =
     (if c = CHR ''%'' then
        (case s of
           a # b # r \<Rightarrow>
             (case (hex_val a, hex_val b) of
                (Some x, Some y) \<Rightarrow> map_option (\<lambda>t. char_of (16 * x + y) # t) (path_unescape r)
              | _ \<Rightarrow> None)
         | _ \<Rightarrow> None)
      else map_option (\<lambda>t. c # t) (path_unescape s))"

text \<open>The errors of the loader name the position and the problem, never the value.\<close>

datatype header_problem =
  NoEquals nat | InvalidKey nat | EmptyValue nat string | BadEscape nat string | ControlChar nat string
  | RepeatedKey nat string

definition header_problem_text :: "header_problem \<Rightarrow> err" where
  "header_problem_text p =
     (let entry = (\<lambda>i. ''OTEL_EXPORTER_OTLP_HEADERS entry '' @ itoa (int i))
      in case p of
           NoEquals i \<Rightarrow> entry i @ '' has no '' @ [CHR 39, CHR ''='', CHR 39]
         | InvalidKey i \<Rightarrow> entry i @ '' has an invalid key''
         | EmptyValue i k \<Rightarrow> entry i @ '' ('' @ k @ '') has an empty value''
         | BadEscape i k \<Rightarrow> entry i @ '' ('' @ k @ '') has invalid percent-encoding''
         | ControlChar i k \<Rightarrow> entry i @ '' ('' @ k @ '') contains a control character''
         | RepeatedKey i k \<Rightarrow> entry i @ '' repeats key '' @ k)"

definition parse_header_entry ::
  "nat \<Rightarrow> string \<Rightarrow> (string \<times> string) list \<Rightarrow> header_problem + (string \<times> string) list" where
  "parse_header_entry pos entry out =
     (let (key0, value0, ok) = (case cut (CHR ''='') entry of None \<Rightarrow> (entry, [], False)
                                | Some (a, b) \<Rightarrow> (a, b, True));
          key = to_lower (trim_space key0);
          val = trim_space value0
      in if \<not> ok then Inl (NoEquals pos)
         else if \<not> header_key key then Inl (InvalidKey pos)
         else if val = [] then Inl (EmptyValue pos key)
         else
           (case path_unescape val of
              None \<Rightarrow> Inl (BadEscape pos key)
            | Some decoded \<Rightarrow>
                (if list_ex is_control decoded then Inl (ControlChar pos key)
                 else if map_of out key \<noteq> None then Inl (RepeatedKey pos key)
                 else Inr (out @ [(key, decoded)]))))"

fun parse_header_entries ::
  "nat \<Rightarrow> string list \<Rightarrow> (string \<times> string) list \<Rightarrow> header_problem + (string \<times> string) list" where
  "parse_header_entries pos [] out = Inr out"
| "parse_header_entries pos (e # es) out =
     (case parse_header_entry pos e out of
        Inl p \<Rightarrow> Inl p
      | Inr out' \<Rightarrow> parse_header_entries (pos + 1) es out')"

definition parse_otlp_headers :: "string \<Rightarrow> header_problem + (string \<times> string) list" where
  "parse_otlp_headers raw =
     (if trim_space raw = [] then Inr [] else parse_header_entries 1 (split_on (CHR '','') raw) [])"

definition validate_headers :: "(string \<times> string) list \<Rightarrow> err option" where
  "validate_headers headers =
     (case List.find (\<lambda>(k, v). \<not> header_key k \<or> v = [] \<or> list_ex is_control v) headers of
        None \<Rightarrow> None
      | Some (k, v) \<Rightarrow>
          (if \<not> header_key k then Some ''phtrace: Config.Headers has an invalid key''
           else Some (''phtrace: Config.Headers['' @ k @ ''] is empty or contains a control character'')))"

subsection \<open>Options, loader, defaults, requirements\<close>

datatype trace_option =
    WithServiceName string
  | WithServiceVersion string
  | WithEnvironment string
  | WithEndpoint string
  | WithInsecure bool
  | WithSamplingRatio go_float
  | WithCACertFile string
  | WithHeader string string
  | WithEnabled bool
  | WithResourceAttribute string string

fun apply_trace_option :: "trace_option \<Rightarrow> trace_config \<Rightarrow> trace_config" where
  "apply_trace_option (WithServiceName v) c = c\<lparr>tc_service_name := v\<rparr>"
| "apply_trace_option (WithServiceVersion v) c = c\<lparr>tc_service_version := v\<rparr>"
| "apply_trace_option (WithEnvironment v) c = c\<lparr>tc_environment := v\<rparr>"
| "apply_trace_option (WithEndpoint v) c = c\<lparr>tc_endpoint := v\<rparr>"
| "apply_trace_option (WithInsecure v) c = c\<lparr>tc_insecure := v\<rparr>"
| "apply_trace_option (WithSamplingRatio v) c = c\<lparr>tc_sampling_ratio := v\<rparr>"
| "apply_trace_option (WithCACertFile v) c = c\<lparr>tc_ca_cert_file := v\<rparr>"
| "apply_trace_option (WithHeader k v) c =
     c\<lparr>tc_headers := AList.update (to_lower (trim_space k)) v (tc_headers c)\<rparr>"
| "apply_trace_option (WithEnabled v) c = c\<lparr>tc_enabled := v\<rparr>"
| "apply_trace_option (WithResourceAttribute k v) c =
     c\<lparr>tc_resource_attributes := AList.update k v (tc_resource_attributes c)\<rparr>"

definition FromEnv :: "std_parsers \<Rightarrow> env \<Rightarrow> trace_option list \<Rightarrow> trace_config" where
  "FromEnv sp ev opts =
     (let headers = parse_otlp_headers (ev ''OTEL_EXPORTER_OTLP_HEADERS'');
          endpoint = trim_space (ev ''OTEL_EXPORTER_OTLP_ENDPOINT'');
          flag = trim_space (ev ''OTEL_ENABLED'');
          c = \<lparr>tc_enabled = (if flag \<noteq> [] then truthy flag else endpoint \<noteq> []),
               tc_service_name = trim_space (ev ''OTEL_SERVICE_NAME''),
               tc_service_version = trim_space (ev ''OTEL_SERVICE_VERSION''),
               tc_environment = first_non_empty [ev ''OTEL_DEPLOYMENT_ENV'', ev ''APP_ENV'', ''dev''],
               tc_endpoint = endpoint,
               tc_insecure = env_bool ev ''OTEL_EXPORTER_OTLP_INSECURE'' True,
               tc_ca_cert_file = trim_space (ev ''OTEL_EXPORTER_OTLP_CERTIFICATE''),
               tc_headers = (case headers of Inl _ \<Rightarrow> [] | Inr hs \<Rightarrow> hs),
               tc_headers_err = (case headers of Inl p \<Rightarrow> Some (header_problem_text p) | Inr _ \<Rightarrow> None),
               tc_sampling_ratio = env_float sp ev ''OTEL_TRACES_SAMPLER_ARG'' (Fin 1),
               tc_dial_timeout = env_duration sp ev ''OTEL_DIAL_TIMEOUT'' (5 * Second),
               tc_batch_timeout = env_duration sp ev ''OTEL_BATCH_TIMEOUT'' (5 * Second),
               tc_batch_max_export_size = env_int ev ''OTEL_BATCH_MAX_EXPORT_SIZE'' 512,
               tc_metric_export_interval = env_duration sp ev ''OTEL_METRIC_EXPORT_INTERVAL'' (15 * Second),
               tc_resource_attributes = parse_resource_attrs (ev ''OTEL_RESOURCE_ATTRIBUTES'')\<rparr>
      in foldl (\<lambda>c opt. apply_trace_option opt c) c opts)"

definition with_defaults :: "trace_config \<Rightarrow> trace_config" where
  "with_defaults c =
     (let c1 = (if tc_dial_timeout c \<le> 0 then c\<lparr>tc_dial_timeout := 5 * Second\<rparr> else c);
          c2 = (if tc_batch_timeout c1 \<le> 0 then c1\<lparr>tc_batch_timeout := 5 * Second\<rparr> else c1);
          c3 = (if tc_batch_max_export_size c2 \<le> 0 then c2\<lparr>tc_batch_max_export_size := 512\<rparr> else c2);
          c4 = (if tc_metric_export_interval c3 \<le> 0 then c3\<lparr>tc_metric_export_interval := 15 * Second\<rparr> else c3);
          c5 = (if float_is_zero (tc_sampling_ratio c4) then c4\<lparr>tc_sampling_ratio := Fin 1\<rparr> else c4)
      in if tc_environment c5 = [] then c5\<lparr>tc_environment := ''dev''\<rparr> else c5)"

definition ensure_required :: "trace_config \<Rightarrow> err option" where
  "ensure_required c =
     (if tc_service_name c = [] then
        Some ''phtrace: Config.ServiceName must not be empty (set OTEL_SERVICE_NAME or pass WithServiceName)''
      else if tc_endpoint c = [] then
        Some ''phtrace: Config.Endpoint must not be empty (set OTEL_EXPORTER_OTLP_ENDPOINT or pass WithEndpoint)''
      else if float_outside_unit (tc_sampling_ratio c) then
        Some (''phtrace: Config.SamplingRatio must be in [0,1], got '' @ float_f_text (tc_sampling_ratio c))
      else if tc_dial_timeout c \<le> 0 then Some ''phtrace: Config.DialTimeout must be > 0''
      else (case tc_headers_err c of
              Some e \<Rightarrow> Some (''phtrace: '' @ e)
            | None \<Rightarrow> validate_headers (tc_headers c)))"

subsection \<open>The loader only produces valid headers\<close>

definition headers_ok :: "(string \<times> string) list \<Rightarrow> bool" where
  "headers_ok hs \<longleftrightarrow> distinct (map fst hs) \<and>
     (\<forall>(k, v) \<in> set hs. header_key k \<and> v \<noteq> [] \<and> \<not> list_ex is_control v)"

lemma headers_okI:
  "distinct (map fst hs) \<Longrightarrow>
   (\<And>k v. (k, v) \<in> set hs \<Longrightarrow> header_key k \<and> v \<noteq> [] \<and> \<not> list_ex is_control v) \<Longrightarrow> headers_ok hs"
  by (auto simp: headers_ok_def)

lemma headers_okD:
  "headers_ok hs \<Longrightarrow> (k, v) \<in> set hs \<Longrightarrow> header_key k \<and> v \<noteq> [] \<and> \<not> list_ex is_control v"
  by (auto simp: headers_ok_def)

lemma headers_ok_snoc:
  "headers_ok hs \<Longrightarrow> k \<notin> fst ` set hs \<Longrightarrow> header_key k \<Longrightarrow> v \<noteq> [] \<Longrightarrow> \<not> list_ex is_control v \<Longrightarrow>
   headers_ok (hs @ [(k, v)])"
  by (auto simp: headers_ok_def)

lemma validate_headers_None:
  "validate_headers hs = None \<longleftrightarrow>
   (\<forall>(k, v) \<in> set hs. header_key k \<and> v \<noteq> [] \<and> \<not> list_ex is_control v)"
proof -
  have "validate_headers hs = None \<longleftrightarrow>
    List.find (\<lambda>(k, v). \<not> header_key k \<or> v = [] \<or> list_ex is_control v) hs = None"
    by (simp add: validate_headers_def split: option.split prod.split)
  then show ?thesis by (auto simp: find_None_iff_all)
qed

lemma headers_ok_valid: "headers_ok hs \<Longrightarrow> validate_headers hs = None"
  by (simp add: validate_headers_None headers_ok_def)

lemma path_unescape_Nil: "path_unescape s = Some [] \<Longrightarrow> s = []"
  by (cases s) (auto split: if_splits list.splits option.splits prod.splits)

lemma parse_header_entry_ok:
  "parse_header_entry pos e out = Inr out' \<Longrightarrow> headers_ok out \<Longrightarrow> headers_ok out'"
  by (auto simp: parse_header_entry_def Let_def map_of_eq_None_iff
      split: option.splits if_splits prod.splits intro!: headers_ok_snoc dest: path_unescape_Nil)

lemma parse_header_entries_ok:
  "parse_header_entries pos es out = Inr out' \<Longrightarrow> headers_ok out \<Longrightarrow> headers_ok out'"
  by (induction pos es out rule: parse_header_entries.induct)
    (auto split: sum.splits dest: parse_header_entry_ok)

lemma parse_otlp_headers_ok: "parse_otlp_headers raw = Inr hs \<Longrightarrow> headers_ok hs"
  by (auto simp: parse_otlp_headers_def headers_ok_def split: if_splits
      dest!: parse_header_entries_ok)

lemma with_defaults_fields:
  "tc_headers (with_defaults c) = tc_headers c" "tc_headers_err (with_defaults c) = tc_headers_err c"
  "tc_service_name (with_defaults c) = tc_service_name c" "tc_endpoint (with_defaults c) = tc_endpoint c"
  "tc_enabled (with_defaults c) = tc_enabled c" "0 < tc_dial_timeout (with_defaults c)"
  "tc_insecure (with_defaults c) = tc_insecure c" "tc_ca_cert_file (with_defaults c) = tc_ca_cert_file c"
  "0 < tc_batch_timeout (with_defaults c)" "0 < tc_batch_max_export_size (with_defaults c)"
  "0 < tc_metric_export_interval (with_defaults c)" "tc_environment (with_defaults c) \<noteq> []"
  "tc_sampling_ratio (with_defaults c) =
     (if tc_sampling_ratio c = Fin 0 then Fin 1 else tc_sampling_ratio c)"
  by (simp_all add: with_defaults_def Let_def float_is_zero_def)


subsection \<open>Well-formed configurations\<close>

text \<open>An association list stands for a Go map while its keys are distinct; every option keeps that.\<close>

definition config_maps_ok :: "trace_config \<Rightarrow> bool" where
  "config_maps_ok c \<longleftrightarrow> distinct (map fst (tc_headers c)) \<and> distinct (map fst (tc_resource_attributes c))"

interpretation trace_options: option_setters apply_trace_option config_maps_ok
proof
  fix c opt
  show "config_maps_ok c \<Longrightarrow> config_maps_ok (apply_trace_option opt c)"
    by (cases opt) (simp_all add: config_maps_ok_def distinct_update)
qed

definition trace_config_wf :: "trace_config \<Rightarrow> bool" where
  "trace_config_wf c \<longleftrightarrow> config_maps_ok c \<and> 0 < tc_dial_timeout c \<and> 0 < tc_batch_timeout c \<and>
     0 < tc_batch_max_export_size c \<and> 0 < tc_metric_export_interval c \<and> tc_environment c \<noteq> [] \<and>
     tc_sampling_ratio c \<noteq> Fin 0"

lemma with_defaults_attributes: "tc_resource_attributes (with_defaults c) = tc_resource_attributes c"
  by (simp add: with_defaults_def Let_def)

lemma with_defaults_wf: "config_maps_ok c \<Longrightarrow> trace_config_wf (with_defaults c)"
  by (simp add: trace_config_wf_def config_maps_ok_def with_defaults_fields with_defaults_attributes)

lemma parse_resource_attrs_distinct: "distinct (map fst (parse_resource_attrs raw))"
  unfolding parse_resource_attrs_def
  by (auto intro!: foldl_invariant [where P = "\<lambda>kvs. distinct (map fst kvs)"] simp: distinct_update
      split: option.split)

lemma options_keep_headers_err: "tc_headers_err (foldl (\<lambda>c opt. apply_trace_option opt c) c opts) = tc_headers_err c"
proof (rule foldl_invariant [where P = "\<lambda>x. tc_headers_err x = tc_headers_err c"])
  show "tc_headers_err (apply_trace_option x a) = tc_headers_err c" if "tc_headers_err a = tc_headers_err c" for x a
    using that by (cases x) simp_all
qed simp

lemma FromEnv_maps_ok: "config_maps_ok (FromEnv sp ev opts)"
  unfolding FromEnv_def Let_def
  by (rule trace_options.apply_all_wf)
    (auto simp: config_maps_ok_def parse_resource_attrs_distinct headers_ok_def
      split: sum.split dest: parse_otlp_headers_ok)

lemma FromEnv_headers_err:
  "tc_headers_err (FromEnv sp ev opts) =
     (case parse_otlp_headers (ev ''OTEL_EXPORTER_OTLP_HEADERS'') of
        Inl p \<Rightarrow> Some (header_problem_text p) | Inr _ \<Rightarrow> None)"
  by (simp add: FromEnv_def Let_def options_keep_headers_err)

text \<open>
  C38. A configuration loaded from any environment with any options is well formed once the defaults are
  in: its maps have distinct keys, every timeout, interval and batch size is positive, the environment
  is named and the sampling ratio is not zero. And a malformed header variable is never forgotten:
  whatever the options add, the requirements then report an error; a well-formed one yields headers
  that pass the validation of headers set in code.
\<close>

theorem loaded_config_well_formed:
  "trace_config_wf (with_defaults (FromEnv sp ev opts)) \<and>
   (case parse_otlp_headers (ev ''OTEL_EXPORTER_OTLP_HEADERS'') of
      Inl p \<Rightarrow> ensure_required (with_defaults (FromEnv sp ev opts)) \<noteq> None
    | Inr hs \<Rightarrow> tc_headers (FromEnv sp ev []) = hs \<and> validate_headers hs = None)"
proof
  show "trace_config_wf (with_defaults (FromEnv sp ev opts))"
    by (rule with_defaults_wf) (rule FromEnv_maps_ok)
  show "case parse_otlp_headers (ev ''OTEL_EXPORTER_OTLP_HEADERS'') of
      Inl p \<Rightarrow> ensure_required (with_defaults (FromEnv sp ev opts)) \<noteq> None
    | Inr hs \<Rightarrow> tc_headers (FromEnv sp ev []) = hs \<and> validate_headers hs = None"
  proof (cases "parse_otlp_headers (ev ''OTEL_EXPORTER_OTLP_HEADERS'')")
    case (Inl p)
    then show ?thesis
      using FromEnv_headers_err [of sp ev opts] by (simp add: ensure_required_def with_defaults_fields)
  next
    case (Inr hs)
    then show ?thesis by (simp add: FromEnv_def Let_def headers_ok_valid parse_otlp_headers_ok)
  qed
qed

end
