(* ===== verification/TraceInit.thy ===== *)
theory TraceInit
  imports TraceConfig
begin

section \<open>phtrace/phtrace.go: starting and stopping the exporters\<close>

text \<open>
  The package globals form the record \<open>trace_pkg\<close>; \<open>initOnce.Do\<close> runs its function on the first \<open>Init\<close>
  only. The OpenTelemetry SDK is not part of the repository: what its constructors answer is the
  record \<open>otel_lib\<close>, a provider is the settings it was built from, and the calls the package makes
  on it are the trace \<open>tr_calls\<close>. The two exporters read the certificate file one after the other,
  so the reading takes the number of the call.
\<close>

subsection \<open>State\<close>

datatype transport_creds = Plaintext | TlsSystemRoots | TlsPool string

record exporter_opts =
  eo_endpoint :: string
  eo_creds :: transport_creds
  eo_headers :: "(string \<times> string) list option"
  eo_dial_timeout :: int

record tracer_provider =
  tp_exporter :: exporter_opts
  tp_batch_size :: int
  tp_batch_timeout :: int
  tp_ratio :: go_float
  tp_resource :: "(string \<times> string) list"

record meter_provider =
  mp_exporter :: exporter_opts
  mp_interval :: int
  mp_resource :: "(string \<times> string) list"

datatype otel_call =
    SetTracerProvider tracer_provider
  | SetMeterProvider meter_provider
  | SetTextMapPropagator
  | SetErrorHandler
  | TracerShutdown
  | MeterShutdown
  | SpanExporterShutdown
  | MetricExporterShutdown

record trace_pkg =
  tr_once :: sync_once
  tr_init_err :: "err option"
  tr_enabled :: bool
  tr_providers :: "(tracer_provider \<times> meter_provider) option"
  tr_resource_info :: "(string \<times> string) list option"
  tr_calls :: "otel_call list"

definition trace_pkg_initial :: trace_pkg where
  "trace_pkg_initial =
     \<lparr>tr_once = OnceNew, tr_init_err = None, tr_enabled = False, tr_providers = None,
      tr_resource_info = None, tr_calls = []\<rparr>"

text \<open>A \<open>Shutdown\<close> value: nil, the function that returns nil, or the one that closes over the providers.\<close>

datatype shutdown_fn = NilShutdown | NoopShutdown | RealShutdown

record otel_lib =
  ol_read_file :: "nat \<Rightarrow> string \<Rightarrow> err + string"
  ol_append_certs :: "string \<Rightarrow> bool"
  ol_new_resource :: "(string \<times> string) list \<Rightarrow> err + (string \<times> string) list"
  ol_trace_exporter :: "exporter_opts \<Rightarrow> err option"
  ol_metric_exporter :: "exporter_opts \<Rightarrow> err option"

subsection \<open>Building blocks\<close>

definition IsEnabled :: "trace_pkg \<Rightarrow> bool" where
  "IsEnabled s = tr_enabled s"

text \<open>
  What the accessors hand out: the SDK's own no-op tracer or the package's no-op meter while disabled,
  the global object of that name after; the propagator falls back to a composite of the two W3C ones.
\<close>

datatype otel_handle = NoopHandle string | GlobalHandle string

datatype propagator = CompositeW3C | GlobalPropagator

text \<open>
  The no-op meter embeds an interface value that is nil. Its eight methods make instruments whose own
  method does nothing; any other method of the interface is called on the nil value.
\<close>

datatype num_kind = Int64Kind | Float64Kind

datatype instrument_kind = CounterKind | UpDownCounterKind | HistogramKind | GaugeKind

datatype observable_kind = ObservableCounter | ObservableUpDownCounter | ObservableGauge

datatype meter_method =
    MakeInstrument num_kind instrument_kind
  | MakeObservable num_kind observable_kind
  | RegisterCallbackMethod

datatype nop_instrument = NopInstrument num_kind instrument_kind

fun nop_meter_call :: "meter_method \<Rightarrow> (nop_instrument \<times> err option) outcome" where
  "nop_meter_call (MakeInstrument n i) = Returned (NopInstrument n i, None)"
| "nop_meter_call (MakeObservable n i) = Panicked NilDereference"
| "nop_meter_call RegisterCallbackMethod = Panicked NilDereference"

text \<open>The methods of the instruments: counters have \<open>Add\<close>, histograms and gauges \<open>Record\<close>.\<close>

datatype instrument_method = AddMethod | RecordMethod

fun instrument_has :: "instrument_kind \<Rightarrow> instrument_method \<Rightarrow> bool" where
  "instrument_has CounterKind m = (m = AddMethod)"
| "instrument_has UpDownCounterKind m = (m = AddMethod)"
| "instrument_has HistogramKind m = (m = RecordMethod)"
| "instrument_has GaugeKind m = (m = RecordMethod)"

definition nop_record :: "nop_instrument \<Rightarrow> 'value \<Rightarrow> trace_pkg \<Rightarrow> trace_pkg" where
  "nop_record i v s = s"

text \<open>What the handler given to \<^verbatim>\<open>otel.SetErrorHandler\<close> prints on the standard output.\<close>

definition error_handler_Handle :: "err option \<Rightarrow> string" where
  "error_handler_Handle e =
     (case e of None \<Rightarrow> [] | Some x \<Rightarrow> ''[phtrace.errorHandler] otel err='' @ x @ [CHR 10])"

lemma nop_meter_panics:
  "(\<exists>p. nop_meter_call m = Panicked p) \<longleftrightarrow> (\<forall>n i. m \<noteq> MakeInstrument n i)"
  by (cases m) auto

definition Tracer :: "string \<Rightarrow> trace_pkg \<Rightarrow> otel_handle" where
  "Tracer name s = (if \<not> tr_enabled s then NoopHandle name else GlobalHandle name)"

definition Meter :: "string \<Rightarrow> trace_pkg \<Rightarrow> otel_handle" where
  "Meter name s = (if \<not> tr_enabled s then NoopHandle name else GlobalHandle name)"

definition Propagator :: "trace_pkg \<Rightarrow> propagator" where
  "Propagator s = (if \<not> tr_enabled s then CompositeW3C else GlobalPropagator)"

definition transport_credentials :: "otel_lib \<Rightarrow> nat \<Rightarrow> trace_config \<Rightarrow> err + transport_creds" where
  "transport_credentials ol call cfg =
     (if tc_insecure cfg then Inr Plaintext
      else if tc_ca_cert_file cfg = [] then Inr TlsSystemRoots
      else (case ol_read_file ol call (tc_ca_cert_file cfg) of
              Inl e \<Rightarrow> Inl (''phtrace: read OTLP CA certificate file: '' @ e)
            | Inr pem \<Rightarrow>
                (if \<not> ol_append_certs ol pem
                 then Inl ''phtrace: OTLP CA certificate file holds no PEM certificate''
                 else Inr (TlsPool pem))))"

definition build_resource :: "otel_lib \<Rightarrow> trace_config \<Rightarrow> err + (string \<times> string) list" where
  "build_resource ol cfg =
     ol_new_resource ol
       ([(''service.name'', tc_service_name cfg), (''service.version'', tc_service_version cfg),
         (''deployment.environment'', tc_environment cfg)] @ tc_resource_attributes cfg)"

text \<open>
  The options for an exporter. Headers are an option only when there are any; without it the exporter falls
  back to its own environment variables.
\<close>

definition exporter_opts_of :: "trace_config \<Rightarrow> transport_creds \<Rightarrow> exporter_opts" where
  "exporter_opts_of cfg creds =
     \<lparr>eo_endpoint = tc_endpoint cfg, eo_creds = creds,
      eo_headers = (if tc_headers cfg = [] then None else Some (tc_headers cfg)),
      eo_dial_timeout = tc_dial_timeout cfg\<rparr>"

definition build_tracer_provider ::
  "otel_lib \<Rightarrow> trace_config \<Rightarrow> (string \<times> string) list \<Rightarrow> err + tracer_provider" where
  "build_tracer_provider ol cfg res =
     (case transport_credentials ol 0 cfg of
        Inl e \<Rightarrow> Inl e
      | Inr creds \<Rightarrow>
          (let opts = exporter_opts_of cfg creds
           in case ol_trace_exporter ol opts of
                Some e \<Rightarrow> Inl (''otlptracegrpc: '' @ e)
              | None \<Rightarrow>
                  Inr \<lparr>tp_exporter = opts, tp_batch_size = tc_batch_max_export_size cfg,
                       tp_batch_timeout = tc_batch_timeout cfg, tp_ratio = tc_sampling_ratio cfg,
                       tp_resource = res\<rparr>))"

definition build_meter_provider ::
  "otel_lib \<Rightarrow> trace_config \<Rightarrow> (string \<times> string) list \<Rightarrow> err + meter_provider" where
  "build_meter_provider ol cfg res =
     (case transport_credentials ol 1 cfg of
        Inl e \<Rightarrow> Inl e
      | Inr creds \<Rightarrow>
          (let opts = exporter_opts_of cfg creds
           in case ol_metric_exporter ol opts of
                Some e \<Rightarrow> Inl (''otlpmetricgrpc: '' @ e)
              | None \<Rightarrow>
                  Inr \<lparr>mp_exporter = opts, mp_interval = tc_metric_export_interval cfg,
                       mp_resource = res\<rparr>))"

subsection \<open>Init and Shutdown\<close>

text \<open>The function given to \<open>initOnce.Do\<close>; it assigns the local \<open>shutdown\<close> of the calling \<open>Init\<close>.\<close>

definition init_body :: "otel_lib \<Rightarrow> trace_config \<Rightarrow> trace_pkg \<Rightarrow> shutdown_fn \<times> trace_pkg" where
  "init_body ol cfg0 s =
     (let cfg = with_defaults cfg0
      in if \<not> tc_enabled cfg then (NoopShutdown, s)
         else case ensure_required cfg of
           Some e \<Rightarrow> (NoopShutdown, s\<lparr>tr_init_err := Some e\<rparr>)
         | None \<Rightarrow>
           (case build_resource ol cfg of
              Inl e \<Rightarrow> (NoopShutdown, s\<lparr>tr_init_err := Some (''phtrace: build resource: '' @ e)\<rparr>)
            | Inr res \<Rightarrow>
              (let s1 = s\<lparr>tr_resource_info := Some res\<rparr>
               in case build_tracer_provider ol cfg res of
                    Inl e \<Rightarrow> (NoopShutdown, s1\<lparr>tr_init_err := Some (''phtrace: tracer provider: '' @ e)\<rparr>)
                  | Inr tp \<Rightarrow>
                    (case build_meter_provider ol cfg res of
                       Inl e \<Rightarrow>
                         (NoopShutdown, s1\<lparr>tr_calls := tr_calls s1 @ [TracerShutdown],
                            tr_init_err := Some (''phtrace: meter provider: '' @ e)\<rparr>)
                     | Inr mp \<Rightarrow>
                         (RealShutdown, s1\<lparr>tr_providers := Some (tp, mp),
                            tr_calls := tr_calls s1 @ [SetTracerProvider tp, SetMeterProvider mp,
                                                       SetTextMapPropagator, SetErrorHandler],
                            tr_enabled := True\<rparr>)))))"

definition Init :: "otel_lib \<Rightarrow> trace_config \<Rightarrow> trace_pkg \<Rightarrow> (shutdown_fn \<times> err option) \<times> trace_pkg" where
  "Init ol cfg s =
     (let (sd, s') = (if tr_once s = OnceNew
                      then (let (sd, t) = init_body ol cfg s in (sd, t\<lparr>tr_once := OnceDone\<rparr>))
                      else (NilShutdown, s))
      in if tr_init_err s' \<noteq> None then ((sd, tr_init_err s'), s')
         else ((if sd = NilShutdown then NoopShutdown else sd, None), s'))"

text \<open>\<open>errors.Join\<close>: nil when there is no error, else the messages one per line.\<close>

definition errors_join :: "err list \<Rightarrow> err option" where
  "errors_join es = (if es = [] then None else Some (join_with [CHR 10] es))"

text \<open>The errors the four shutdown calls return.\<close>

record shutdown_replies =
  sr_tracer :: "err option"
  sr_meter :: "err option"
  sr_span :: "err option"
  sr_metric :: "err option"

definition wrap_err :: "string \<Rightarrow> err option \<Rightarrow> err list" where
  "wrap_err what e = (case e of None \<Rightarrow> [] | Some m \<Rightarrow> [what @ '': '' @ m])"

text \<open>
  Calling a \<open>Shutdown\<close>. Both exporters are non-nil in a \<open>RealShutdown\<close>. Calling the nil function panics.
\<close>

fun call_shutdown ::
  "shutdown_fn \<Rightarrow> shutdown_replies \<Rightarrow> trace_pkg \<Rightarrow> (err option \<times> trace_pkg) outcome" where
  "call_shutdown NilShutdown r s = Panicked NilDereference"
| "call_shutdown NoopShutdown r s = Returned (None, s)"
| "call_shutdown RealShutdown r s =
     (let errs = wrap_err ''tracer shutdown'' (sr_tracer r) @ wrap_err ''meter shutdown'' (sr_meter r) @
                 wrap_err ''span exporter'' (sr_span r) @ wrap_err ''metric exporter'' (sr_metric r)
      in Returned (errors_join errs,
           s\<lparr>tr_calls := tr_calls s @ [TracerShutdown, MeterShutdown, SpanExporterShutdown,
                                       MetricExporterShutdown],
             tr_enabled := False\<rparr>))"

definition Resource :: "trace_pkg \<Rightarrow> (string \<times> string) list option" where
  "Resource s = tr_resource_info s"


subsection \<open>How Init behaves\<close>

lemma init_body_cases:
  "init_body ol cfg s = (sd, t) \<Longrightarrow>
   (sd = NoopShutdown \<and> tr_enabled t = tr_enabled s \<and> tr_providers t = tr_providers s) \<or>
   (sd = RealShutdown \<and> tr_enabled t \<and> tr_init_err t = tr_init_err s)"
  by (auto simp: init_body_def Let_def split: if_splits option.splits sum.splits)

lemma init_body_shutdown [simp]: "init_body ol cfg s \<noteq> (NilShutdown, t)"
  by (auto dest: init_body_cases)

lemma init_sets_once: "Init ol cfg s = (r, t) \<Longrightarrow> tr_once s \<noteq> OnceRunning \<Longrightarrow> tr_once t = OnceDone"
  by (cases "tr_once s") (auto simp: Init_def Let_def split: if_splits prod.splits)

lemma init_done:
  "tr_once s = OnceDone \<Longrightarrow>
   Init ol cfg s = (if tr_init_err s = None then ((NoopShutdown, None), s)
                    else ((NilShutdown, tr_init_err s), s))"
  by (simp add: Init_def)

lemma transport_credentials_plaintext:
  "transport_credentials ol n cfg = Inr Plaintext \<longleftrightarrow> tc_insecure cfg"
  by (auto simp: transport_credentials_def split: sum.splits if_splits)

lemma exporter_opts_fields [simp]:
  "eo_endpoint (exporter_opts_of cfg cr) = tc_endpoint cfg" "eo_creds (exporter_opts_of cfg cr) = cr"
  "eo_headers (exporter_opts_of cfg cr) = (if tc_headers cfg = [] then None else Some (tc_headers cfg))"
  by (simp_all add: exporter_opts_of_def)

lemma ensure_required_ok:
  "ensure_required cfg = None \<Longrightarrow>
   tc_service_name cfg \<noteq> [] \<and> tc_endpoint cfg \<noteq> [] \<and> \<not> float_outside_unit (tc_sampling_ratio cfg) \<and>
   tc_headers_err cfg = None \<and> validate_headers (tc_headers cfg) = None"
  by (auto simp: ensure_required_def split: if_splits option.splits)

lemma init_body_started:
  assumes "init_body ol cfg0 s = (RealShutdown, t)"
  shows "\<exists>tp mp c1 c2 res. tr_providers t = Some (tp, mp) \<and>
    ensure_required (with_defaults cfg0) = None \<and> tc_enabled cfg0 \<and>
    transport_credentials ol 0 (with_defaults cfg0) = Inr c1 \<and>
    transport_credentials ol 1 (with_defaults cfg0) = Inr c2 \<and>
    tp_exporter tp = exporter_opts_of (with_defaults cfg0) c1 \<and>
    mp_exporter mp = exporter_opts_of (with_defaults cfg0) c2 \<and>
    tp_ratio tp = tc_sampling_ratio (with_defaults cfg0) \<and> tr_resource_info t = Some res \<and>
    tp_resource tp = res \<and> mp_resource mp = res"
  using assms
  by (auto simp: init_body_def Let_def build_tracer_provider_def build_meter_provider_def with_defaults_fields
      split: if_splits option.splits sum.splits)


text \<open>The state between process start and the first \<open>Init\<close>.\<close>

definition not_started :: "trace_pkg \<Rightarrow> bool" where
  "not_started s \<longleftrightarrow> tr_once s = OnceNew \<and> tr_init_err s = None \<and> \<not> tr_enabled s"

lemma init_first:
  assumes "not_started s" "Init ol cfg s = ((sd, e), t)"
  shows "init_body ol cfg s = (sd, t\<lparr>tr_once := OnceNew\<rparr>) \<and> e = tr_init_err t \<and> tr_once t = OnceDone"
proof -
  obtain sd' t' where b: "init_body ol cfg s = (sd', t')" by (cases "init_body ol cfg s")
  have "tr_once t' = OnceNew"
    using b assms(1) by (auto simp: not_started_def init_body_def Let_def split: if_splits option.splits sum.splits)
  then have "t'\<lparr>tr_once := OnceNew\<rparr> = t'" by simp
  moreover have "sd' \<noteq> NilShutdown" using b by auto
  ultimately show ?thesis
    using assms b by (auto simp: Init_def not_started_def Let_def split: if_splits)
qed

lemma headers_accepted:
  "ensure_required cfg = None \<Longrightarrow> (k, v) \<in> set (tc_headers cfg) \<Longrightarrow>
   header_key k \<and> v \<noteq> [] \<and> \<not> list_ex is_control v"
  by (auto dest!: ensure_required_ok simp: validate_headers_None)

subsection \<open>Properties\<close>

text \<open>
  C18. Telemetry only flows out under the configured security. When \<open>Init\<close> hands back the real shutdown
  function it reports no error and the package is enabled, both exporters speak to the configured
  endpoint with exactly the configured headers (which came from a well-formed variable and are valid
  metadata: the ingestion key is never dropped; with none the exporter gets no such option), plaintext is
  used if and only if \<open>Insecure\<close> was set, and the sampling ratio is neither below 0 nor above 1 nor zero (a
  NaN passes these comparisons).
\<close>

theorem exporters_start_authenticated:
  assumes "not_started s" and "Init ol cfg s = ((RealShutdown, e), t)"
  shows "e = None \<and> tr_enabled t \<and> tc_enabled cfg \<and>
    (\<exists>tp mp. tr_providers t = Some (tp, mp) \<and>
       (\<forall>x \<in> {tp_exporter tp, mp_exporter mp}.
          eo_endpoint x = tc_endpoint cfg \<and> eo_endpoint x \<noteq> [] \<and>
          eo_headers x = (if tc_headers cfg = [] then None else Some (tc_headers cfg)) \<and>
          (eo_creds x = Plaintext \<longleftrightarrow> tc_insecure cfg)) \<and>
       \<not> float_outside_unit (tp_ratio tp) \<and> tp_ratio tp \<noteq> Fin 0) \<and>
    tc_headers_err cfg = None \<and>
    (\<forall>(k, v) \<in> set (tc_headers cfg). header_key k \<and> v \<noteq> [] \<and> \<not> list_ex is_control v)"
proof -
  from init_first [OF assms] have b: "init_body ol cfg s = (RealShutdown, t\<lparr>tr_once := OnceNew\<rparr>)"
    and e: "e = tr_init_err t" by simp_all
  from init_body_cases [OF b] assms(1) have on: "tr_enabled t" "tr_init_err t = None"
    by (auto simp: not_started_def)
  from init_body_started [OF b] obtain tp mp c1 c2 where
      p: "tr_providers t = Some (tp, mp)" and req: "ensure_required (with_defaults cfg) = None"
      and en: "tc_enabled cfg"
      and c1: "transport_credentials ol 0 (with_defaults cfg) = Inr c1"
      and c2: "transport_credentials ol 1 (with_defaults cfg) = Inr c2"
      and tp: "tp_exporter tp = exporter_opts_of (with_defaults cfg) c1"
        "tp_ratio tp = tc_sampling_ratio (with_defaults cfg)"
      and mp: "mp_exporter mp = exporter_opts_of (with_defaults cfg) c2"
    by auto
  note plain = transport_credentials_plaintext [of ol _ "with_defaults cfg"]
  have "c1 = Plaintext \<longleftrightarrow> tc_insecure cfg" "c2 = Plaintext \<longleftrightarrow> tc_insecure cfg"
    using plain [of 0] plain [of 1] c1 c2 by (simp_all add: with_defaults_fields)
  with p tp mp en on e ensure_required_ok [OF req] headers_accepted [OF req] show ?thesis
    by (auto simp: with_defaults_fields)
qed

theorem exporters_start_authenticated_witness:
  "\<exists>ol cfg t. Init ol cfg trace_pkg_initial = ((RealShutdown, None), t) \<and> tr_enabled t \<and>
     tc_headers cfg = [(''authorization'', ''Bearer k'')] \<and> \<not> tc_insecure cfg"
proof -
  let ?ol = "\<lparr>ol_read_file = \<lambda>_ _. Inr ''PEM'', ol_append_certs = \<lambda>_. True, ol_new_resource = Inr,
     ol_trace_exporter = \<lambda>_. None, ol_metric_exporter = \<lambda>_. None\<rparr>"
  let ?cfg = "\<lparr>tc_enabled = True, tc_service_name = ''svc'', tc_service_version = [], tc_environment = [],
     tc_endpoint = ''otel:4317'', tc_insecure = False, tc_ca_cert_file = ''/ca.pem'',
     tc_headers = [(''authorization'', ''Bearer k'')], tc_headers_err = None, tc_sampling_ratio = Fin 0,
     tc_dial_timeout = 0, tc_batch_timeout = 0, tc_batch_max_export_size = 0,
     tc_metric_export_interval = 0, tc_resource_attributes = []\<rparr>"
  obtain sd e t where i: "Init ?ol ?cfg trace_pkg_initial = ((sd, e), t)" by (metis surj_pair)
  have "fst (Init ?ol ?cfg trace_pkg_initial) = (RealShutdown, None)"
    by code_simp
  with i have r: "Init ?ol ?cfg trace_pkg_initial = ((RealShutdown, None), t)" by simp
  moreover have "not_started trace_pkg_initial"
    by (simp add: not_started_def trace_pkg_initial_def)
  ultimately show ?thesis
    using exporters_start_authenticated [of trace_pkg_initial ?ol ?cfg None t] by fastforce
qed

text \<open>
  \<open>Init\<close> acts once. Whatever a later call passes, it changes nothing and returns the first call's
  error, but not the first call's \<open>Shutdown\<close>: after a start without error it hands back the function
  that does nothing, after a failed start the nil function, whose call panics.
\<close>

theorem later_init_returns_other_shutdown:
  assumes "not_started s" and "Init ol cfg s = ((sd, e), t)"
  shows "Init ol' cfg' t = ((if e = None then NoopShutdown else NilShutdown, e), t) \<and>
    sd \<noteq> NilShutdown \<and> (e \<noteq> None \<longrightarrow> sd = NoopShutdown \<and> \<not> tr_enabled t) \<and>
    call_shutdown (fst (fst (Init ol' cfg' t))) r u =
      (if e = None then Returned (None, u) else Panicked NilDereference)"
proof -
  from init_first [OF assms] have b: "init_body ol cfg s = (sd, t\<lparr>tr_once := OnceNew\<rparr>)"
    and e: "e = tr_init_err t" and o': "tr_once t = OnceDone" by simp_all
  have again: "Init ol' cfg' t = ((if e = None then NoopShutdown else NilShutdown, e), t)"
    using e o' by (simp add: init_done)
  moreover have "sd \<noteq> NilShutdown" using b by auto
  moreover have "e \<noteq> None \<longrightarrow> sd = NoopShutdown \<and> \<not> tr_enabled t"
    using init_body_cases [OF b] e assms(1) by (auto simp: not_started_def)
  ultimately show ?thesis by simp
qed

text \<open>A configuration without a service name, which \<open>Init\<close> refuses.\<close>

definition nameless_config :: trace_config where
  "nameless_config =
     \<lparr>tc_enabled = True, tc_service_name = [], tc_service_version = [], tc_environment = [],
      tc_endpoint = ''otel:4317'', tc_insecure = False, tc_ca_cert_file = [], tc_headers = [],
      tc_headers_err = None, tc_sampling_ratio = Fin 1, tc_dial_timeout = 0, tc_batch_timeout = 0,
      tc_batch_max_export_size = 0, tc_metric_export_interval = 0, tc_resource_attributes = []\<rparr>"

theorem later_init_returns_other_shutdown_witness:
  "\<exists>(ol :: otel_lib) e t. Init ol nameless_config trace_pkg_initial = ((NoopShutdown, Some e), t) \<and>
     Init ol nameless_config t = ((NilShutdown, Some e), t)"
proof -
  fix ol :: otel_lib
  let ?r = "Init ol nameless_config trace_pkg_initial"
  have n: "not_started trace_pkg_initial"
    by (simp add: not_started_def trace_pkg_initial_def)
  have "\<exists>e t. ?r = ((NoopShutdown, Some e), t)"
    by (simp add: Init_def init_body_def nameless_config_def with_defaults_def ensure_required_def
        trace_pkg_initial_def Let_def float_is_zero_def)
  then obtain e t where r: "?r = ((NoopShutdown, Some e), t)" by blast
  then have "Init ol nameless_config t = ((NilShutdown, Some e), t)"
    using later_init_returns_other_shutdown [OF n r, of ol nameless_config] by simp
  with r show ?thesis by blast
qed

end
