(* ===== verification/Sampling.thy ===== *)
theory Sampling
  imports Interfaces AppGlobals
begin

section \<open>phlogger: the sampler and the window rate limiter\<close>

text \<open>
  \<^verbatim>\<open>phlogger/sampler.go\<close>, \<^verbatim>\<open>phlogger/ratelimit.go\<close> and \<^verbatim>\<open>phlogger/keyed_limiter.go\<close>. Each limiter keeps
  one entry per key in a concurrent map; a call is one atomic step on the limiter's state, with the
  clock reading passed in. The two limiters satisfy the interface \<open>log_gate\<close>.
\<close>

subsection \<open>The sampler\<close>

record sampler_config =
  sc_initial :: int
  sc_thereafter :: int
  sc_period :: int

definition disabled_config :: sampler_config where
  "disabled_config = \<lparr>sc_initial = 0, sc_thereafter = 0, sc_period = 0\<rparr>"

definition sampler_config_for_env :: "string \<Rightarrow> sampler_config" where
  "sampler_config_for_env e =
     (if e = ''production'' \<or> e = ''prod''
        then \<lparr>sc_initial = 5, sc_thereafter = 50, sc_period = Second\<rparr>
      else if e = ''staging'' \<or> e = ''stg''
        then \<lparr>sc_initial = 10, sc_thereafter = 10, sc_period = Second\<rparr>
      else if e = ''develop'' \<or> e = ''developement'' \<or> e = ''dev''
        then \<lparr>sc_initial = 20, sc_thereafter = 20, sc_period = Second\<rparr>
      else disabled_config)"

definition sampler_config_from_app_env :: "globals \<Rightarrow> sampler_config" where
  "sampler_config_from_app_env g = sampler_config_for_env (get_app_env g)"

record sampler_entry =
  se_count :: int
  se_reset_nano :: int

record sampler =
  s_config :: sampler_config
  s_entries :: "string \<rightharpoonup> sampler_entry"

definition empty_sampler_entry :: sampler_entry where
  "empty_sampler_entry = \<lparr>se_count = 0, se_reset_nano = 0\<rparr>"

definition initialize_sampler :: "sampler_config \<Rightarrow> sampler" where
  "initialize_sampler cfg =
     (let cfg' = (if sc_period cfg \<le> 0 \<and> 0 < sc_initial cfg then cfg\<lparr>sc_period := Second\<rparr> else cfg)
      in \<lparr>s_config = cfg', s_entries = Map.empty\<rparr>)"

definition sampler_entry_of :: "sampler \<Rightarrow> string \<Rightarrow> sampler_entry" where
  "sampler_entry_of s key =
     (case s_entries s key of None \<Rightarrow> empty_sampler_entry | Some e \<Rightarrow> e)"

definition sampler_check :: "string \<Rightarrow> int \<Rightarrow> sampler \<Rightarrow> (bool \<times> int) \<times> sampler" where
  "sampler_check key now s =
     (let cfg = s_config s in
      if sc_initial cfg \<le> 0 then ((True, 0), s)
      else
        let entry = sampler_entry_of s key in
        if sc_period cfg \<le> wrap64 (now - se_reset_nano entry)
        then ((True, 0),
              s\<lparr>s_entries := (s_entries s)(key \<mapsto> \<lparr>se_count = 1, se_reset_nano = now\<rparr>)\<rparr>)
        else
          let n = se_count entry + 1;
              s' = s\<lparr>s_entries := (s_entries s)(key \<mapsto> entry\<lparr>se_count := n\<rparr>)\<rparr> in
          if n \<le> sc_initial cfg then ((True, 0), s')
          else if sc_thereafter cfg \<le> 0 then ((False, 0), s')
          else
            let over = n - sc_initial cfg in
            if go_mod over (sc_thereafter cfg) = 0
            then ((True, sc_thereafter cfg - 1), s')
            else ((False, 0), s'))"

lemma sampler_check_config: "s_config (snd (sampler_check key now s)) = s_config s"
  by (simp add: sampler_check_def Let_def)

lemma sampler_disabled: "sc_initial (s_config s) \<le> 0 \<Longrightarrow> sampler_check key now s = ((True, 0), s)"
  by (simp add: sampler_check_def)

interpretation sampler_gate: log_gate sampler_check "\<lambda>s. s_entries s" "\<lambda>s. True"
  by unfold_locales (auto simp: sampler_check_def Let_def split: if_splits)

subsection \<open>The budget of one period\<close>

text \<open>
  \<open>sampler_run\<close> performs successive calls for one key. Once a period has started, \<open>n\<close> calls
  inside it let through the first \<open>Initial\<close> and then every \<open>Thereafter\<close>-th: the number allowed is
  \<open>sampler_budget\<close>.
\<close>

fun sampler_run :: "string \<Rightarrow> int list \<Rightarrow> sampler \<Rightarrow> (bool \<times> int) list \<times> sampler" where
  "sampler_run key [] s = ([], s)"
| "sampler_run key (now # ts) s =
     (let (r, s1) = sampler_check key now s; (rs, s2) = sampler_run key ts s1 in (r # rs, s2))"

definition sampler_budget :: "sampler_config \<Rightarrow> nat \<Rightarrow> int" where
  "sampler_budget cfg n =
     (if int n \<le> sc_initial cfg then int n
      else if sc_thereafter cfg \<le> 0 then sc_initial cfg
      else sc_initial cfg + (int n - sc_initial cfg) div sc_thereafter cfg)"

definition allowed_count :: "(bool \<times> int) list \<Rightarrow> nat" where
  "allowed_count rs = length (filter fst rs)"

definition reported_total :: "(bool \<times> int) list \<Rightarrow> int" where
  "reported_total rs = sum_list (map snd rs)"

lemma allowed_count_simps [simp]:
  "allowed_count [] = 0"
  "allowed_count ((a, n) # rs) = (if a then Suc (allowed_count rs) else allowed_count rs)"
  by (simp_all add: allowed_count_def)

lemma reported_total_simps [simp]:
  "reported_total [] = 0" "reported_total ((a, n) # rs) = n + reported_total rs"
  by (simp_all add: reported_total_def)

text \<open>A state in the middle of a period that started at \<open>t0\<close> and has counted \<open>n\<close> calls.\<close>

definition in_period :: "sampler \<Rightarrow> string \<Rightarrow> int \<Rightarrow> nat \<Rightarrow> bool" where
  "in_period s key t0 n \<longleftrightarrow>
     s_entries s key = Some \<lparr>se_count = int n, se_reset_nano = t0\<rparr>"

definition within_period :: "sampler_config \<Rightarrow> int \<Rightarrow> int \<Rightarrow> bool" where
  "within_period cfg t0 t \<longleftrightarrow> wrap64 (t - t0) < sc_period cfg"

lemma div_succ:
  fixes x t :: int
  assumes "0 < t"
  shows "(x + 1) div t = x div t + (if (x + 1) mod t = 0 then 1 else 0)"
proof -
  have eq: "x = t * (x div t) + x mod t" by simp
  have r: "0 \<le> x mod t" "x mod t < t" using assms by simp_all
  show ?thesis
  proof (cases "x mod t + 1 = t")
    case True
    have "x + 1 = t * (x div t) + (x mod t + 1)" using eq by simp
    also have "\<dots> = t * (x div t + 1)" unfolding True by (simp add: algebra_simps)
    finally have "x + 1 = t * (x div t + 1)" .
    with assms show ?thesis by simp
  next
    case False
    with r have lt: "x mod t + 1 < t" by simp
    have "x + 1 = t * (x div t) + (x mod t + 1)" using eq by simp
    with lt r assms have "(x + 1) div t = x div t" and "(x + 1) mod t = x mod t + 1"
      by (metis add_increasing2 int_div_pos_eq le_numeral_extra(1),
          metis add_increasing2 int_mod_pos_eq le_numeral_extra(1))
    with r show ?thesis by simp
  qed
qed

text \<open>What the allowed calls report as suppressed, and what is still to be reported.\<close>

definition sampler_reports :: "sampler_config \<Rightarrow> nat \<Rightarrow> int" where
  "sampler_reports cfg n =
     (if int n \<le> sc_initial cfg then 0
      else (sc_thereafter cfg - 1) * ((int n - sc_initial cfg) div sc_thereafter cfg))"

definition sampler_pending :: "sampler_config \<Rightarrow> nat \<Rightarrow> int" where
  "sampler_pending cfg n =
     (if int n \<le> sc_initial cfg then 0 else (int n - sc_initial cfg) mod sc_thereafter cfg)"

text \<open>One call inside the period: the verdict and the report are the growth of both counts.\<close>

lemma sampler_check_in_period:
  assumes "in_period s key t0 n" and "within_period (s_config s) t0 t"
    and "0 < sc_initial (s_config s)" and "0 < sc_thereafter (s_config s)"
  obtains a m s' where "sampler_check key t s = ((a, m), s')" and "in_period s' key t0 (Suc n)"
    and "s_config s' = s_config s"
    and "sampler_budget (s_config s) (Suc n) = sampler_budget (s_config s) n + (if a then 1 else 0)"
    and "sampler_reports (s_config s) (Suc n) = sampler_reports (s_config s) n + m"
proof -
  let ?c = "s_config s" and ?s' = "s\<lparr>s_entries := (s_entries s)(key \<mapsto>
      \<lparr>se_count = int n + 1, se_reset_nano = t0\<rparr>)\<rparr>"
  define over where "over = int n + 1 - sc_initial ?c"
  have chk: "sampler_check key t s =
      (if int n + 1 \<le> sc_initial ?c then ((True, 0), ?s')
       else if over mod sc_thereafter ?c = 0 then ((True, sc_thereafter ?c - 1), ?s')
       else ((False, 0), ?s'))"
    using assms by (auto simp: sampler_check_def Let_def sampler_entry_of_def in_period_def
        within_period_def over_def go_mod_nonneg)
  have per: "in_period ?s' key t0 (Suc n)" by (simp add: in_period_def algebra_simps)
  show thesis
  proof (cases "int n + 1 \<le> sc_initial ?c")
    case True
    show thesis
      by (rule that [of True 0 ?s'])
        (use True chk per in \<open>simp_all add: sampler_budget_def sampler_reports_def\<close>)
  next
    case False
    have d: "over div sc_thereafter ?c = (int n - sc_initial ?c) div sc_thereafter ?c
        + (if over mod sc_thereafter ?c = 0 then 1 else 0)"
      using div_succ [OF assms(4), of "int n - sc_initial ?c"]
      by (simp add: over_def algebra_simps)
    have z: "(int n - sc_initial ?c) div sc_thereafter ?c = 0" if "int n = sc_initial ?c"
      using that by simp
    show thesis
      by (rule that [of "over mod sc_thereafter ?c = 0"
            "if over mod sc_thereafter ?c = 0 then sc_thereafter ?c - 1 else 0" ?s'])
        (use False chk per d z assms(4) in
          \<open>auto simp: sampler_budget_def sampler_reports_def over_def algebra_simps\<close>)
  qed
qed

lemma sampler_run_in_period:
  assumes "in_period s key t0 n" and "\<forall>t \<in> set ts. within_period (s_config s) t0 t"
    and "0 < sc_initial (s_config s)" and "0 < sc_thereafter (s_config s)"
    and "sampler_run key ts s = (rs, s')"
  shows "int (allowed_count rs) =
      sampler_budget (s_config s) (n + length ts) - sampler_budget (s_config s) n"
    and "reported_total rs =
      sampler_reports (s_config s) (n + length ts) - sampler_reports (s_config s) n"
  using assms
proof (induction ts arbitrary: s n rs s')
  case Nil
  { case 1 then show ?case by simp next case 2 then show ?case by simp }
next
  case (Cons t ts)
  { case 1
    obtain a m s1 where c: "sampler_check key t s = ((a, m), s1)" "in_period s1 key t0 (Suc n)"
        "s_config s1 = s_config s"
        "sampler_budget (s_config s) (Suc n) = sampler_budget (s_config s) n + (if a then 1 else 0)"
      using sampler_check_in_period [of s key t0 n t] 1 by (auto elim: sampler_check_in_period)
    obtain rs1 s2 where r: "sampler_run key ts s1 = (rs1, s2)" by (cases "sampler_run key ts s1")
    with Cons.IH(1) [of s1 "Suc n" rs1 s2] c 1 show ?case by (auto simp: Let_def)
  next case 2
    obtain a m s1 where c: "sampler_check key t s = ((a, m), s1)" "in_period s1 key t0 (Suc n)"
        "s_config s1 = s_config s"
        "sampler_reports (s_config s) (Suc n) = sampler_reports (s_config s) n + m"
      using 2 by (auto elim: sampler_check_in_period [of s key t0 n t])
    obtain rs1 s2 where r: "sampler_run key ts s1 = (rs1, s2)" by (cases "sampler_run key ts s1")
    with Cons.IH(2) [of s1 "Suc n" rs1 s2] c 2 show ?case by (auto simp: Let_def)
  }
qed

text \<open>Every call is either allowed, reported as suppressed by a later one, or still pending.\<close>

lemma sampler_accounting:
  assumes "0 < sc_initial cfg" and "0 < sc_thereafter cfg"
  shows "int n = sampler_budget cfg n + sampler_reports cfg n + sampler_pending cfg n"
proof (cases "int n \<le> sc_initial cfg")
  case True
  then show ?thesis by (simp add: sampler_budget_def sampler_reports_def sampler_pending_def)
next
  case False
  have "int n - sc_initial cfg = sc_thereafter cfg * ((int n - sc_initial cfg) div sc_thereafter cfg)
      + (int n - sc_initial cfg) mod sc_thereafter cfg"
    by simp
  with False assms show ?thesis
    by (simp add: sampler_budget_def sampler_reports_def sampler_pending_def algebra_simps)
qed

lemma sampler_run_fresh:
  assumes fresh: "sc_period (s_config s) \<le> wrap64 (t0 - se_reset_nano (sampler_entry_of s key))"
    and inside: "\<forall>t \<in> set ts. within_period (s_config s) t0 t"
    and init: "0 < sc_initial (s_config s)" and there: "0 < sc_thereafter (s_config s)"
    and run: "sampler_run key (t0 # ts) s = (rs, s')"
  shows "int (allowed_count rs) = sampler_budget (s_config s) (Suc (length ts))"
    and "reported_total rs = sampler_reports (s_config s) (Suc (length ts))"
proof -
  define s1 where "s1 = s\<lparr>s_entries := (s_entries s)(key \<mapsto> \<lparr>se_count = 1, se_reset_nano = t0\<rparr>)\<rparr>"
  have c: "sampler_check key t0 s = ((True, 0), s1)"
    using fresh init by (simp add: sampler_check_def Let_def s1_def)
  have p: "in_period s1 key t0 1" and cfg: "s_config s1 = s_config s"
    by (simp_all add: s1_def in_period_def)
  obtain rs1 s2 where r: "sampler_run key ts s1 = (rs1, s2)" by (cases "sampler_run key ts s1")
  have rs: "rs = (True, 0) # rs1" using run c r by simp
  have one: "sampler_budget (s_config s) 1 = 1" "sampler_reports (s_config s) 1 = 0"
    using init by (simp_all add: sampler_budget_def sampler_reports_def)
  note run1 = sampler_run_in_period [OF p _ _ _ r, unfolded cfg, OF inside init there]
  from run1 one show "int (allowed_count rs) = sampler_budget (s_config s) (Suc (length ts))"
    and "reported_total rs = sampler_reports (s_config s) (Suc (length ts))" by (simp_all add: rs)
qed

text \<open>
  C19. In one sampling period of a key (a first call at \<open>t0\<close> that starts it, then the calls at the
  instants \<open>ts\<close>, all less than a period after \<open>t0\<close>), with sampling enabled and \<open>Thereafter > 0\<close>: the
  number of lines let through is \<open>Initial\<close> plus one per full block of \<open>Thereafter\<close> further calls, and
  every refused call is accounted for: it is either in the suppressed counts reported by the
  lines let through, or among the fewer than \<open>Thereafter\<close> calls since the last such line.
\<close>

theorem sampler_period_budget:
  assumes fresh: "sc_period (s_config s) \<le> wrap64 (t0 - se_reset_nano (sampler_entry_of s key))"
    and inside: "\<forall>t \<in> set ts. within_period (s_config s) t0 t"
    and init: "0 < sc_initial (s_config s)" and there: "0 < sc_thereafter (s_config s)"
    and run: "sampler_run key (t0 # ts) s = (rs, s')"
  shows "int (allowed_count rs) = sampler_budget (s_config s) (Suc (length ts)) \<and>
    int (Suc (length ts)) - int (allowed_count rs)
      = reported_total rs + sampler_pending (s_config s) (Suc (length ts)) \<and>
    sampler_pending (s_config s) (Suc (length ts)) < sc_thereafter (s_config s)"
  using sampler_run_fresh [OF assms] sampler_accounting [OF init there, of "Suc (length ts)"] there
  by (simp add: sampler_pending_def)

definition demo_sampler :: sampler where
  "demo_sampler = initialize_sampler \<lparr>sc_initial = 2, sc_thereafter = 3, sc_period = 0\<rparr>"

theorem sampler_period_budget_witness:
  "sampler_run ''k'' [5000000000, 5000000001, 5000000002, 5000000003, 5000000004, 5999999999]
      demo_sampler =
     ([(True, 0), (True, 0), (False, 0), (False, 0), (True, 2), (False, 0)],
      snd (sampler_run ''k'' [5000000000, 5000000001, 5000000002, 5000000003, 5000000004, 5999999999]
        demo_sampler)) \<and>
   int (allowed_count [(True, 0), (True, 0), (False, 0), (False, 0), (True, 2), (False, 0)]) =
     sampler_budget (s_config demo_sampler) 6"
proof -
  let ?ts = "[5000000001, 5000000002, 5000000003, 5000000004, 5999999999] :: int list"
  have e: "sampler_run ''k'' (5000000000 # ?ts) demo_sampler =
     ([(True, 0), (True, 0), (False, 0), (False, 0), (True, 2), (False, 0)],
      snd (sampler_run ''k'' (5000000000 # ?ts) demo_sampler))"
    by (simp add: demo_sampler_def initialize_sampler_def sampler_check_def sampler_entry_of_def
        empty_sampler_entry_def wrap64_def go_mod_def go_div_def Let_def)
  have f: "sc_period (s_config demo_sampler) \<le>
      wrap64 (5000000000 - se_reset_nano (sampler_entry_of demo_sampler ''k''))"
    by (simp add: demo_sampler_def initialize_sampler_def sampler_entry_of_def
        empty_sampler_entry_def wrap64_def)
  have i: "\<forall>t \<in> set ?ts. within_period (s_config demo_sampler) 5000000000 t"
    "0 < sc_initial (s_config demo_sampler)" "0 < sc_thereafter (s_config demo_sampler)"
    by (simp_all add: demo_sampler_def initialize_sampler_def within_period_def wrap64_def)
  from sampler_period_budget [OF f i e]
  have "int (allowed_count [(True, 0), (True, 0), (False, 0), (False, 0), (True, 2), (False, 0)]) =
     sampler_budget (s_config demo_sampler) 6"
    by (simp add: eval_nat_numeral)
  with e show ?thesis by blast
qed

lemma production_budget:
  "int n = sampler_budget \<lparr>sc_initial = 5, sc_thereafter = 50, sc_period = Second\<rparr> m \<Longrightarrow>
   n = (if m \<le> 5 then m else 5 + (m - 5) div 50)"
  by (auto simp: sampler_budget_def split: if_splits)

subsection \<open>The window limiter\<close>

text \<open>\<open>lastEmit\<close> is \<open>None\<close> while it is the zero time.\<close>

record rate_limit_entry =
  re_last_emit :: "int option"
  re_suppressed :: int

type_synonym rate_limiter = "string \<rightharpoonup> rate_limit_entry"

definition new_rate_limiter :: rate_limiter where
  "new_rate_limiter = Map.empty"

definition rate_entry_of :: "rate_limiter \<Rightarrow> string \<Rightarrow> rate_limit_entry" where
  "rate_entry_of r key =
     (case r key of None \<Rightarrow> \<lparr>re_last_emit = None, re_suppressed = 0\<rparr> | Some e \<Rightarrow> e)"

definition rate_check ::
    "int \<Rightarrow> string \<Rightarrow> int \<Rightarrow> rate_limiter \<Rightarrow> (bool \<times> int) \<times> rate_limiter" where
  "rate_check window key now r =
     (if window \<le> 0 then ((True, 0), r)
      else
        let entry = rate_entry_of r key in
        case re_last_emit entry of
          Some le \<Rightarrow>
            (if now - le < window
             then ((False, 0), r(key \<mapsto> entry\<lparr>re_suppressed := re_suppressed entry + 1\<rparr>))
             else ((True, re_suppressed entry),
                   r(key \<mapsto> \<lparr>re_last_emit = Some now, re_suppressed = 0\<rparr>)))
        | None \<Rightarrow>
            ((True, re_suppressed entry), r(key \<mapsto> \<lparr>re_last_emit = Some now, re_suppressed = 0\<rparr>)))"

text \<open>Suppressed counts never go below zero; the interface is taken on the states where they are not.\<close>

definition rate_ok :: "rate_limiter \<Rightarrow> bool" where
  "rate_ok r \<longleftrightarrow> (\<forall>k e. r k = Some e \<longrightarrow> 0 \<le> re_suppressed e)"

lemma rate_check_cases:
  obtains (off) "window \<le> 0" "rate_check window key now r = ((True, 0), r)"
  | (refused) le where "0 < window" "re_last_emit (rate_entry_of r key) = Some le"
      "now - le < window"
      "rate_check window key now r = ((False, 0),
         r(key \<mapsto> (rate_entry_of r key)\<lparr>re_suppressed := re_suppressed (rate_entry_of r key) + 1\<rparr>))"
  | (passed) "0 < window"
      "\<forall>le. re_last_emit (rate_entry_of r key) = Some le \<longrightarrow> window \<le> now - le"
      "rate_check window key now r = ((True, re_suppressed (rate_entry_of r key)),
         r(key \<mapsto> \<lparr>re_last_emit = Some now, re_suppressed = 0\<rparr>))"
proof (cases "window \<le> 0")
  case True
  then show thesis by (intro off) (simp_all add: rate_check_def)
next
  case False
  show thesis
  proof (cases "re_last_emit (rate_entry_of r key)")
    case None
    with False show thesis by (intro passed) (simp_all add: rate_check_def Let_def)
  next
    case (Some le)
    show thesis
    proof (cases "now - le < window")
      case True
      with False Some show thesis by (intro refused) (simp_all add: rate_check_def Let_def)
    next
      case late: False
      with False Some show thesis by (intro passed) (simp_all add: rate_check_def Let_def)
    qed
  qed
qed

lemma rate_entry_ok: "rate_ok r \<Longrightarrow> 0 \<le> re_suppressed (rate_entry_of r key)"
  by (auto simp: rate_ok_def rate_entry_of_def split: option.splits)

lemma rate_check_ok: "rate_ok r \<Longrightarrow> rate_ok (snd (rate_check window key now r))"
  by (cases rule: rate_check_cases [of window key now r])
    (use rate_entry_ok [of r key] in \<open>auto simp: rate_ok_def\<close>)

interpretation rate_gate: log_gate "rate_check window" "\<lambda>r. r" rate_ok for window
proof unfold_locales
  fix k now g n g' a r k'
  show "rate_check window k now g = ((False, n), g') \<Longrightarrow> n = 0"
    by (cases rule: rate_check_cases [of window k now g]) auto
  show "rate_ok g \<Longrightarrow> rate_check window k now g = ((a, n), g') \<Longrightarrow> 0 \<le> n"
    by (cases rule: rate_check_cases [of window k now g]) (auto dest: rate_entry_ok [of g k])
  show "rate_ok g \<Longrightarrow> rate_check window k now g = (r, g') \<Longrightarrow> rate_ok g'"
    using rate_check_ok [of g window k now] by simp
  show "rate_check window k now g = (r, g') \<Longrightarrow> k' \<noteq> k \<Longrightarrow> g' k' = g k'"
    by (cases rule: rate_check_cases [of window k now g]) auto
qed

fun rate_run :: "int \<Rightarrow> string \<Rightarrow> int list \<Rightarrow> rate_limiter \<Rightarrow> (bool \<times> int) list \<times> rate_limiter" where
  "rate_run window key [] r = ([], r)"
| "rate_run window key (now # ts) r =
     (let (v, r1) = rate_check window key now r; (vs, r2) = rate_run window key ts r1
      in (v # vs, r2))"

definition refused_count :: "(bool \<times> int) list \<Rightarrow> nat" where
  "refused_count vs = length (filter (\<lambda>v. \<not> fst v) vs)"

text \<open>The instants at which a line passed.\<close>

definition passed_times :: "int list \<Rightarrow> (bool \<times> int) list \<Rightarrow> int list" where
  "passed_times ts vs = map fst (filter (\<lambda>p. fst (snd p)) (zip ts vs))"

lemma rate_entry_Some [simp]: "r k = Some e \<Longrightarrow> rate_entry_of r k = e"
  by (simp add: rate_entry_of_def)

lemma rate_run_conservation:
  assumes "0 < window" and "rate_run window key ts r = (vs, r')"
  shows "re_suppressed (rate_entry_of r key) + int (refused_count vs)
    = reported_total vs + re_suppressed (rate_entry_of r' key)"
  using assms(2)
proof (induction ts arbitrary: r vs)
  case Nil
  then show ?case by (simp add: refused_count_def)
next
  case (Cons now ts)
  obtain v r1 where c: "rate_check window key now r = (v, r1)" by (cases "rate_check window key now r")
  obtain vs1 where cs: "rate_run window key ts r1 = (vs1, r')" and vs: "vs = v # vs1"
    using Cons.prems c by (auto simp: Let_def split: prod.splits)
  from Cons.IH [OF cs] c assms(1) show ?case
    unfolding vs
    by (cases rule: rate_check_cases [of window key now r]) (auto simp: refused_count_def)
qed

lemma rate_run_spacing:
  assumes "0 < window" and "rate_run window key ts r = (vs, r')"
  shows "successively (\<lambda>a b. window \<le> b - a) (passed_times ts vs) \<and>
    (\<forall>l. re_last_emit (rate_entry_of r key) = Some l \<longrightarrow>
      successively (\<lambda>a b. window \<le> b - a) (l # passed_times ts vs))"
  using assms(2)
proof (induction ts arbitrary: r vs)
  case Nil
  then show ?case by (simp add: passed_times_def)
next
  case (Cons now ts)
  obtain v r1 where c: "rate_check window key now r = (v, r1)" by (cases "rate_check window key now r")
  obtain vs1 where cs: "rate_run window key ts r1 = (vs1, r')" and vs: "vs = v # vs1"
    using Cons.prems c by (auto simp: Let_def split: prod.splits)
  have p: "passed_times (now # ts) vs =
      (if fst v then now # passed_times ts vs1 else passed_times ts vs1)"
    by (simp add: passed_times_def vs)
  from Cons.IH [OF cs] c assms(1) show ?case
    unfolding p by (cases rule: rate_check_cases [of window key now r]) auto
qed

text \<open>
  C22. For every sequence of calls of the window limiter at one key (\<open>window > 0\<close>, the key not seen
  before): two lines that pass are at least a window apart, and no suppressed line is lost or
  counted twice: the refused calls are exactly those reported by the lines that passed plus the
  ones the key's counter still holds.
\<close>

theorem rate_limiter_conservation:
  assumes "0 < window" and "r key = None" and "rate_run window key ts r = (vs, r')"
  shows "successively (\<lambda>a b. window \<le> b - a) (passed_times ts vs) \<and>
    int (refused_count vs) = reported_total vs + re_suppressed (rate_entry_of r' key)"
  using rate_run_spacing [OF assms(1,3)] rate_run_conservation [OF assms(1,3)] assms(2)
  by (simp add: rate_entry_of_def)

theorem rate_limiter_conservation_witness:
  "fst (rate_run 10 ''k'' [100, 105, 109, 111, 112, 130] new_rate_limiter) =
     [(True, 0), (False, 0), (False, 0), (True, 2), (False, 0), (True, 1)] \<and>
   successively (\<lambda>a b. (10::int) \<le> b - a) [100, 111, 130]"
proof -
  let ?ts = "[100, 105, 109, 111, 112, 130] :: int list"
  let ?vs = "[(True, 0), (False, 0), (False, 0), (True, 2), (False, 0), (True, 1)] :: (bool \<times> int) list"
  have run: "rate_run 10 ''k'' ?ts new_rate_limiter =
      (?vs, snd (rate_run 10 ''k'' ?ts new_rate_limiter))"
    by (simp add: rate_check_def new_rate_limiter_def rate_entry_of_def Let_def)
  have "successively (\<lambda>a b. (10::int) \<le> b - a) (passed_times ?ts ?vs)"
    using rate_limiter_conservation [OF _ _ run] by (simp add: new_rate_limiter_def)
  then have "successively (\<lambda>a b. (10::int) \<le> b - a) [100, 111, 130]"
    by (simp add: passed_times_def)
  moreover have "fst (rate_run 10 ''k'' ?ts new_rate_limiter) = ?vs"
    by (subst run) (rule fst_conv)
  ultimately show ?thesis by blast
qed

subsection \<open>KeyedLimiter\<close>

text \<open>
  The token bucket is \<^verbatim>\<open>golang.org/x/time/rate\<close>: \<open>new_bucket\<close> and \<open>bucket_allow\<close> are parameters. The
  limiter keeps one bucket per key, created on first use with the limiter's rate and burst.
\<close>

record ('r, 'b) keyed_limiter =
  kl_limiters :: "string \<rightharpoonup> 'b"
  kl_r :: 'r
  kl_burst :: int

definition new_keyed_limiter :: "'r \<Rightarrow> int \<Rightarrow> ('r, 'b) keyed_limiter" where
  "new_keyed_limiter r burst = \<lparr>kl_limiters = Map.empty, kl_r = r, kl_burst = burst\<rparr>"

definition keyed_allow ::
    "('r \<Rightarrow> int \<Rightarrow> 'b) \<Rightarrow> (int \<Rightarrow> 'b \<Rightarrow> bool \<times> 'b) \<Rightarrow> string \<Rightarrow> int \<Rightarrow> ('r, 'b) keyed_limiter \<Rightarrow>
     bool \<times> ('r, 'b) keyed_limiter" where
  "keyed_allow new_bucket bucket_allow key now kl =
     (let b = (case kl_limiters kl key of Some b \<Rightarrow> b | None \<Rightarrow> new_bucket (kl_r kl) (kl_burst kl));
          (ok, b') = bucket_allow now b
      in (ok, kl\<lparr>kl_limiters := (kl_limiters kl)(key \<mapsto> b')\<rparr>))"

lemma keyed_allow_other:
  "k' \<noteq> key \<Longrightarrow> kl_limiters (snd (keyed_allow nb al key now kl)) k' = kl_limiters kl k'"
  by (simp add: keyed_allow_def Let_def split: prod.splits)

end
