(* ===== verification/Logger.thy ===== *)
theory Logger
  imports Sampling
begin

section \<open>phlogger: emission, hooks, contexts, forwarding\<close>

text \<open>
  \<^verbatim>\<open>phlogger/phlogger.go\<close>, \<^verbatim>\<open>forward.go\<close>, \<^verbatim>\<open>metrics.go\<close>, \<^verbatim>\<open>context.go\<close>, \<^verbatim>\<open>logforward_config.go\<close>, the
  Sentry hook registration of \<^verbatim>\<open>phsentry/log_hook.go\<close> and the forwarding configuration of
  \<^verbatim>\<open>logger.go\<close>. The package globals form the record \<open>logger\<close>; its last field is the trace of
  externally visible events in order: calls of golog, hook calls, metric calls and the process exit.
  golog itself decides by its own level whether a line is printed.
\<close>

subsection \<open>State\<close>

datatype hook = SentryForward | UserHook nat

datatype log_event =
    GologLine string string
  | HookCall hook string string
  | MetricCall nat string int
  | ProcessExit

record logger =
  lg_sampler :: sampler
  lg_limiter :: rate_limiter
  lg_hooks :: "string \<Rightarrow> hook list"
  lg_metrics_hook :: "nat option"
  lg_sentry_once :: bool
  lg_level :: string
  lg_time_format :: string
  lg_gin_level :: bool
  lg_events :: "log_event list"

definition add_events :: "log_event list \<Rightarrow> logger \<Rightarrow> logger" where
  "add_events es st = st\<lparr>lg_events := lg_events st @ es\<rparr>"

lemma add_events_simps [simp]:
  "lg_events (add_events es st) = lg_events st @ es"
  "lg_hooks (add_events es st) = lg_hooks st"
  "lg_sampler (add_events es st) = lg_sampler st"
  "lg_limiter (add_events es st) = lg_limiter st"
  by (simp_all add: add_events_def)

subsection \<open>Hooks\<close>

definition register_log_hook :: "string \<Rightarrow> hook \<Rightarrow> logger \<Rightarrow> logger" where
  "register_log_hook level h st =
     st\<lparr>lg_hooks := (lg_hooks st)(level := lg_hooks st level @ [h])\<rparr>"

definition clear_log_hooks :: "logger \<Rightarrow> logger" where
  "clear_log_hooks st = st\<lparr>lg_hooks := (\<lambda>_. [])\<rparr>"

definition fire_hooks :: "string \<Rightarrow> string \<Rightarrow> logger \<Rightarrow> logger" where
  "fire_hooks level message st =
     foldl (\<lambda>s h. add_events [HookCall h level message] s) st (lg_hooks st level)"

lemma fire_hooks_fold:
  "foldl (\<lambda>s h. add_events [HookCall h level message] s) st hs =
    add_events (map (\<lambda>h. HookCall h level message) hs) st"
  by (induction hs arbitrary: st) (simp_all add: add_events_def)

lemma fire_hooks_eq:
  "fire_hooks level message st =
    add_events (map (\<lambda>h. HookCall h level message) (lg_hooks st level)) st"
  by (simp add: fire_hooks_def fire_hooks_fold)

subsection \<open>Emission\<close>

definition emit_d :: "string \<Rightarrow> goarg list \<Rightarrow> logger \<Rightarrow> logger" where
  "emit_d format args st =
     fire_hooks ''debug'' (sprintf format args) (add_events [GologLine ''debug'' (sprintf format args)] st)"

definition emit_i :: "string \<Rightarrow> goarg list \<Rightarrow> logger \<Rightarrow> logger" where
  "emit_i format args st =
     fire_hooks ''info'' (sprintf format args) (add_events [GologLine ''info'' (sprintf format args)] st)"

definition emit_w :: "string \<Rightarrow> goarg list \<Rightarrow> logger \<Rightarrow> logger" where
  "emit_w format args st =
     fire_hooks ''warn'' (sprintf format args) (add_events [GologLine ''warn'' (sprintf format args)] st)"

definition emit_e :: "string \<Rightarrow> goarg list \<Rightarrow> logger \<Rightarrow> logger" where
  "emit_e format args st =
     fire_hooks ''error'' (sprintf format args) (add_events [GologLine ''error'' (sprintf format args)] st)"

text \<open>The default \<open>fatalHandler\<close> is \<open>Log.Fatalf\<close>, which writes the line and exits the process.\<close>

definition fatal_handler :: "string \<Rightarrow> goarg list \<Rightarrow> logger \<Rightarrow> logger" where
  "fatal_handler format args st =
     add_events [GologLine ''fatal'' (sprintf format args), ProcessExit] st"

definition emit_f :: "string \<Rightarrow> goarg list \<Rightarrow> logger \<Rightarrow> logger" where
  "emit_f format args st =
     fatal_handler format args (fire_hooks ''fatal'' (sprintf format args) st)"

text \<open>What one emission at a level adds to the trace: the line, then every hook of the level in order.\<close>

definition line_events :: "string \<Rightarrow> string \<Rightarrow> logger \<Rightarrow> log_event list" where
  "line_events level text st =
     GologLine level text # map (\<lambda>h. HookCall h level text) (lg_hooks st level)"

lemma emit_events [simp]:
  "emit_d f a st = add_events (line_events ''debug'' (sprintf f a) st) st"
  "emit_i f a st = add_events (line_events ''info'' (sprintf f a) st) st"
  "emit_w f a st = add_events (line_events ''warn'' (sprintf f a) st) st"
  "emit_e f a st = add_events (line_events ''error'' (sprintf f a) st) st"
  by (simp_all add: emit_d_def emit_i_def emit_w_def emit_e_def fire_hooks_eq line_events_def
      add_events_def)

subsection \<open>Sampled and windowed emission\<close>

definition with_suppressed :: "(string \<Rightarrow> goarg list \<Rightarrow> logger \<Rightarrow> logger) \<Rightarrow> string \<Rightarrow> goarg list \<Rightarrow>
    int \<Rightarrow> logger \<Rightarrow> logger" where
  "with_suppressed emit format args suppressed st =
     (if 0 < suppressed
      then emit (format @ '' [+%d suppressed]'') (args @ [AInt suppressed]) st
      else emit format args st)"

definition log_sampled :: "string \<Rightarrow> (string \<Rightarrow> goarg list \<Rightarrow> logger \<Rightarrow> logger) \<Rightarrow> string \<Rightarrow>
    goarg list \<Rightarrow> int \<Rightarrow> logger \<Rightarrow> logger" where
  "log_sampled key emit format args now st =
     (let ((allowed, suppressed), s') = sampler_check key now (lg_sampler st);
          st' = st\<lparr>lg_sampler := s'\<rparr>
      in if \<not> allowed then st' else with_suppressed emit format args suppressed st')"

definition log_windowed :: "string \<Rightarrow> int \<Rightarrow> (string \<Rightarrow> goarg list \<Rightarrow> logger \<Rightarrow> logger) \<Rightarrow> string \<Rightarrow>
    goarg list \<Rightarrow> int \<Rightarrow> logger \<Rightarrow> logger" where
  "log_windowed key window emit format args now st =
     (let ((allowed, suppressed), r') = rate_check window key now (lg_limiter st);
          st' = st\<lparr>lg_limiter := r'\<rparr>
      in if \<not> allowed then st' else with_suppressed emit format args suppressed st')"

definition LogD :: "string \<Rightarrow> goarg list \<Rightarrow> int \<Rightarrow> logger \<Rightarrow> logger" where
  "LogD format args now st = log_sampled format emit_d format args now st"

definition LogI :: "string \<Rightarrow> goarg list \<Rightarrow> int \<Rightarrow> logger \<Rightarrow> logger" where
  "LogI format args now st = log_sampled format emit_i format args now st"

definition LogW :: "string \<Rightarrow> goarg list \<Rightarrow> int \<Rightarrow> logger \<Rightarrow> logger" where
  "LogW format args now st = log_sampled format emit_w format args now st"

definition LogE :: "string \<Rightarrow> goarg list \<Rightarrow> int \<Rightarrow> logger \<Rightarrow> logger" where
  "LogE format args now st = emit_e format args st"

definition LogF :: "string \<Rightarrow> goarg list \<Rightarrow> int \<Rightarrow> logger \<Rightarrow> logger" where
  "LogF format args now st = emit_f format args st"

definition LogIRated where "LogIRated key format args now st = log_sampled key emit_i format args now st"
definition LogERated where "LogERated key format args now st = log_sampled key emit_e format args now st"
definition LogWRated where "LogWRated key format args now st = log_sampled key emit_w format args now st"
definition LogDRated where "LogDRated key format args now st = log_sampled key emit_d format args now st"

definition LogIRatedW where
  "LogIRatedW key window format args now st = log_windowed key window emit_i format args now st"
definition LogERatedW where
  "LogERatedW key window format args now st = log_windowed key window emit_e format args now st"
definition LogWRatedW where
  "LogWRatedW key window format args now st = log_windowed key window emit_w format args now st"
definition LogDRatedW where
  "LogDRatedW key window format args now st = log_windowed key window emit_d format args now st"

text \<open>\<open>LogErr\<close> calls golog directly: no hook sees the error.\<close>

definition LogErr :: "err \<Rightarrow> logger \<Rightarrow> logger" where
  "LogErr e st = add_events [GologLine ''error'' e] st"

text \<open>\<open>LogJ\<close> and \<open>LogJI\<close>; the JSON text comes from \<^verbatim>\<open>encoding/json\<close>.\<close>

definition LogJ :: "('a \<Rightarrow> string) \<Rightarrow> 'a \<Rightarrow> int \<Rightarrow> logger \<Rightarrow> logger" where
  "LogJ to_json arg now st =
     LogI ''%s %s'' [AStr (build_log_prefix ''LogJ''), AStr (to_json arg)] now st"

definition LogJI :: "('a \<Rightarrow> string) \<Rightarrow> 'a \<Rightarrow> int \<Rightarrow> logger \<Rightarrow> logger" where
  "LogJI to_json_indent arg now st =
     LogI ''%s %s'' [AStr (build_log_prefix ''LogJI''), AStr (to_json_indent arg)] now st"

definition LogSetLevel :: "string \<Rightarrow> logger \<Rightarrow> logger" where
  "LogSetLevel name st = st\<lparr>lg_level := name\<rparr>"

definition InitializeSampler :: "sampler_config \<Rightarrow> logger \<Rightarrow> logger" where
  "InitializeSampler cfg st = st\<lparr>lg_sampler := initialize_sampler cfg\<rparr>"

definition InitializeLogger :: "globals \<Rightarrow> logger \<Rightarrow> logger" where
  "InitializeLogger g st =
     InitializeSampler (sampler_config_from_app_env g)
       (st\<lparr>lg_time_format := ''2006-01-02 15:04:05.000'', lg_level := ''info'', lg_gin_level := True\<rparr>)"

end
