(* ===== verification/LogForward.thy ===== *)
theory LogForward
  imports Logger
begin

section \<open>phlogger: metrics, contexts, forwarding; what a log call shows to the outside\<close>

text \<open>
  The metric hook, the immutable log context and the forwarding configuration, with the properties
  of the logger as a whole.
\<close>

subsection \<open>Metrics\<close>

definition register_metrics_hook :: "nat option \<Rightarrow> logger \<Rightarrow> logger" where
  "register_metrics_hook h st = st\<lparr>lg_metrics_hook := h\<rparr>"

definition increment_metric_by :: "string \<Rightarrow> int \<Rightarrow> logger \<Rightarrow> logger" where
  "increment_metric_by event n st =
     (case lg_metrics_hook st of None \<Rightarrow> st | Some h \<Rightarrow> add_events [MetricCall h event n] st)"

definition increment_metric :: "string \<Rightarrow> logger \<Rightarrow> logger" where
  "increment_metric event st = increment_metric_by event 1 st"

subsection \<open>LogContext\<close>

record log_context =
  lc_prefix :: string

fun context_pairs :: "nat \<Rightarrow> string list \<Rightarrow> string" where
  "context_pairs pairs (k # v # fs) =
     (if 0 < pairs then '' '' else []) @ k @ ''='' @ v @ context_pairs (Suc pairs) fs"
| "context_pairs pairs _ = []"

definition new_log_context :: "string list \<Rightarrow> log_context" where
  "new_log_context fs =
     (if fs = [] then \<lparr>lc_prefix = []\<rparr>
      else \<lparr>lc_prefix = ''['' @ context_pairs 0 fs @ ''] ''\<rparr>)"

definition context_with :: "string list \<Rightarrow> log_context \<Rightarrow> log_context" where
  "context_with fs lc =
     (if fs = [] then lc
      else let extra = new_log_context fs in
        if lc_prefix lc = [] then extra
        else \<lparr>lc_prefix = take (length (lc_prefix lc) - 2) (lc_prefix lc) @ '' '' @
                drop 1 (lc_prefix extra)\<rparr>)"

definition context_LogD where "context_LogD lc format args now st = LogD (lc_prefix lc @ format) args now st"
definition context_LogI where "context_LogI lc format args now st = LogI (lc_prefix lc @ format) args now st"
definition context_LogW where "context_LogW lc format args now st = LogW (lc_prefix lc @ format) args now st"
definition context_LogE where "context_LogE lc format args now st = LogE (lc_prefix lc @ format) args now st"
definition context_LogF where "context_LogF lc format args now st = LogF (lc_prefix lc @ format) args now st"

lemma context_pairs_append:
  "even (length a) \<Longrightarrow> a \<noteq> [] \<Longrightarrow>
   context_pairs n (a @ b) = context_pairs n a @ context_pairs (n + length a div 2) b"
proof (induction n a rule: context_pairs.induct)
  case (1 pairs k v fs)
  then show ?case by (cases "fs = []") auto
qed auto

lemma context_pairs_pos: "0 < n \<Longrightarrow> 0 < m \<Longrightarrow> context_pairs n fs = context_pairs m fs"
proof (induction n fs arbitrary: m rule: context_pairs.induct)
  case (1 pairs k v fs)
  have "context_pairs (Suc pairs) fs = context_pairs (Suc m) fs" by (rule "1.IH") simp_all
  with "1.prems" show ?case by simp
qed auto

lemma context_pairs_later:
  assumes "0 < n" and "2 \<le> length b"
  shows "context_pairs n b = '' '' @ context_pairs 0 b"
proof -
  obtain k v fs where b: "b = k # v # fs"
    using assms(2) by (cases b; cases "tl b") auto
  have "context_pairs (Suc n) fs = context_pairs (Suc 0) fs" by (rule context_pairs_pos) simp_all
  with assms(1) show ?thesis by (simp add: b)
qed

text \<open>
  Extending a log context is the same as building it in one go: for a non-empty even list of
  fields \<open>a\<close> and further fields \<open>b\<close> with at least one pair, the child of the context of \<open>a\<close> with \<open>b\<close> has the
  prefix of the context of \<open>a @ b\<close>; and building never depends on the order of extension.
\<close>

theorem context_with_append:
  assumes "even (length a)" and "a \<noteq> []" and "2 \<le> length b"
  shows "context_with b (new_log_context a) = new_log_context (a @ b) \<and>
    context_with c (context_with b (new_log_context a)) = context_with c (new_log_context (a @ b))"
proof -
  have n: "0 < length a div 2" using assms by (cases a; cases "tl a") auto
  have "context_with b (new_log_context a) = new_log_context (a @ b)"
    using assms context_pairs_later [OF n, of b]
    by (auto simp: context_with_def new_log_context_def context_pairs_append Let_def)
  then show ?thesis by simp
qed

theorem context_with_append_witness:
  "context_with [''step'', ''validate''] (new_log_context [''req_id'', ''abc-123'']) =
     \<lparr>lc_prefix = ''[req_id=abc-123 step=validate] ''\<rparr>"
  using context_with_append [of "[''req_id'', ''abc-123'']" "[''step'', ''validate'']" "[]"]
  by (simp add: new_log_context_def)

subsection \<open>What a log call shows\<close>

text \<open>
  Error and fatal lines are never sampled: whatever the sampler, the hooks and the format, \<open>LogE\<close>
  writes exactly one error line and then calls every error hook once, in registration order, with
  the rendered message; \<open>LogF\<close> calls every fatal hook before it writes the line and exits the
  process, and nothing follows the exit.
\<close>

theorem error_and_fatal_never_sampled:
  "lg_events (LogE f args now st) =
     lg_events st @ GologLine ''error'' (sprintf f args) #
       map (\<lambda>h. HookCall h ''error'' (sprintf f args)) (lg_hooks st ''error'') \<and>
   lg_events (LogF f args now st) =
     lg_events st @ map (\<lambda>h. HookCall h ''fatal'' (sprintf f args)) (lg_hooks st ''fatal'') @
       [GologLine ''fatal'' (sprintf f args), ProcessExit] \<and>
   lg_sampler (LogE f args now st) = lg_sampler st"
  by (simp add: LogE_def LogF_def emit_f_def fatal_handler_def fire_hooks_eq line_events_def)

lemma log_sampled_other_key:
  assumes "\<And>g as st. lg_sampler (emit g as st) = lg_sampler st" and "f \<noteq> key"
  shows "s_entries (lg_sampler (log_sampled key emit g args now st)) f = s_entries (lg_sampler st) f"
proof -
  obtain a n s' where c: "sampler_check key now (lg_sampler st) = ((a, n), s')" by (metis surj_pair)
  from sampler_gate.other_keys [OF c assms(2)] show ?thesis
    by (simp add: log_sampled_def c with_suppressed_def assms(1) Let_def)
qed

lemma LogI_effect:
  assumes "sampler_check f now (lg_sampler st) = ((allowed, n), s')"
  shows "lg_sampler (LogI f args now st) = s' \<and>
    (\<exists>text. lg_events (LogI f args now st) =
      lg_events st @ (if allowed then line_events ''info'' text st else []))"
  using assms
  by (cases allowed) (auto simp: LogI_def log_sampled_def with_suppressed_def Let_def line_events_def)

text \<open>A sequence of \<open>LogI\<close> calls with one format, and the lines a logger has written.\<close>

definition log_all :: "string \<Rightarrow> (goarg list \<times> int) list \<Rightarrow> logger \<Rightarrow> logger" where
  "log_all f calls lg = fold (\<lambda>(args, t). LogI f args t) calls lg"

fun is_line :: "log_event \<Rightarrow> bool" where
  "is_line (GologLine level text) = True"
| "is_line _ = False"

definition lines_of :: "logger \<Rightarrow> nat" where
  "lines_of lg = length (filter is_line (lg_events lg))"

lemma no_line_in_hooks: "filter is_line (map (\<lambda>h. HookCall h level text) hs) = []"
  by (induction hs) simp_all

lemma log_all_lines:
  "sampler_run f (map snd calls) (lg_sampler lg) = (rs, s') \<Longrightarrow>
   lines_of (log_all f calls lg) = lines_of lg + allowed_count rs"
proof (induction calls arbitrary: lg rs s')
  case (Cons call calls)
  obtain args t where call: "call = (args, t)" by (cases call)
  obtain a n s1 where c: "sampler_check f t (lg_sampler lg) = ((a, n), s1)" by (metis surj_pair)
  obtain rs1 s2 where r: "sampler_run f (map snd calls) s1 = (rs1, s2)" by (cases "sampler_run f (map snd calls) s1")
  note e = LogI_effect [OF c, of args]
  then have "lines_of (LogI f args t lg) = lines_of lg + (if a then 1 else 0)"
    by (auto simp: lines_of_def line_events_def no_line_in_hooks)
  moreover have "lines_of (log_all f calls (LogI f args t lg)) = lines_of (LogI f args t lg) + allowed_count rs1"
    using Cons.IH [of "LogI f args t lg"] e r by simp
  ultimately show ?case using Cons.prems c r by (auto simp: log_all_def call)
qed (simp add: log_all_def)

text \<open>The text of a line that stands for suppressed ones.\<close>

definition suffixed :: "string \<Rightarrow> int \<Rightarrow> string" where
  "suffixed text n = (if 0 < n then text @ '' [+'' @ itoa n @ '' suppressed]'' else text)"

lemma sprintf_suffix: "sprintf '' [+%d suppressed]'' [AInt n] = '' [+'' @ itoa n @ '' suppressed]''"
  by (simp add: directive_def)

lemma with_suppressed_info:
  assumes "format_arity f = Some (length args)"
  shows "with_suppressed emit_i f args n st =
    add_events (line_events ''info'' (suffixed (sprintf f args) n) st) st"
  using sprintf_append [OF assms, of "'' [+%d suppressed]''" "[AInt n]"]
  by (simp only: with_suppressed_def suffixed_def emit_events sprintf_suffix if_split) simp

text \<open>
  A sampled line (shown for \<open>LogI\<close>, whose key is its format): when the sampler refuses, nothing
  becomes visible; when it allows with a report of \<open>n\<close> suppressed lines, exactly one line appears,
  its text is the rendered message with the suffix naming \<open>n\<close> (no suffix for \<open>n = 0\<close>), and every info
  hook is called once with that same text. Sampling one key leaves the state of all other keys
  alone.
\<close>

theorem sampled_line_visible:
  assumes "format_arity f = Some (length args)"
    and "sampler_check f now (lg_sampler st) = ((allowed, n), s')"
  shows "lg_events (LogI f args now st) = lg_events st @
      (if allowed then line_events ''info'' (suffixed (sprintf f args) n) st else []) \<and>
    lg_sampler (LogI f args now st) = s' \<and>
    (\<forall>key. key \<noteq> f \<longrightarrow> s_entries s' key = s_entries (lg_sampler st) key)"
proof -
  have "lg_events (LogI f args now st) = lg_events st @
      (if allowed then line_events ''info'' (suffixed (sprintf f args) n) st else [])"
    using assms by (simp add: LogI_def log_sampled_def with_suppressed_info line_events_def)
  moreover have "lg_sampler (LogI f args now st) = s'"
    using assms
    by (cases allowed) (simp_all add: LogI_def log_sampled_def Let_def with_suppressed_info)
  moreover have "s_entries s' key = s_entries (lg_sampler st) key" if "key \<noteq> f" for key
    using sampler_gate.other_keys [OF assms(2) that] .
  ultimately show ?thesis by blast
qed

definition demo_logger :: logger where
  "demo_logger = \<lparr>lg_sampler = initialize_sampler \<lparr>sc_initial = 1, sc_thereafter = 2, sc_period = 0\<rparr>,
     lg_limiter = new_rate_limiter, lg_hooks = (\<lambda>l. if l = ''info'' then [UserHook 7] else []),
     lg_metrics_hook = None, lg_sentry_once = False, lg_level = [], lg_time_format = [],
     lg_gin_level = False, lg_events = []\<rparr>"

text \<open>The third line inside a period: the second was refused, so this one reports it.\<close>

definition demo_logger3 :: logger where
  "demo_logger3 = demo_logger\<lparr>lg_sampler := (lg_sampler demo_logger)\<lparr>s_entries :=
     [''n=%d'' \<mapsto> \<lparr>se_count = 2, se_reset_nano = 5000000000\<rparr>]\<rparr>\<rparr>"

theorem sampled_line_visible_witness:
  "lg_events (LogI ''n=%d'' [AInt 42] 5000000009 demo_logger3) =
     [GologLine ''info'' ''n=42 [+1 suppressed]'', HookCall (UserHook 7) ''info'' ''n=42 [+1 suppressed]'']"
proof -
  have c: "sampler_check ''n=%d'' 5000000009 (lg_sampler demo_logger3) =
      ((True, 1), snd (sampler_check ''n=%d'' 5000000009 (lg_sampler demo_logger3)))"
    by (simp add: demo_logger3_def demo_logger_def initialize_sampler_def sampler_check_def
        sampler_entry_of_def wrap64_def go_mod_def go_div_def Let_def)
  have e: "lg_events demo_logger3 = []" "lg_hooks demo_logger3 ''info'' = [UserHook 7]"
    by (simp_all add: demo_logger3_def demo_logger_def)
  have t: "suffixed (sprintf ''n=%d'' [AInt 42]) 1 = ''n=42 [+1 suppressed]''"
    by (simp add: suffixed_def directive_def itoa_def nat_digits.simps)
  from sampled_line_visible [OF _ c, of "[AInt 42]"] show ?thesis
    by (simp add: e t line_events_def del: sprintf.simps)
qed

text \<open>
  The context prefix is part of the format, so a field value is itself interpreted as a format:
  when the (percent-free but for one verb) value of a field contains \<open>%s\<close>, the first argument of the
  log call is printed inside the context and the message loses it. Only percent-free fields are
  rendered literally.
\<close>

theorem context_value_is_format:
  assumes "CHR ''%'' \<notin> set k" and "CHR ''%'' \<notin> set p" and "CHR ''%'' \<notin> set q"
  shows "sprintf (lc_prefix (new_log_context [k, p @ ''%s'' @ q]) @ f) (AStr x # args) =
      ''['' @ k @ ''='' @ p @ x @ q @ ''] '' @ sprintf f args \<and>
    sprintf (lc_prefix (new_log_context [k, p @ q]) @ f) (AStr x # args) =
      ''['' @ k @ ''='' @ p @ q @ ''] '' @ sprintf f (AStr x # args)"
proof -
  have pre: "lc_prefix (new_log_context [k, v]) = ''['' @ k @ ''='' @ v @ ''] ''" for v
    by (simp add: new_log_context_def)
  have lit: "sprintf (''['' @ k @ ''='' @ p @ g) as = ''['' @ k @ ''='' @ p @ sprintf g as" for g as
    using sprintf_literal_prefix [of "''['' @ k @ ''='' @ p" g as] assms by simp
  have lit2: "sprintf (q @ ''] '' @ g) as = q @ ''] '' @ sprintf g as" for g as
    using sprintf_literal_prefix [of "q @ ''] ''" g as] assms by simp
  have "sprintf (''%s'' @ q @ ''] '' @ f) (AStr x # args) = x @ q @ ''] '' @ sprintf f args"
    using lit2 by (simp add: directive_def)
  then show ?thesis
    using lit lit2 by (simp add: pre)
qed

theorem context_value_is_format_witness:
  "sprintf (lc_prefix (new_log_context [''disc'', ''5%s'']) @ ''user=%s'') [AStr ''bob''] =
     ''[disc=5bob] user=%!s(MISSING)''"
  using context_value_is_format [of "''disc''" "''5''" "[]" "''user=%s''" "''bob''" "[]"]
  by simp

subsection \<open>Forwarding configuration\<close>

record log_forward_config =
  ForwardDebug :: bool
  ForwardInfo :: bool
  ForwardWarn :: bool
  ForwardError :: bool
  ForwardFatal :: bool

definition get_env_bool :: "env \<Rightarrow> string \<Rightarrow> bool \<Rightarrow> bool" where
  "get_env_bool env key d =
     (let val = env key in
      if val = [] then d else val = ''1'' \<or> val = ''true'' \<or> val = ''yes'')"

definition log_forward_config_from_env :: "env \<Rightarrow> log_forward_config" where
  "log_forward_config_from_env env =
     \<lparr>ForwardDebug = get_env_bool env ''LOG_FORWARD_DEBUG'' False,
      ForwardInfo = get_env_bool env ''LOG_FORWARD_INFO'' False,
      ForwardWarn = get_env_bool env ''LOG_FORWARD_WARN'' False,
      ForwardError = get_env_bool env ''LOG_FORWARD_ERROR'' True,
      ForwardFatal = get_env_bool env ''LOG_FORWARD_FATAL'' True\<rparr>"

text \<open>\<open>ConfigureLogForwarding\<close> of \<^verbatim>\<open>logger.go\<close>: each call adds hooks cumulatively.\<close>

definition configure_log_forwarding :: "log_forward_config \<Rightarrow> logger \<Rightarrow> logger" where
  "configure_log_forwarding cfg st0 =
     (let reg = (\<lambda>on level st. if on then register_log_hook level SentryForward st else st);
          st1 = reg (ForwardFatal cfg) ''fatal'' st0;
          st2 = reg (ForwardError cfg) ''error'' st1;
          st3 = reg (ForwardWarn cfg) ''warn'' st2;
          st4 = reg (ForwardInfo cfg) ''info'' st3
      in reg (ForwardDebug cfg) ''debug'' st4)"

text \<open>\<open>RegisterSentryLogHook\<close> of \<^verbatim>\<open>phsentry/log_hook.go\<close>: under a \<open>sync.Once\<close>.\<close>

definition register_sentry_log_hook :: "logger \<Rightarrow> logger" where
  "register_sentry_log_hook st =
     (if lg_sentry_once st then st
      else foldl (\<lambda>s level. register_log_hook level SentryForward s) (st\<lparr>lg_sentry_once := True\<rparr>)
             [''debug'', ''info'', ''warn'', ''error'', ''fatal''])"

definition configure_sentry_logging :: "bool \<Rightarrow> logger \<Rightarrow> logger" where
  "configure_sentry_logging enable st = (if enable then register_sentry_log_hook st else st)"

definition sentry_logging_from_env :: "env \<Rightarrow> bool" where
  "sentry_logging_from_env env =
     (let val = env ''SENTRY_LOGGING'' in
      if val = [] then False
      else case parse_bool val of None \<Rightarrow> False | Some b \<Rightarrow> b)"

definition log_levels :: "string list" where
  "log_levels = [''debug'', ''info'', ''warn'', ''error'', ''fatal'']"

definition sentry_hooks :: "logger \<Rightarrow> string \<Rightarrow> nat" where
  "sentry_hooks st level = length (filter (\<lambda>h. h = SentryForward) (lg_hooks st level))"

lemma register_hooks: "lg_hooks (register_log_hook level h st) l =
    lg_hooks st l @ (if l = level then [h] else [])"
  by (simp add: register_log_hook_def)

lemma register_once: "lg_sentry_once (register_log_hook level h st) = lg_sentry_once st"
  by (simp add: register_log_hook_def)

text \<open>
  Turning Sentry logging on, any number of further times, registers exactly one forwarding hook
  per level (\<open>ConfigureSentryLogging\<close> is idempotent), while \<open>ConfigureLogForwarding\<close> is not guarded:
  after both, every error is forwarded twice.
\<close>

theorem sentry_logging_idempotent:
  assumes "\<not> lg_sentry_once st"
  shows "configure_sentry_logging b (configure_sentry_logging True st) = configure_sentry_logging True st \<and>
    (\<forall>l. sentry_hooks (configure_sentry_logging True st) l =
       sentry_hooks st l + (if l \<in> set log_levels then 1 else 0)) \<and>
    (\<forall>cfg. ForwardError cfg \<longrightarrow>
       sentry_hooks (configure_log_forwarding cfg (configure_sentry_logging True st)) ''error'' =
       sentry_hooks st ''error'' + 2)"
proof -
  have once: "lg_sentry_once (configure_sentry_logging True st)"
    using assms by (simp add: configure_sentry_logging_def register_sentry_log_hook_def register_once)
  have idem: "configure_sentry_logging b (configure_sentry_logging True st) = configure_sentry_logging True st"
    using once by (simp add: configure_sentry_logging_def [of b]) (simp add: register_sentry_log_hook_def)
  have one: "sentry_hooks (configure_sentry_logging True st) l =
      sentry_hooks st l + (if l \<in> set log_levels then 1 else 0)" for l
    using assms
    by (simp add: configure_sentry_logging_def register_sentry_log_hook_def sentry_hooks_def
        register_hooks log_levels_def)
  have two: "sentry_hooks (configure_log_forwarding cfg s) ''error'' = sentry_hooks s ''error'' + 1"
    if "ForwardError cfg" for cfg s
    using that by (simp add: configure_log_forwarding_def sentry_hooks_def register_hooks Let_def)
  show ?thesis
    using idem one two by (simp add: log_levels_def)
qed

theorem sentry_logging_idempotent_witness:
  "sentry_hooks (configure_sentry_logging True demo_logger) ''warn'' = 1"
proof -
  have "\<not> lg_sentry_once demo_logger" by (simp add: demo_logger_def)
  from sentry_logging_idempotent [OF this, of True] show ?thesis
    by (simp add: log_levels_def) (simp add: sentry_hooks_def demo_logger_def)
qed

text \<open>
  A value that is set but none of the three accepted words reads as false, whatever the default:
  \<open>LOG_FORWARD_FATAL=TRUE\<close> turns the forwarding of fatal lines off.
\<close>

lemma get_env_bool_other_words:
  "env key \<notin> {[], ''1'', ''true'', ''yes''} \<Longrightarrow> get_env_bool env key d = False"
  by (simp add: get_env_bool_def)

end
