(* ===== verification/TraceTelemetry.thy ===== *)
theory TraceTelemetry
  imports TraceInit LogForward
begin

section \<open>phtrace: message headers, log lines and histograms\<close>

text \<open>
  \<^verbatim>\<open>phtrace/rmqprop.go\<close>, \<^verbatim>\<open>phtrace/log.go\<close> and \<^verbatim>\<open>phtrace/metrics.go\<close>. A context is an option (\<open>None\<close> is
  nil); what OpenTelemetry reads from a context (the ids of a valid span, whether it records, the
  pairs a propagator sets) is a parameter.
\<close>

subsection \<open>AMQP headers as a propagation carrier\<close>

text \<open>
  An \<open>amqp.Table\<close> is an option (\<open>None\<close> is the nil map) of its entries; a carrier is an option (\<open>None\<close>
  is the nil pointer) of its table. A value is a string, a byte slice or something else.
\<close>

datatype header_value = HString string | HBytes string | HOther

type_synonym amqp_headers = "(string \<times> header_value) list option"

type_synonym amqp_carrier = "amqp_headers option"

definition NewAMQPCarrier :: "amqp_headers \<Rightarrow> amqp_carrier" where
  "NewAMQPCarrier h = Some (if h = None then Some [] else h)"

fun header_text :: "header_value \<Rightarrow> string" where
  "header_text (HString v) = v"
| "header_text (HBytes v) = v"
| "header_text HOther = []"

definition carrier_get :: "string \<Rightarrow> amqp_carrier \<Rightarrow> string" where
  "carrier_get key c =
     (case c of
        None \<Rightarrow> []
      | Some None \<Rightarrow> []
      | Some (Some h) \<Rightarrow> (case map_of h key of None \<Rightarrow> [] | Some raw \<Rightarrow> header_text raw))"

definition carrier_set :: "string \<Rightarrow> string \<Rightarrow> amqp_carrier \<Rightarrow> amqp_carrier" where
  "carrier_set key val c =
     (case c of
        None \<Rightarrow> None
      | Some h \<Rightarrow>
          (if key = [] then Some h
           else Some (Some (AList.update key (HString val) (case h of None \<Rightarrow> [] | Some t \<Rightarrow> t)))))"

text \<open>\<open>Keys\<close>, as the set of the keys since the order is that of a map range.\<close>

definition carrier_keys :: "amqp_carrier \<Rightarrow> string set" where
  "carrier_keys c = (case c of Some (Some h) \<Rightarrow> fst ` set h | _ \<Rightarrow> {})"

lemma carrier_get_set:
  "c \<noteq> None \<Longrightarrow> key \<noteq> [] \<Longrightarrow>
   carrier_get k (carrier_set key v c) = (if k = key then v else carrier_get k c)"
  by (auto simp: carrier_get_def carrier_set_def update_conv' split: option.splits)

lemma carrier_set_not_nil [simp]: "carrier_set key v c = None \<longleftrightarrow> c = None"
  by (simp add: carrier_set_def split: option.splits)

text \<open>
  A live carrier is a table; on tables the carrier is a keyed store whose absent keys read as the
  empty string.
\<close>

definition table_set :: "string \<Rightarrow> string \<Rightarrow> amqp_headers \<Rightarrow> amqp_headers" where
  "table_set key v h = the (carrier_set key v (Some h))"

definition table_get :: "string \<Rightarrow> amqp_headers \<Rightarrow> string" where
  "table_get key h = carrier_get key (Some h)"

lemma table_set_carrier: "Some (table_set key v h) = carrier_set key v (Some h)"
  by (simp add: table_set_def carrier_set_def)

interpretation headers: kv_store table_set table_get "\<lambda>v. v" "\<lambda>key. key \<noteq> []"
  by unfold_locales (simp add: table_get_def table_set_carrier carrier_get_set)

text \<open>
  A propagator's \<open>Inject\<close> makes a list of \<open>Set\<close> calls, its \<open>Extract\<close> reads with \<open>Get\<close>. The map is shared
  between the caller and the carrier, so what \<open>Set\<close> writes is in the returned table.
\<close>

definition inject_pairs :: "(string \<times> string) list \<Rightarrow> amqp_carrier \<Rightarrow> amqp_carrier" where
  "inject_pairs kvs c = foldl (\<lambda>c (k, v). carrier_set k v c) c kvs"

definition InjectAMQP ::
  "('c \<Rightarrow> (string \<times> string) list) \<Rightarrow> 'c option \<Rightarrow> amqp_headers \<Rightarrow> amqp_headers" where
  "InjectAMQP inject ctx hs =
     (case ctx of
        None \<Rightarrow> hs
      | Some c \<Rightarrow>
          (let h = (if hs = None then Some [] else hs)
           in the (inject_pairs (inject c) (NewAMQPCarrier h))))"

definition ExtractAMQP ::
  "('c \<Rightarrow> (string \<Rightarrow> string) \<Rightarrow> 'c) \<Rightarrow> 'c \<Rightarrow> 'c option \<Rightarrow> amqp_headers \<Rightarrow> 'c" where
  "ExtractAMQP extract background ctx hs =
     (let c = (case ctx of None \<Rightarrow> background | Some c \<Rightarrow> c)
      in if hs = None then c else extract c (\<lambda>key. carrier_get key (NewAMQPCarrier hs)))"

lemma inject_pairs_table: "inject_pairs kvs (Some h) = Some (headers.puts kvs h)"
  unfolding inject_pairs_def headers.puts_def
  by (induction kvs arbitrary: h) (auto simp: table_set_carrier [symmetric])

lemma InjectAMQP_table:
  "InjectAMQP inject (Some c) hs = headers.puts (inject c) (if hs = None then Some [] else hs)"
  by (simp add: InjectAMQP_def NewAMQPCarrier_def inject_pairs_table Let_def)

lemma table_set_live: "h \<noteq> None \<Longrightarrow> table_set k v h \<noteq> None"
  by (auto simp: table_set_def carrier_set_def)

lemma puts_live: "h \<noteq> None \<Longrightarrow> headers.puts kvs h \<noteq> None"
  unfolding headers.puts_def
  by (rule foldl_invariant [where P = "\<lambda>h. h \<noteq> None"]) (simp_all add: case_prod_beta table_set_live del: not_None_eq)

lemma empty_table_is_nil: "table_get k (Some []) = table_get k None"
  by (simp add: table_get_def carrier_get_def)

lemma empty_table_get: "table_get k (if hs = None then Some [] else hs) = table_get k hs"
  by (auto simp: table_get_def carrier_get_def)


subsection \<open>Log lines with trace ids\<close>

text \<open>
  \<open>sl_ids\<close> gives the two ids of a valid span context and \<open>sl_recording\<close> whether the span records.
  The state pairs the logger with the errors recorded on spans.
\<close>

record 'c span_lib =
  sl_ids :: "'c \<Rightarrow> (string \<times> string) option"
  sl_recording :: "'c \<Rightarrow> bool"

record trace_log =
  tl_logger :: logger
  tl_span_errors :: "string list"

text \<open>The keys of the structured log fields.\<close>

datatype log_field =
    FieldTraceID
  | FieldSpanID
  | FieldTicketID
  | FieldReffNo
  | FieldMerchantID
  | FieldOrderID
  | FieldTrxID
  | FieldTrxNo
  | FieldService
  | FieldRoute
  | FieldVendor

fun field_name :: "log_field \<Rightarrow> string" where
  "field_name FieldTraceID = ''trace_id''"
| "field_name FieldSpanID = ''span_id''"
| "field_name FieldTicketID = ''ticket_id''"
| "field_name FieldReffNo = ''reff_no''"
| "field_name FieldMerchantID = ''merchant_id''"
| "field_name FieldOrderID = ''order_id''"
| "field_name FieldTrxID = ''trx_id''"
| "field_name FieldTrxNo = ''trx_no''"
| "field_name FieldService = ''service''"
| "field_name FieldRoute = ''route''"
| "field_name FieldVendor = ''vendor''"

lemma field_name_inj: "inj field_name"
proof (rule injI)
  fix a b :: log_field
  show "field_name a = field_name b \<Longrightarrow> a = b" by (cases a; cases b) simp_all
qed

definition trace_fields :: "'c span_lib \<Rightarrow> 'c option \<Rightarrow> string \<times> string" where
  "trace_fields sl ctx =
     (case ctx of
        None \<Rightarrow> ([], [])
      | Some c \<Rightarrow> (case sl_ids sl c of None \<Rightarrow> ([], []) | Some ids \<Rightarrow> ids))"

text \<open>The loop over the alternating keys and values; \<open>first\<close> says that nothing was written yet.\<close>

fun append_fields :: "bool \<Rightarrow> string list \<Rightarrow> string \<Rightarrow> string" where
  "append_fields first (k # v # fs) buf =
     append_fields False fs (buf @ (if first then [] else '' '') @ k @ ''='' @ v)"
| "append_fields first _ buf = buf"

definition build_prefix :: "'c span_lib \<Rightarrow> 'c option \<Rightarrow> string list \<Rightarrow> string" where
  "build_prefix sl ctx flds =
     (let (traceID, spanID) = trace_fields sl ctx
      in if traceID = [] \<and> flds = [] then []
         else
           (let (buf, first) = (''['', True);
                (buf, first) = (if traceID \<noteq> [] then (buf @ ''trace_id'' @ ''='' @ traceID, False) else (buf, first));
                (buf, first) = (if spanID \<noteq> []
                                then (buf @ (if first then [] else '' '') @ ''span_id'' @ ''='' @ spanID, False)
                                else (buf, first))
            in append_fields first flds buf @ ''] ''))"

text \<open>
  \<open>fmt.Errorf\<close> renders like \<open>Sprintf\<close>, and \<open>%w\<close> of an error like \<open>%v\<close>.
\<close>

fun wrap_verbs :: "string \<Rightarrow> goarg list \<Rightarrow> string" where
  "wrap_verbs (c # v # s) args =
     (if c \<noteq> CHR ''%'' then c # wrap_verbs (v # s) args
      else if v = CHR ''%'' then c # v # wrap_verbs s args
      else case args of
             [] \<Rightarrow> c # v # wrap_verbs s []
           | a # as \<Rightarrow>
               c # (case a of AErr _ \<Rightarrow> (if v = CHR ''w'' then CHR ''v'' else v) | _ \<Rightarrow> v) # wrap_verbs s as)"
| "wrap_verbs s args = s"

definition errorf :: "string \<Rightarrow> goarg list \<Rightarrow> string" where
  "errorf format args = sprintf (wrap_verbs format args) args"

definition on_logger :: "(logger \<Rightarrow> logger) \<Rightarrow> trace_log \<Rightarrow> trace_log" where
  "on_logger f st = st\<lparr>tl_logger := f (tl_logger st)\<rparr>"

definition record_span_error ::
  "'c span_lib \<Rightarrow> 'c option \<Rightarrow> string \<Rightarrow> goarg list \<Rightarrow> trace_log \<Rightarrow> trace_log" where
  "record_span_error sl ctx format args st =
     (case ctx of
        None \<Rightarrow> st
      | Some c \<Rightarrow>
          (if sl_recording sl c
           then st\<lparr>tl_span_errors := tl_span_errors st @ [errorf format args]\<rparr> else st))"

definition LogDCtx where
  "LogDCtx sl ctx format args now st =
     (let p = build_prefix sl ctx []
      in on_logger (if p \<noteq> [] then LogD (p @ format) args now else LogD format args now) st)"

definition LogICtx where
  "LogICtx sl ctx format args now st =
     (let p = build_prefix sl ctx []
      in on_logger (if p \<noteq> [] then LogI (p @ format) args now else LogI format args now) st)"

definition LogWCtx where
  "LogWCtx sl ctx format args now st =
     (let p = build_prefix sl ctx []
      in on_logger (if p \<noteq> [] then LogW (p @ format) args now else LogW format args now) st)"

definition LogECtx where
  "LogECtx sl ctx format args now st =
     (let st1 = record_span_error sl ctx format args st;
          p = build_prefix sl ctx []
      in on_logger (if p \<noteq> [] then LogE (p @ format) args now else LogE format args now) st1)"

record 'c log_context_ctx =
  lcc_ctx :: "'c option"
  lcc_fields :: "string list"

definition WithFields :: "'c option \<Rightarrow> string list \<Rightarrow> 'c log_context_ctx" where
  "WithFields ctx flds = \<lparr>lcc_ctx = ctx, lcc_fields = flds\<rparr>"

definition ctx_With :: "string list \<Rightarrow> 'c log_context_ctx \<Rightarrow> 'c log_context_ctx" where
  "ctx_With flds l =
     (if flds = [] then l else \<lparr>lcc_ctx = lcc_ctx l, lcc_fields = lcc_fields l @ flds\<rparr>)"

definition ctx_LogD where
  "ctx_LogD sl l format args now st =
     on_logger (LogD (build_prefix sl (lcc_ctx l) (lcc_fields l) @ format) args now) st"

definition ctx_LogI where
  "ctx_LogI sl l format args now st =
     on_logger (LogI (build_prefix sl (lcc_ctx l) (lcc_fields l) @ format) args now) st"

definition ctx_LogW where
  "ctx_LogW sl l format args now st =
     on_logger (LogW (build_prefix sl (lcc_ctx l) (lcc_fields l) @ format) args now) st"

definition ctx_LogE where
  "ctx_LogE sl l format args now st =
     on_logger (LogE (build_prefix sl (lcc_ctx l) (lcc_fields l) @ format) args now)
       (record_span_error sl (lcc_ctx l) format args st)"

subsection \<open>The prefix as a rendering of fields\<close>

fun field_pairs :: "string list \<Rightarrow> string list" where
  "field_pairs (k # v # fs) = (k @ ''='' @ v) # field_pairs fs"
| "field_pairs _ = []"

lemma join_with_snoc:
  "xs \<noteq> [] \<Longrightarrow> join_with sep (xs @ [y]) = join_with sep xs @ sep @ y"
  by (induction sep xs rule: join_with.induct) auto

lemma append_fields_join:
  "append_fields (ps = []) fs (b @ join_with '' '' ps) = b @ join_with '' '' (ps @ field_pairs fs)"
proof (induction fs arbitrary: ps rule: field_pairs.induct)
  case (1 k v fs)
  have "append_fields (ps = []) (k # v # fs) (b @ join_with '' '' ps)
      = append_fields (ps @ [k @ ''='' @ v] = []) fs (b @ join_with '' '' (ps @ [k @ ''='' @ v]))"
    by (simp add: join_with_snoc)
  also have "\<dots> = b @ join_with '' '' (ps @ [k @ ''='' @ v] @ field_pairs fs)"
    using 1 [of "ps @ [k @ ''='' @ v]"] by simp
  finally show ?case by simp
qed simp_all

text \<open>What the prefix stands for: the ids that are present, then the fields, separated by a space.\<close>

definition prefix_items :: "'c span_lib \<Rightarrow> 'c option \<Rightarrow> string list \<Rightarrow> string list" where
  "prefix_items sl ctx flds =
     (let (traceID, spanID) = trace_fields sl ctx
      in (if traceID = [] then [] else [''trace_id='' @ traceID]) @
         (if spanID = [] then [] else [''span_id='' @ spanID]) @ field_pairs flds)"

lemma build_prefix_items:
  assumes "fst (trace_fields sl ctx) \<noteq> [] \<or> flds \<noteq> []"
  shows "build_prefix sl ctx flds = ''['' @ join_with '' '' (prefix_items sl ctx flds) @ ''] ''"
proof -
  obtain t s where ts: "trace_fields sl ctx = (t, s)" by (cases "trace_fields sl ctx")
  show ?thesis
    using assms append_fields_join [of "[]" flds "''[''"]
      append_fields_join [of "[''trace_id='' @ t]" flds "''[''"]
      append_fields_join [of "[''span_id='' @ s]" flds "''[''"]
      append_fields_join [of "[''trace_id='' @ t, ''span_id='' @ s]" flds "''[''"]
    by (simp add: build_prefix_def prefix_items_def ts Let_def)
qed

lemma field_pairs_append: "even (length a) \<Longrightarrow> field_pairs (a @ b) = field_pairs a @ field_pairs b"
  by (induction a rule: field_pairs.induct) auto


subsection \<open>Histograms\<close>

text \<open>
  \<open>None\<close> as an instrument is a nil interface. \<open>new_hist\<close> is the answer of the SDK's
  \<open>Float64Histogram\<close>; the meter of a disabled package never fails.
\<close>

datatype instrument = NopHistogram | OtelHistogram string string "go_float list"

record phase_histogram =
  ph_hist :: "instrument option"
  ph_name :: string

type_synonym hist_registry = "string \<rightharpoonup> phase_histogram"

definition default_phase_buckets :: "go_float list" where
  "default_phase_buckets =
     map Fin [5, 10, 25, 50, 100, 250, 500, 1000, 2500, 5000, 10000]"

definition NewPhaseHistogram ::
  "(string \<Rightarrow> string \<Rightarrow> go_float list \<Rightarrow> err option) \<Rightarrow> trace_pkg \<Rightarrow> string \<Rightarrow> string \<Rightarrow> go_float list \<Rightarrow>
   hist_registry \<Rightarrow> (err + phase_histogram) \<times> hist_registry" where
  "NewPhaseHistogram new_hist s meterName histName buckets reg =
     (let key = meterName @ ''|'' @ histName
      in case reg key of
           Some h \<Rightarrow> (Inr h, reg)
         | None \<Rightarrow>
             (let bs = (if buckets = [] then default_phase_buckets else buckets);
                  made = (if \<not> IsEnabled s then Inr NopHistogram
                          else case new_hist meterName histName bs of
                                 Some e \<Rightarrow> Inl e
                               | None \<Rightarrow> Inr (OtelHistogram meterName histName bs))
              in case made of
                   Inl e \<Rightarrow> (Inl e, reg)
                 | Inr i \<Rightarrow>
                     (let ph = \<lparr>ph_hist = Some i, ph_name = histName\<rparr>
                      in (Inr ph, reg(key \<mapsto> ph)))))"

text \<open>\<open>Inl\<close> is the value of the panic.\<close>

definition MustPhaseHistogram ::
  "(string \<Rightarrow> string \<Rightarrow> go_float list \<Rightarrow> err option) \<Rightarrow> trace_pkg \<Rightarrow> string \<Rightarrow> string \<Rightarrow> go_float list \<Rightarrow>
   hist_registry \<Rightarrow> (string + phase_histogram) \<times> hist_registry" where
  "MustPhaseHistogram new_hist s meterName histName buckets reg =
     (case NewPhaseHistogram new_hist s meterName histName buckets reg of
        (Inl e, reg') \<Rightarrow> (Inl (''phtrace: '' @ e), reg')
      | (Inr h, reg') \<Rightarrow> (Inr h, reg'))"

record measurement =
  ms_instrument :: instrument
  ms_millis :: int
  ms_attrs :: "(string \<times> string) list"

text \<open>What reaches the SDK, in order; a no-op instrument drops the measurement.\<close>

definition RecordPhase ::
  "phase_histogram option \<Rightarrow> string \<Rightarrow> int \<Rightarrow> (string \<times> string) list \<Rightarrow> measurement list \<Rightarrow> measurement list" where
  "RecordPhase p phase duration extra ms =
     (case p of
        None \<Rightarrow> ms
      | Some h \<Rightarrow>
          (case ph_hist h of
             None \<Rightarrow> ms
           | Some NopHistogram \<Rightarrow> ms
           | Some i \<Rightarrow>
               ms @ [\<lparr>ms_instrument = i, ms_millis = go_div duration Millisecond,
                      ms_attrs = (''phase'', phase) # extra\<rparr>]))"

text \<open>\<open>Observe\<close> reads the clock when it is called, its result when it is run.\<close>

definition Observe ::
  "phase_histogram option \<Rightarrow> string \<Rightarrow> (string \<times> string) list \<Rightarrow> int \<Rightarrow> int \<Rightarrow> measurement list \<Rightarrow> measurement list" where
  "Observe p phase extra start now ms = RecordPhase p phase (elapsed start now) extra ms"


subsection \<open>Properties\<close>

text \<open>
  What is injected into message headers is what the consumer reads. After \<open>InjectAMQP\<close> every header
  read through a carrier on the returned table is the last value the propagator set for it, and every
  other header reads as before, so user headers survive. The returned table is live even when the
  caller passed nil, and nothing is written without a context.
\<close>

theorem injected_headers_readable:
  assumes "\<forall>(k, v) \<in> set (inject c). k \<noteq> []"
  shows "carrier_get key (NewAMQPCarrier (InjectAMQP inject (Some c) hs)) =
      (case map_of (rev (inject c)) key of
         None \<Rightarrow> carrier_get key (NewAMQPCarrier hs)
       | Some v \<Rightarrow> v) \<and>
    InjectAMQP inject (Some c) hs \<noteq> None \<and> InjectAMQP inject None hs = hs"
proof -
  have new: "carrier_get key (NewAMQPCarrier h) = table_get key h" for h
    by (simp add: NewAMQPCarrier_def empty_table_get table_get_def [symmetric])
  have "InjectAMQP inject (Some c) hs \<noteq> None"
    unfolding InjectAMQP_table by (rule puts_live) simp
  then show ?thesis
    using headers.get_puts [of "inject c" key "if hs = None then Some [] else hs"] assms
    by (simp add: new InjectAMQP_table empty_table_get empty_table_is_nil InjectAMQP_def [of inject None]
        split: option.split del: if_split)
qed

theorem injected_headers_readable_witness:
  "carrier_get ''traceparent'' (NewAMQPCarrier
     (InjectAMQP (\<lambda>_. [(''traceparent'', ''00-ab-cd-01'')]) (Some ()) (Some [(''x'', HBytes ''1'')]))) = ''00-ab-cd-01'' \<and>
   carrier_get ''x'' (NewAMQPCarrier
     (InjectAMQP (\<lambda>_. [(''traceparent'', ''00-ab-cd-01'')]) (Some ()) (Some [(''x'', HBytes ''1'')]))) = ''1''"
  using injected_headers_readable [of "\<lambda>_. [(''traceparent'', ''00-ab-cd-01'')]" "()" "''traceparent''"
      "Some [(''x'', HBytes ''1'')]"]
    injected_headers_readable [of "\<lambda>_. [(''traceparent'', ''00-ab-cd-01'')]" "()" "''x''"
      "Some [(''x'', HBytes ''1'')]"]
  by (simp add: NewAMQPCarrier_def carrier_get_def)

text \<open>
  The buffer loop of \<open>buildPrefix\<close> renders a bracketed list of items separated by single spaces: the
  trace id and the span id when present, then the pairs of fields, an odd last field dropped. Extending
  a log context by \<open>With\<close> appends the items of the new fields.
\<close>

theorem build_prefix_reference:
  "build_prefix sl ctx fs =
     (if fst (trace_fields sl ctx) = [] \<and> fs = [] then []
      else ''['' @ join_with '' '' (prefix_items sl ctx fs) @ ''] '') \<and>
   prefix_items sl (lcc_ctx (ctx_With extra (WithFields ctx (k # v # fs))))
       (lcc_fields (ctx_With extra (WithFields ctx (k # v # fs)))) =
     (if even (length fs) then prefix_items sl ctx (k # v # fs) @ field_pairs extra
      else prefix_items sl ctx (k # v # fs @ extra))"
proof (intro conjI)
  show "build_prefix sl ctx fs = (if fst (trace_fields sl ctx) = [] \<and> fs = [] then []
      else ''['' @ join_with '' '' (prefix_items sl ctx fs) @ ''] '')"
    using build_prefix_items [of sl ctx fs]
    by (cases "trace_fields sl ctx") (auto simp: build_prefix_def)
  show "prefix_items sl (lcc_ctx (ctx_With extra (WithFields ctx (k # v # fs))))
       (lcc_fields (ctx_With extra (WithFields ctx (k # v # fs)))) =
     (if even (length fs) then prefix_items sl ctx (k # v # fs) @ field_pairs extra
      else prefix_items sl ctx (k # v # fs @ extra))"
    by (auto simp: ctx_With_def WithFields_def prefix_items_def field_pairs_append Let_def
        split: prod.split)
qed

text \<open>
  A histogram asked for before the exporters start stays a no-op for the life of the process: the
  registry keeps what the first call made, so later calls after a successful start return it and its
  measurements are dropped.
\<close>

theorem early_histogram_stays_noop:
  assumes "NewPhaseHistogram new_hist s m n bs reg = (Inr h, reg')" and "\<not> IsEnabled s"
    and "reg (m @ ''|'' @ n) = None"
  shows "NewPhaseHistogram new_hist' s' m n bs' reg' = (Inr h, reg') \<and>
    RecordPhase (Some h) phase d extra ms = ms"
  using assms by (auto simp: NewPhaseHistogram_def Let_def RecordPhase_def)

theorem early_histogram_stays_noop_witness:
  "\<exists>h reg'. NewPhaseHistogram (\<lambda>_ _ _. None) (trace_pkg_initial\<lparr>tr_enabled := True\<rparr>) ''svc'' ''phase'' [] reg' =
      (Inr h, reg') \<and> RecordPhase (Some h) ''rmq_publish'' (5 * Second) [] [] = []"
proof -
  let ?new = "\<lambda>(_ :: string) (_ :: string) (_ :: go_float list). (None :: err option)"
  let ?h = "\<lparr>ph_hist = Some NopHistogram, ph_name = ''phase''\<rparr>"
  have d: "\<not> IsEnabled trace_pkg_initial" by (simp add: IsEnabled_def trace_pkg_initial_def)
  then have "NewPhaseHistogram ?new trace_pkg_initial ''svc'' ''phase'' [] Map.empty =
      (Inr ?h, [''svc|phase'' \<mapsto> ?h])"
    by (simp add: NewPhaseHistogram_def Let_def)
  from early_histogram_stays_noop [OF this d] show ?thesis by blast
qed

end
