(* ===== verification/GoTime.thy ===== *)
theory GoTime
  imports GoText
begin

section \<open>time.Parse for the layout 2006-01-02 15:04:05, and printed durations\<close>

text \<open>
  What \<^verbatim>\<open>time.Parse\<close> does with the one layout the sources parse: four year digits, two digits of month
  and day, any number of spaces, an hour of one or two digits, two digits of minutes and seconds, and
  a fraction of a second although the layout has none. The result counts nanoseconds since the Unix
  epoch in UTC (unbounded).
\<close>

definition getnum_fixed :: "string \<Rightarrow> (nat \<times> string) option" where
  "getnum_fixed s =
     (case s of a # b # r \<Rightarrow> if is_digit a \<and> is_digit b then Some (10 * digit_val a + digit_val b, r) else None
              | _ \<Rightarrow> None)"

definition getnum_flex :: "string \<Rightarrow> (nat \<times> string) option" where
  "getnum_flex s =
     (case s of
        [] \<Rightarrow> None
      | a # r \<Rightarrow>
          (if is_digit a then
             (case r of
                b # r' \<Rightarrow> if is_digit b then Some (10 * digit_val a + digit_val b, r') else Some (digit_val a, r)
              | [] \<Rightarrow> Some (digit_val a, []))
           else None))"

definition get_year :: "string \<Rightarrow> (nat \<times> string) option" where
  "get_year s =
     (if length s < 4 then None
      else map_option (\<lambda>y. (y, drop 4 s)) (digits_acc 0 (take 4 s)))"

definition get_char :: "char \<Rightarrow> string \<Rightarrow> string option" where
  "get_char c s = (case s of d # r \<Rightarrow> if d = c then Some r else None | [] \<Rightarrow> None)"

definition skip_spaces :: "string \<Rightarrow> string option" where
  "skip_spaces s =
     (case s of [] \<Rightarrow> Some [] | c # r \<Rightarrow> if c = CHR '' '' then Some (dropWhile (\<lambda>c. c = CHR '' '') s) else None)"

text \<open>At most nine digits of the fraction count, scaled to nanoseconds.\<close>

definition get_fraction :: "string \<Rightarrow> nat \<times> string" where
  "get_fraction s =
     (case s of
        p # d # r \<Rightarrow>
          (if (p = CHR ''.'' \<or> p = CHR '','') \<and> is_digit d then
             (let ds = take 9 (takeWhile is_digit (d # r))
              in (case digits_acc 0 ds of Some n \<Rightarrow> n * 10 ^ (9 - length ds) | None \<Rightarrow> 0,
                  dropWhile is_digit (d # r)))
           else (0, s))
      | _ \<Rightarrow> (0, s))"

definition is_leap :: "nat \<Rightarrow> bool" where
  "is_leap y \<longleftrightarrow> y mod 4 = 0 \<and> (y mod 100 \<noteq> 0 \<or> y mod 400 = 0)"

definition days_in :: "nat \<Rightarrow> nat \<Rightarrow> nat" where
  "days_in m y = (if m = 2 then (if is_leap y then 29 else 28) else if m \<in> {4, 6, 9, 11} then 30 else 31)"

definition days_before_month :: "nat \<Rightarrow> nat \<Rightarrow> nat" where
  "days_before_month m y = sum_list (map (\<lambda>k. days_in k y) [1..<m])"

text \<open>Days from 0000-01-01 to the first of January of a year; 719528 of them are before the epoch.\<close>

definition days_before_year :: "nat \<Rightarrow> nat" where
  "days_before_year y = 365 * y + (y + 3) div 4 - (y + 99) div 100 + (y + 399) div 400"

definition epoch_nanos :: "nat \<Rightarrow> nat \<Rightarrow> nat \<Rightarrow> nat \<Rightarrow> nat \<Rightarrow> nat \<Rightarrow> nat \<Rightarrow> int" where
  "epoch_nanos y m d h mi s ns =
     ((((int (days_before_year y) + int (days_before_month m y) + int d - 1 - 719528) * 24 + int h) * 60
        + int mi) * 60 + int s) * Second + int ns"

definition in_range :: "nat \<Rightarrow> nat \<Rightarrow> (nat \<times> string) option \<Rightarrow> (nat \<times> string) option" where
  "in_range lo hi r =
     (case r of Some (n, s) \<Rightarrow> if lo \<le> n \<and> n \<le> hi then Some (n, s) else None | None \<Rightarrow> None)"

definition parse_datetime :: "string \<Rightarrow> int option" where
  "parse_datetime v =
     Option.bind (get_year v) (\<lambda>(y, v).
     Option.bind (get_char (CHR ''-'') v) (\<lambda>v.
     Option.bind (in_range 1 12 (getnum_fixed v)) (\<lambda>(m, v).
     Option.bind (get_char (CHR ''-'') v) (\<lambda>v.
     Option.bind (getnum_fixed v) (\<lambda>(d, v).
     Option.bind (skip_spaces v) (\<lambda>v.
     Option.bind (in_range 0 23 (getnum_flex v)) (\<lambda>(h, v).
     Option.bind (get_char (CHR '':'') v) (\<lambda>v.
     Option.bind (in_range 0 59 (getnum_fixed v)) (\<lambda>(mi, v).
     Option.bind (get_char (CHR '':'') v) (\<lambda>v.
     Option.bind (in_range 0 59 (getnum_fixed v)) (\<lambda>(s, v).
       let (ns, v) = get_fraction v
       in if v \<noteq> [] then None
          else if d < 1 \<or> d > days_in m y then None
          else Some (epoch_nanos y m d h mi s ns))))))))))))"

subsection \<open>Printing, and the round trip\<close>

definition pad2 :: "nat \<Rightarrow> string" where
  "pad2 n = [char_of (48 + n div 10), char_of (48 + n mod 10)]"

definition pad4 :: "nat \<Rightarrow> string" where
  "pad4 n = pad2 (n div 100) @ pad2 (n mod 100)"

definition format_datetime :: "nat \<Rightarrow> nat \<Rightarrow> nat \<Rightarrow> nat \<Rightarrow> nat \<Rightarrow> nat \<Rightarrow> string" where
  "format_datetime y m d h mi s =
     pad4 y @ ''-'' @ pad2 m @ ''-'' @ pad2 d @ '' '' @ pad2 h @ '':'' @ pad2 mi @ '':'' @ pad2 s"

lemma pad2_digits: "n < 100 \<Longrightarrow> is_digit (char_of (48 + n div 10)) \<and> is_digit (char_of (48 + n mod 10)) \<and>
    digit_val (char_of (48 + n div 10)) = n div 10 \<and> digit_val (char_of (48 + n mod 10)) = n mod 10"
  by (simp add: is_digit_char digit_val_char)

lemma getnum_fixed_pad2: "n < 100 \<Longrightarrow> getnum_fixed (pad2 n @ r) = Some (n, r)"
  using pad2_digits [of n] by (simp add: getnum_fixed_def pad2_def)

lemma getnum_flex_pad2: "n < 100 \<Longrightarrow> getnum_flex (pad2 n @ r) = Some (n, r)"
  using pad2_digits [of n] by (simp add: getnum_flex_def pad2_def)

lemma four_digits:
  "10 * p + q = (a::nat) \<Longrightarrow> 10 * r + s = b \<Longrightarrow> 100 * a + b = n \<Longrightarrow> 10 * (10 * (10 * p + q) + r) + s = n"
  by simp

lemma get_year_pad4: "n < 10000 \<Longrightarrow> get_year (pad4 n @ r) = Some (n, r)"
proof -
  assume "n < 10000"
  then have a: "n div 100 < 100" "n mod 100 < 100" by simp_all
  have "10 * (10 * (10 * (n div 100 div 10) + n div 100 mod 10) + n mod 100 div 10) + n mod 100 mod 10 = n"
    by (rule four_digits [where a = "n div 100" and b = "n mod 100"]) simp_all
  with pad2_digits [OF a(1)] pad2_digits [OF a(2)] show ?thesis
    by (simp add: get_year_def pad4_def pad2_def)
qed

lemma skip_spaces_pad2: "n < 100 \<Longrightarrow> skip_spaces ('' '' @ pad2 n @ r) = Some (pad2 n @ r)"
proof -
  assume "n < 100"
  with pad2_digits [of n] have "is_digit (char_of (48 + n div 10))" by blast
  moreover have "\<not> is_digit (CHR '' '')" by (simp add: is_digit_def)
  ultimately have "char_of (48 + n div 10) \<noteq> CHR '' ''" by metis
  then show ?thesis by (simp add: skip_spaces_def pad2_def)
qed

lemma days_in_le: "days_in m y \<le> 31"
  by (simp add: days_in_def)

lemma parse_format_datetime:
  assumes "y < 10000" and "1 \<le> m" and "m \<le> 12" and "1 \<le> d" and "d \<le> days_in m y"
    and "h < 24" and "mi < 60" and "s < 60"
  shows "parse_datetime (format_datetime y m d h mi s) = Some (epoch_nanos y m d h mi s 0)"
proof -
  have d: "d < 100" using assms(5) days_in_le [of m y] by simp
  have nil: "getnum_fixed (pad2 s) = Some (s, [])" using getnum_fixed_pad2 [of s "[]"] assms by simp
  note [simp] = getnum_fixed_pad2 getnum_flex_pad2 get_year_pad4 nil
  have sp: "skip_spaces (CHR '' '' # pad2 h @ r) = Some (pad2 h @ r)" for r
    using skip_spaces_pad2 [of h r] assms by simp
  show ?thesis
    using assms d by (simp add: parse_datetime_def format_datetime_def sp get_char_def in_range_def get_fraction_def)
qed

subsection \<open>time.Duration.String\<close>

text \<open>
  The text of a duration in nanoseconds, as \<open>%v\<close> and \<open>%s\<close> print it: the largest unit that keeps the leading
  number above zero, and a fraction without trailing zeros.
\<close>

definition fraction_text :: "nat \<Rightarrow> nat \<Rightarrow> string" where
  "fraction_text prec v =
     (let ds = map (\<lambda>i. char_of (48 + v div 10 ^ i mod 10)) (rev [0..<prec]);
          shown = rev (dropWhile (\<lambda>c. c = CHR ''0'') (rev ds))
      in if shown = [] then [] else CHR ''.'' # shown)"

definition duration_text :: "int \<Rightarrow> string" where
  "duration_text d =
     (let u = nat \<bar>d\<bar>; s = u div 1000000000; m = s div 60; h = m div 60;
          seconds = nat_digits (s mod 60) @ fraction_text 9 u @ ''s'';
          text = (if u = 0 then ''0s''
                  else if u < 1000 then nat_digits u @ ''ns''
                  else if u < 1000000 then nat_digits (u div 1000) @ fraction_text 3 u @ [char_of (194::nat), char_of (181::nat)] @ ''s''
                  else if s = 0 then nat_digits (u div 1000000) @ fraction_text 6 u @ ''ms''
                  else if m = 0 then seconds
                  else if h = 0 then nat_digits m @ ''m'' @ seconds
                  else nat_digits h @ ''h'' @ nat_digits (m mod 60) @ ''m'' @ seconds)
      in if d < 0 then CHR ''-'' # text else text)"

end
