(* ===== verification/Sentry.thy ===== *)
theory Sentry
  imports AppGlobals GoTime Interfaces
begin

section \<open>phsentry/phsentry.go: events for Sentry\<close>

text \<open>
  The package variables of \<^verbatim>\<open>phsentry\<close> as a record. \<open>sn_sent\<close> is the trace of the events captured by the
  client of \<^verbatim>\<open>sentry-go\<close>; the merging library \<^verbatim>\<open>mergo\<close> is a parameter (\<open>mergo\<close>). The level of a client
  option, its sample rate and so on are only passed through (\<open>co_other\<close>).
\<close>

record sentry_data =
  sd_service :: string
  sd_module :: string
  sd_function :: string

record sentry_client_options =
  co_dsn :: string
  co_environment :: string
  co_release :: string
  co_debug :: bool
  co_enable_logs :: bool
  co_other :: nat

record sentry_options =
  so_dsn :: string
  so_environment :: string
  so_release :: string
  so_debug :: bool
  so_options :: "sentry_client_options option"
  so_data :: "sentry_data option"

datatype sentry_level = LevelDebug | LevelInfo | LevelWarning | LevelError | LevelFatal

record breadcrumb =
  bc_type :: string
  bc_category :: string
  bc_message :: string
  bc_data :: sentry_data

datatype sentry_body =
    CapturedMessage string
  | CapturedException err
  | CapturedEvent nat
  | CapturedIssue string string string

record sentry_event =
  ev_level :: sentry_level
  ev_breadcrumb :: "breadcrumb option"
  ev_body :: sentry_body

record sentry_state =
  sn_data :: "sentry_data option"
  sn_client :: "nat option"
  sn_options :: "sentry_client_options option"
  sn_sent :: "sentry_event list"
  sn_fatal :: bool

record mergo =
  mg_options :: "sentry_client_options \<Rightarrow> sentry_client_options \<Rightarrow> err + sentry_client_options"
  mg_data :: "sentry_data \<Rightarrow> sentry_data \<Rightarrow> err + sentry_data"
  mg_data_override :: "sentry_data \<Rightarrow> sentry_data \<Rightarrow> err + sentry_data"

subsection \<open>Texts\<close>

text \<open>\<open>isSentryDate\<close> and \<open>isSentryTime\<close> parse with the layouts \<open>2006/01/02\<close> and \<open>15:04:05\<close>.\<close>

definition is_sentry_date :: "string \<Rightarrow> bool" where
  "is_sentry_date v = (Option.bind (get_year v) (\<lambda>(y, v).
     Option.bind (get_char (CHR ''/'') v) (\<lambda>v.
     Option.bind (in_range 1 12 (getnum_fixed v)) (\<lambda>(m, v).
     Option.bind (get_char (CHR ''/'') v) (\<lambda>v.
     Option.bind (getnum_fixed v) (\<lambda>(d, v).
       if v \<noteq> [] \<or> d < 1 \<or> d > days_in m y then None else Some ()))))) \<noteq> None)"

definition is_sentry_time :: "string \<Rightarrow> bool" where
  "is_sentry_time v = (Option.bind (in_range 0 23 (getnum_flex v)) (\<lambda>(h, v).
     Option.bind (get_char (CHR '':'') v) (\<lambda>v.
     Option.bind (in_range 0 59 (getnum_fixed v)) (\<lambda>(mi, v).
     Option.bind (get_char (CHR '':'') v) (\<lambda>v.
     Option.bind (in_range 0 59 (getnum_fixed v)) (\<lambda>(s, v).
       if snd (get_fraction v) \<noteq> [] then None else Some ()))))) \<noteq> None)"

definition normalize_sentry_diagnostic :: "string \<Rightarrow> string" where
  "normalize_sentry_diagnostic raw =
     (let msg0 = trim_space raw
      in if msg0 = [] then []
         else
           (let msg1 = trim_prefix msg0 ''[Sentry] '';
                msg2 = trim_prefix msg1 (build_log_prefix ''Sentry'' @ '' '');
                parts = split_n (CHR '' '') msg2 3;
                msg3 = (if length parts = 3 \<and> is_sentry_date (parts ! 0) \<and> is_sentry_time (parts ! 1)
                        then parts ! 2 else msg2)
            in build_log_prefix ''Sentry'' @ '' '' @ msg3))"

definition extract_log_prefix :: "string \<Rightarrow> string \<times> string" where
  "extract_log_prefix message =
     (let msg = trim_space message
      in if has_prefix msg ''['' then
           (case index_of (CHR '']'') msg of
              Some i \<Rightarrow> if i > 1 then (take (i - 1) (drop 1 msg), trim_space (drop (i + 1) msg))
                        else (''Log'', msg)
            | None \<Rightarrow> (''Log'', msg))
         else (''Log'', msg))"

definition build_sentry_title :: "globals \<Rightarrow> sentry_state \<Rightarrow> string \<Rightarrow> string" where
  "build_sentry_title g st exPrefix =
     (let env = (case sn_options st of
                   Some co \<Rightarrow> if co_environment co \<noteq> [] then co_environment co else get_app_env g
                 | None \<Rightarrow> get_app_env g)
      in ''['' @ exPrefix @ ''] [env='' @ env @ '']'')"

subsection \<open>Context and state\<close>

definition default_function_name :: string where
  "default_function_name = ''paycloud-be-func''"

definition pick :: "string \<Rightarrow> string \<Rightarrow> string" where
  "pick new old = (if new \<noteq> [] then new else old)"

definition arg_at :: "string list \<Rightarrow> nat \<Rightarrow> string" where
  "arg_at args i = (if i < length args then args ! i else [])"

definition resolve_sentry_context :: "globals \<Rightarrow> sentry_state \<Rightarrow> string list \<Rightarrow> sentry_data" where
  "resolve_sentry_context g st args =
     (let base = \<lparr>sd_service = get_app_name g, sd_module = get_app_env g,
                  sd_function = default_function_name\<rparr>;
          b1 = (case sn_data st of
                  None \<Rightarrow> base
                | Some d \<Rightarrow> \<lparr>sd_service = pick (sd_service d) (sd_service base),
                            sd_module = pick (sd_module d) (sd_module base),
                            sd_function = pick (sd_function d) (sd_function base)\<rparr>)
      in \<lparr>sd_service = pick (arg_at args 0) (sd_service b1),
          sd_module = pick (arg_at args 1) (sd_module b1),
          sd_function = pick (arg_at args 2) (sd_function b1)\<rparr>)"

definition empty_sentry_data :: sentry_data where
  "empty_sentry_data = \<lparr>sd_service = [], sd_module = [], sd_function = []\<rparr>"

text \<open>When the merge fails the data stays what the library left in it, which is the empty record.\<close>

definition NewSentryData :: "mergo \<Rightarrow> sentry_data option \<Rightarrow> sentry_state \<Rightarrow> sentry_state" where
  "NewSentryData mg dt st =
     (case dt of
        None \<Rightarrow> st
      | Some d \<Rightarrow>
          (case mg_data mg empty_sentry_data d of
             Inl e \<Rightarrow> st\<lparr>sn_data := Some empty_sentry_data\<rparr>
           | Inr m \<Rightarrow> st\<lparr>sn_data := Some m\<rparr>))"

definition default_client_options :: sentry_client_options where
  "default_client_options = \<lparr>co_dsn = [], co_environment = [], co_release = [], co_debug = False,
     co_enable_logs = True, co_other = 0\<rparr>"

definition InitSentryOptions :: "mergo \<Rightarrow> sentry_options \<Rightarrow> sentry_state \<Rightarrow> sentry_state" where
  "InitSentryOptions mg options st =
     (if so_dsn options = [] then st
      else
        (let clOpts = \<lparr>co_dsn = so_dsn options, co_environment = so_environment options,
               co_release = so_release options, co_debug = so_debug options,
               co_enable_logs = False, co_other = 0\<rparr>;
             (o1, fatal) = (case mg_options mg default_client_options clOpts of
                              Inl e \<Rightarrow> (default_client_options, True)
                            | Inr m \<Rightarrow> (m, False));
             o2 = (case so_options options of
                     None \<Rightarrow> o1
                   | Some extra \<Rightarrow> (case mg_options mg o1 extra of Inl e \<Rightarrow> o1 | Inr m \<Rightarrow> m))
         in st\<lparr>sn_options := Some o2, sn_fatal := sn_fatal st \<or> fatal\<rparr>))"

text \<open>\<open>new_client\<close> is what \<^verbatim>\<open>sentry.NewClient\<close> makes of the options; its error is a fatal log line.\<close>

definition InitSentry ::
  "mergo \<Rightarrow> (sentry_client_options \<Rightarrow> err + nat) \<Rightarrow> globals \<Rightarrow> sentry_options \<Rightarrow> sentry_state \<Rightarrow>
     nat option \<times> sentry_state" where
  "InitSentry mg new_client g options st =
     (if so_dsn options = [] then (None, st)
      else
        (let st1 = InitSentryOptions mg options st
         in case new_client (the (sn_options st1)) of
              Inl e \<Rightarrow> (None, st1\<lparr>sn_fatal := True\<rparr>)
            | Inr c \<Rightarrow>
                (let sd = \<lparr>sd_service = get_app_name g, sd_module = get_app_env g,
                           sd_function = default_function_name\<rparr>;
                     sd1 = (case so_data options of
                              None \<Rightarrow> sd
                            | Some d \<Rightarrow> (case mg_data_override mg sd d of Inl e \<Rightarrow> sd | Inr m \<Rightarrow> m))
                 in (Some c, NewSentryData mg (Some sd1) (st1\<lparr>sn_client := Some c\<rparr>)))))"

definition GetSentryClient :: "sentry_state \<Rightarrow> nat option" where
  "GetSentryClient s = sn_client s"

definition GetSentryData :: "sentry_state \<Rightarrow> sentry_data option" where
  "GetSentryData s = sn_data s"

definition GetSentryClientOptions :: "sentry_state \<Rightarrow> sentry_client_options option" where
  "GetSentryClientOptions s = sn_options s"

definition SentryEnabled :: "sentry_state \<Rightarrow> bool" where
  "SentryEnabled st \<longleftrightarrow> sn_client st \<noteq> None"

subsection \<open>Sending\<close>

definition capture_with_breadcrumb ::
  "sentry_level \<Rightarrow> string \<Rightarrow> string \<Rightarrow> string \<Rightarrow> sentry_data \<Rightarrow> sentry_body \<Rightarrow> sentry_state \<Rightarrow> sentry_state" where
  "capture_with_breadcrumb level ty category bmsg ctx body st =
     st\<lparr>sn_sent := sn_sent st @ [\<lparr>ev_level = level,
          ev_breadcrumb = Some \<lparr>bc_type = ty, bc_category = category, bc_message = bmsg, bc_data = ctx\<rparr>,
          ev_body = body\<rparr>]\<rparr>"

definition SendToSentryMessage :: "string \<Rightarrow> sentry_data \<Rightarrow> sentry_state \<Rightarrow> sentry_state" where
  "SendToSentryMessage message ctx st =
     (if message = [] \<or> sn_client st = None then st
      else capture_with_breadcrumb LevelInfo ''Info'' ''Information'' ''Details of message stack'' ctx
             (CapturedMessage message) st)"

definition SendToSentryError :: "err option \<Rightarrow> sentry_data \<Rightarrow> sentry_state \<Rightarrow> sentry_state" where
  "SendToSentryError e ctx st =
     (case e of
        None \<Rightarrow> st
      | Some x \<Rightarrow>
          (if sn_client st = None then st
           else capture_with_breadcrumb LevelError ''Error'' ''Information'' ''Details of error stack'' ctx
                  (CapturedException x) st))"

definition SendToSentryWarning :: "err option \<Rightarrow> sentry_data \<Rightarrow> sentry_state \<Rightarrow> sentry_state" where
  "SendToSentryWarning e ctx st =
     (case e of
        None \<Rightarrow> st
      | Some x \<Rightarrow>
          (if sn_client st = None then st
           else capture_with_breadcrumb LevelWarning ''Warning'' ''Information'' ''Details of warning stack''
                  ctx (CapturedException x) st))"

definition SendToSentryDebug :: "err option \<Rightarrow> sentry_data \<Rightarrow> sentry_state \<Rightarrow> sentry_state" where
  "SendToSentryDebug e ctx st =
     (case e of
        None \<Rightarrow> st
      | Some x \<Rightarrow>
          (if sn_client st = None then st
           else capture_with_breadcrumb LevelDebug ''Debug'' ''Debug'' ''Details of debug message stack'' ctx
                  (CapturedException x) st))"

definition SendToSentryEvent :: "nat option \<Rightarrow> sentry_data \<Rightarrow> sentry_state \<Rightarrow> sentry_state" where
  "SendToSentryEvent event ctx st =
     (case event of
        None \<Rightarrow> st
      | Some x \<Rightarrow>
          (if sn_client st = None then st
           else capture_with_breadcrumb LevelInfo ''Info'' ''Information'' ''Details of event stack'' ctx
                  (CapturedEvent x) st))"

text \<open>The value given to \<open>sendToSentry\<close>: a string, an error or an event. The empty case of \<open>error\<close> stays.\<close>

datatype sentry_msg = MsgText string | MsgError err | MsgEvent nat

definition send_to_sentry ::
  "globals \<Rightarrow> sentry_msg \<Rightarrow> string \<Rightarrow> string list \<Rightarrow> sentry_state \<Rightarrow> sentry_state" where
  "send_to_sentry g msg msgType args st =
     (if sn_client st = None \<or> msg = MsgText [] then st
      else
        (let ctx = resolve_sentry_context g st args
         in if msgType = ''message'' then
              (case msg of MsgText v \<Rightarrow> SendToSentryMessage v ctx st | _ \<Rightarrow> st)
            else if msgType = ''debug'' then
              (case msg of MsgError v \<Rightarrow> SendToSentryDebug (Some v) ctx st | _ \<Rightarrow> st)
            else if msgType = ''warning'' then
              (case msg of MsgError v \<Rightarrow> SendToSentryWarning (Some v) ctx st | _ \<Rightarrow> st)
            else if msgType = ''event'' then
              (case msg of MsgEvent v \<Rightarrow> SendToSentryEvent (Some v) ctx st | _ \<Rightarrow> st)
            else if msgType = ''error'' then st
            else (case msg of MsgError v \<Rightarrow> SendToSentryError (Some v) ctx st | _ \<Rightarrow> st)))"

definition SendSentryError :: "globals \<Rightarrow> err option \<Rightarrow> string list \<Rightarrow> sentry_state \<Rightarrow> sentry_state" where
  "SendSentryError g e args st =
     (case e of None \<Rightarrow> st | Some x \<Rightarrow> send_to_sentry g (MsgError x) ''error'' args st)"

definition SendSentryWarning :: "globals \<Rightarrow> err option \<Rightarrow> string list \<Rightarrow> sentry_state \<Rightarrow> sentry_state" where
  "SendSentryWarning g e args st =
     (case e of None \<Rightarrow> st | Some x \<Rightarrow> send_to_sentry g (MsgError x) ''warning'' args st)"

definition SendSentryDebug :: "globals \<Rightarrow> err option \<Rightarrow> string list \<Rightarrow> sentry_state \<Rightarrow> sentry_state" where
  "SendSentryDebug g e args st =
     (case e of None \<Rightarrow> st | Some x \<Rightarrow> send_to_sentry g (MsgError x) ''debug'' args st)"

definition SendSentryMessage :: "globals \<Rightarrow> string \<Rightarrow> string list \<Rightarrow> sentry_state \<Rightarrow> sentry_state" where
  "SendSentryMessage g msg args st =
     (if msg = [] then st else send_to_sentry g (MsgText msg) ''message'' args st)"

definition SendSentryEvent :: "globals \<Rightarrow> nat option \<Rightarrow> string list \<Rightarrow> sentry_state \<Rightarrow> sentry_state" where
  "SendSentryEvent g event args st =
     (case event of None \<Rightarrow> st | Some x \<Rightarrow> send_to_sentry g (MsgEvent x) ''event'' args st)"

subsection \<open>Log lines\<close>

definition sentry_level_for :: "string \<Rightarrow> sentry_level" where
  "sentry_level_for level =
     (if level = ''fatal'' then LevelFatal else if level = ''error'' then LevelError
      else if level = ''warn'' then LevelWarning else if level = ''info'' then LevelInfo else LevelDebug)"

definition default_breadcrumb :: "sentry_state \<Rightarrow> string \<Rightarrow> string \<Rightarrow> breadcrumb option" where
  "default_breadcrumb st level message =
     (case sn_data st of
        None \<Rightarrow> None
      | Some d \<Rightarrow> Some \<lparr>bc_type = ''default'', bc_category = level, bc_message = message, bc_data = d\<rparr>)"

definition ReceiveLog :: "globals \<Rightarrow> string \<Rightarrow> string \<Rightarrow> sentry_state \<Rightarrow> sentry_state" where
  "ReceiveLog g level message st =
     (if sn_client st = None then st
      else
        (let body = (if level = ''error'' \<or> level = ''fatal'' then
                       (let (exType, exValue) = extract_log_prefix message
                        in CapturedIssue (build_sentry_title g st exType)
                             (''['' @ level @ ''] '' @ exValue) message)
                     else CapturedMessage message)
         in st\<lparr>sn_sent := sn_sent st @ [\<lparr>ev_level = sentry_level_for level,
                 ev_breadcrumb = default_breadcrumb st level message, ev_body = body\<rparr>]\<rparr>))"

text \<open>
  \<open>ctx_hub\<close> is the hub that a middleware has put into the context, by its client (a hub may have none, and then
  drops the event). What is sent through that hub is returned beside the state.
\<close>

definition SendSentryErrorWithContext ::
  "nat option option \<Rightarrow> err option \<Rightarrow> sentry_state \<Rightarrow> (nat \<times> sentry_event) list \<times> sentry_state" where
  "SendSentryErrorWithContext ctx_hub e st =
     (case e of
        None \<Rightarrow> ([], st)
      | Some x \<Rightarrow>
          (if sn_client st = None then ([], st)
           else
             let event = \<lparr>ev_level = LevelError, ev_breadcrumb = default_breadcrumb st ''error'' x,
                   ev_body = CapturedException x\<rparr>
             in case ctx_hub of
                  None \<Rightarrow> ([], st\<lparr>sn_sent := sn_sent st @ [event]\<rparr>)
                | Some None \<Rightarrow> ([], st)
                | Some (Some c) \<Rightarrow> ([(c, event)], st)))"

subsection \<open>Flushing, and the data as a map\<close>

text \<open>
  The call \<open>Flush\<close> made to the client, if there is one: which client and how long it may wait. What it
  answers is dropped. \<open>map_into\<close> is what \<^verbatim>\<open>mergo.Map\<close> leaves in an empty map; its error is dropped too.
\<close>

definition FlushSentry :: "int \<Rightarrow> sentry_state \<Rightarrow> (nat \<times> int) option" where
  "FlushSentry timeout st = (case sn_client st of None \<Rightarrow> None | Some c \<Rightarrow> Some (c, timeout))"

definition GetSentryDataMap ::
  "(sentry_data \<Rightarrow> (string \<times> string) list) \<Rightarrow> sentry_state \<Rightarrow> (string \<times> string) list option" where
  "GetSentryDataMap map_into st = (case sn_data st of None \<Rightarrow> None | Some d \<Rightarrow> Some (map_into d))"

subsection \<open>What reaches Sentry\<close>

text \<open>
  C36. \<open>SendSentryError\<close> never sends anything: the case \<open>error\<close> of \<open>sendToSentry\<close> has no body, and a Go case
  does not fall through. With the same initialised client a warning is sent as exactly one
  exception event, with the service, module and function resolved from the arguments, the configured
  data and the application identity in this order, and so is an error that carries a request
  context: by the package's client, or through the hub of the context when it has one.
\<close>

theorem sentry_errors_are_lost:
  assumes "sn_client st = Some c"
  shows "SendSentryError g e args st = st \<and>
    sn_sent (SendSentryWarning g (Some x) args st) = sn_sent st @ [\<lparr>ev_level = LevelWarning,
      ev_breadcrumb = Some \<lparr>bc_type = ''Warning'', bc_category = ''Information'',
        bc_message = ''Details of warning stack'', bc_data = resolve_sentry_context g st args\<rparr>,
      ev_body = CapturedException x\<rparr>] \<and>
    length (sn_sent (snd (SendSentryErrorWithContext None (Some x) st))) = length (sn_sent st) + 1 \<and>
    (\<exists>event. SendSentryErrorWithContext (Some (Some h)) (Some x) st = ([(h, event)], st) \<and>
       ev_level event = LevelError \<and> ev_body event = CapturedException x)"
  using assms
  by (simp add: SendSentryError_def SendSentryWarning_def send_to_sentry_def SendToSentryWarning_def
      capture_with_breadcrumb_def SendSentryErrorWithContext_def split: option.split)

definition demo_sentry_state :: sentry_state where
  "demo_sentry_state = \<lparr>sn_data = None, sn_client = Some 1, sn_options = None, sn_sent = [], sn_fatal = False\<rparr>"

theorem sentry_errors_are_lost_witness:
  "SendSentryError \<lparr>glob_app_name = ''svc'', glob_app_env = ''dev''\<rparr> (Some ''boom'') [] demo_sentry_state =
     demo_sentry_state \<and>
   length (sn_sent (snd (SendSentryErrorWithContext None (Some ''boom'') demo_sentry_state))) = 1"
  using sentry_errors_are_lost [of demo_sentry_state 1 "\<lparr>glob_app_name = ''svc'', glob_app_env = ''dev''\<rparr>"
      "Some ''boom''" "[]" "''boom''"]
  by (simp add: demo_sentry_state_def)

lemma index_of_append: "c \<notin> set a \<Longrightarrow> index_of c (a @ c # b) = Some (length a)"
  by (induction a) auto

text \<open>A line \<open>[name] text\<close> splits into name and trimmed text.\<close>

lemma extract_log_prefix_bracketed:
  assumes "trim_space msg = ''['' @ name @ '']'' @ rest" and "name \<noteq> []" and "CHR '']'' \<notin> set name"
  shows "extract_log_prefix msg = (name, trim_space rest)"
proof -
  have "index_of (CHR '']'') (name @ CHR '']'' # rest) = Some (length name)"
    by (rule index_of_append [OF assms(3)])
  with assms(2) show ?thesis
    by (simp add: extract_log_prefix_def Let_def assms(1))
qed

text \<open>
  Issues are grouped by function: with an initialised client an error or fatal line of the form
  \<open>[name] text\<close> becomes one event whose type is \<open>[name] [env=...]\<close>, whatever the text, and whose value is
  the level and the trimmed text; two lines with the same name get the same type.
\<close>

theorem log_issue_grouping:
  assumes "sn_client st = Some c" and "level \<in> {''error'', ''fatal''}"
    and "trim_space msg = ''['' @ name @ '']'' @ rest" and "name \<noteq> []" and "CHR '']'' \<notin> set name"
  shows "ReceiveLog g level msg st = st\<lparr>sn_sent := sn_sent st @ [\<lparr>
      ev_level = (if level = ''fatal'' then LevelFatal else LevelError),
      ev_breadcrumb = default_breadcrumb st level msg,
      ev_body = CapturedIssue (build_sentry_title g st name) (''['' @ level @ ''] '' @ trim_space rest) msg\<rparr>]\<rparr>"
  using assms extract_log_prefix_bracketed [OF assms(3-5)]
  by (auto simp: ReceiveLog_def sentry_level_for_def)

theorem log_issue_grouping_witness:
  "ReceiveLog \<lparr>glob_app_name = ''svc'', glob_app_env = ''dev''\<rparr> ''error'' ''[main] down'' demo_sentry_state =
     demo_sentry_state\<lparr>sn_sent := [\<lparr>ev_level = LevelError, ev_breadcrumb = None,
       ev_body = CapturedIssue ''[main] [env=dev]'' ''[error] down'' ''[main] down''\<rparr>]\<rparr>"
proof -
  have t: "trim_space ''[main] down'' = ''['' @ ''main'' @ '']'' @ '' down''"
    by (simp add: trim_space_id ascii_space_def space2_def space3_def)
  have "space_len '' down'' = 1" "space_len ''down'' = 0"
    by (simp_all add: ascii_space_def space2_def space3_def)
  then have "trim_left '' down'' = ''down''" by (simp add: trim_left.simps)
  then have u: "trim_space '' down'' = ''down''"
    by (simp add: trim_space_def trim_rev_id ascii_space_def space2_def space3_def)
  show ?thesis
    using log_issue_grouping [OF _ _ t, of demo_sentry_state 1 "''error''"
        "\<lparr>glob_app_name = ''svc'', glob_app_env = ''dev''\<rparr>"] u
    by (simp add: demo_sentry_state_def default_breadcrumb_def build_sentry_title_def get_app_env_def)
qed

end
