(* ===== verification/SentryLog.thy ===== *)
theory SentryLog
  imports LogForward Sentry
begin

section \<open>Logger and Sentry together\<close>

text \<open>
  The logger calls Sentry through its hooks, and \<^verbatim>\<open>phsentry\<close> writes log lines of its own. A system state is
  a pair of a logger and a Sentry state; the hooks \<open>SentryForward\<close> that a log call fires are carried out on
  the Sentry state, in their order.
\<close>

subsection \<open>Log lines that go to Sentry\<close>

fun deliver :: "globals \<Rightarrow> log_event \<Rightarrow> sentry_state \<Rightarrow> sentry_state" where
  "deliver g (HookCall SentryForward level text) st = ReceiveLog g level text st"
| "deliver g _ st = st"

definition through_hooks ::
  "globals \<Rightarrow> (logger \<Rightarrow> logger) \<Rightarrow> logger \<times> sentry_state \<Rightarrow> logger \<times> sentry_state" where
  "through_hooks g call sys =
     (let lg' = call (fst sys)
      in (lg', fold (deliver g) (drop (length (lg_events (fst sys))) (lg_events lg')) (snd sys)))"

lemma deliver_line [simp]: "deliver g (GologLine level text) st = st" "deliver g ProcessExit st = st"
  by simp_all

lemma deliver_hooks:
  "fold (deliver g) (map (\<lambda>h. HookCall h level text) hs) st =
     (ReceiveLog g level text ^^ length (filter (\<lambda>h. h = SentryForward) hs)) st"
proof (induction hs arbitrary: st)
  case (Cons h hs)
  then show ?case by (cases h) (simp_all add: funpow_swap1)
qed simp

lemma deliver_line_events:
  "fold (deliver g) (line_events level text lg) st = (ReceiveLog g level text ^^ sentry_hooks lg level) st"
  by (simp add: line_events_def deliver_hooks sentry_hooks_def)

lemma through_hooks_line:
  assumes "lg_events (call lg) = lg_events lg @ (if visible then line_events level text lg else [])"
  shows "snd (through_hooks g call (lg, st)) =
    (if visible then (ReceiveLog g level text ^^ sentry_hooks lg level) st else st)"
  using assms by (simp add: through_hooks_def Let_def deliver_line_events)

text \<open>The event of a forwarded line: an issue for errors, a message for the other levels.\<close>

definition forwarded_event :: "globals \<Rightarrow> sentry_state \<Rightarrow> string \<Rightarrow> string \<Rightarrow> sentry_event" where
  "forwarded_event g st level text =
     \<lparr>ev_level = sentry_level_for level, ev_breadcrumb = default_breadcrumb st level text,
      ev_body = (if level = ''error'' \<or> level = ''fatal''
                 then CapturedIssue (build_sentry_title g st (fst (extract_log_prefix text)))
                        (''['' @ level @ ''] '' @ snd (extract_log_prefix text)) text
                 else CapturedMessage text)\<rparr>"

lemma ReceiveLog_alive:
  assumes "sn_client st = Some c"
  shows "ReceiveLog g level text st = st\<lparr>sn_sent := sn_sent st @ [forwarded_event g st level text]\<rparr>"
  using assms by (simp add: ReceiveLog_def forwarded_event_def split: prod.split)

lemma ReceiveLog_off: "sn_client st = None \<Longrightarrow> (ReceiveLog g level text ^^ n) st = st"
  by (induction n) (simp_all add: ReceiveLog_def)

lemma forwarded_event_sent [simp]: "forwarded_event g (st\<lparr>sn_sent := es\<rparr>) = forwarded_event g st"
  by (simp add: fun_eq_iff forwarded_event_def default_breadcrumb_def build_sentry_title_def)

lemma ReceiveLog_times:
  assumes "sn_client st = Some c"
  shows "(ReceiveLog g level text ^^ n) st =
    st\<lparr>sn_sent := sn_sent st @ replicate n (forwarded_event g st level text)\<rparr>"
proof (induction n)
  case (Suc n)
  then show ?case
    by (simp add: ReceiveLog_alive [where c = c] assms replicate_append_same)
qed simp

subsection \<open>Log lines of phsentry\<close>

text \<open>The writer given to the SDK calls golog directly: no hook, so no loop through Sentry.\<close>

definition sentry_diagnostic_Write :: "string \<Rightarrow> logger \<Rightarrow> int \<times> logger" where
  "sentry_diagnostic_Write p lg =
     (let msg = normalize_sentry_diagnostic p
      in (int (length p),
          if msg \<noteq> [] then add_events [GologLine ''info'' (sprintf ''%s'' [AStr msg])] lg else lg))"

definition function_log_prefix :: "string \<Rightarrow> string" where
  "function_log_prefix functionName = build_log_prefix functionName"

definition log_no_client :: "string \<Rightarrow> string \<Rightarrow> string \<Rightarrow> string \<Rightarrow> int \<Rightarrow> logger \<Rightarrow> logger" where
  "log_no_client functionName service eventType detail now lg =
     LogW ''%s Sentry client not initialized service=%s type=%s detail=%s''
       [AStr (function_log_prefix functionName), AStr service, AStr eventType, AStr detail] now lg"

text \<open>
  The five \<open>SendToSentry\<close> functions on the whole system: what they send is the model in \<open>Sentry\<close>, and
  without a client they warn, through the hooks of the logger.
\<close>

definition warn_without_client ::
  "globals \<Rightarrow> bool \<Rightarrow> string \<Rightarrow> string \<Rightarrow> string \<Rightarrow> string \<Rightarrow> int \<Rightarrow>
     (sentry_state \<Rightarrow> sentry_state) \<Rightarrow> logger \<times> sentry_state \<Rightarrow> logger \<times> sentry_state" where
  "warn_without_client g given functionName service eventType detail now send sys =
     (if given \<and> sn_client (snd sys) = None
      then through_hooks g (log_no_client functionName service eventType detail now) sys
      else (fst sys, send (snd sys)))"

definition sys_SendToSentryMessage where
  "sys_SendToSentryMessage g message ctx now =
     warn_without_client g (message \<noteq> []) ''SendToSentryMessage'' (sd_service ctx) ''message'' message now
       (SendToSentryMessage message ctx)"

definition sys_SendToSentryError where
  "sys_SendToSentryError g e ctx now =
     warn_without_client g (e \<noteq> None) ''SendToSentryError'' (sd_service ctx) ''error'' (the e) now
       (SendToSentryError e ctx)"

definition sys_SendToSentryWarning where
  "sys_SendToSentryWarning g e ctx now =
     warn_without_client g (e \<noteq> None) ''SendToSentryWarning'' (sd_service ctx) ''warning'' (the e) now
       (SendToSentryWarning e ctx)"

definition sys_SendToSentryDebug where
  "sys_SendToSentryDebug g e ctx now =
     warn_without_client g (e \<noteq> None) ''SendToSentryDebug'' (sd_service ctx) ''debug'' (the e) now
       (SendToSentryDebug e ctx)"

definition sys_SendToSentryEvent where
  "sys_SendToSentryEvent g event ctx now =
     warn_without_client g (event \<noteq> None) ''SendToSentryEvent'' (sd_service ctx) ''event'' (sd_module ctx) now
       (SendToSentryEvent event ctx)"

lemmas sys_send_defs =
  sys_SendToSentryMessage_def sys_SendToSentryError_def sys_SendToSentryWarning_def sys_SendToSentryDebug_def
  sys_SendToSentryEvent_def

text \<open>
  The warning about a missing client cannot come back: the hooks it fires reach a state without a client,
  which they leave as it is, so nothing is sent and nothing loops.
\<close>

lemma deliver_off: "sn_client st = None \<Longrightarrow> fold (deliver g) es st = st"
proof (induction es)
  case (Cons e es)
  have "deliver g e st = st" if "sn_client st = None"
    using that by (cases "(g, e, st)" rule: deliver.cases) (simp_all add: ReceiveLog_def)
  with Cons show ?case by simp
qed simp

lemma no_client_warning_not_forwarded:
  assumes "sn_client st = None"
  shows "snd (sys_SendToSentryMessage g message ctx now (lg, st)) = st"
    and "snd (sys_SendToSentryError g e ctx now (lg, st)) = st"
    and "snd (sys_SendToSentryWarning g e ctx now (lg, st)) = st"
    and "snd (sys_SendToSentryDebug g e ctx now (lg, st)) = st"
    and "snd (sys_SendToSentryEvent g event ctx now (lg, st)) = st"
  using assms
  by (auto simp: sys_send_defs warn_without_client_def through_hooks_def Let_def deliver_off
      SendToSentryMessage_def SendToSentryError_def SendToSentryWarning_def SendToSentryDebug_def
      SendToSentryEvent_def)

text \<open>
  A fatal line is handed to the client before the line is written and the process exits; nothing in
  between flushes the client, so with an asynchronous transport the event is lost.
\<close>

lemma fatal_line_captured_before_exit:
  assumes "sn_client st = Some c"
  shows "through_hooks g (LogF f args now) (lg, st) =
    (LogF f args now lg, st\<lparr>sn_sent := sn_sent st @
       replicate (sentry_hooks lg ''fatal'') (forwarded_event g st ''fatal'' (sprintf f args))\<rparr>)"
proof -
  have "drop (length (lg_events lg)) (lg_events (LogF f args now lg)) =
      map (\<lambda>h. HookCall h ''fatal'' (sprintf f args)) (lg_hooks lg ''fatal'') @
        [GologLine ''fatal'' (sprintf f args), ProcessExit]"
    by (simp add: LogF_def emit_f_def fatal_handler_def fire_hooks_eq)
  then show ?thesis
    by (simp add: through_hooks_def Let_def deliver_hooks ReceiveLog_times [OF assms]
        flip: sentry_hooks_def del: sprintf.simps)
qed

text \<open>
  C26. What forwarding does with a line. With a client, an error line sends one issue for each Sentry hook
  of its level (two where both ways of turning the forwarding on were used), whatever the sampler; an info
  line sends one message per hook exactly when the sampler lets it through, with the count of suppressed
  lines in the text. Without a client nothing is sent. The direct call \<open>LogErr\<close> and the SDK's diagnostic
  writer never send anything.
\<close>

theorem forwarded_lines:
  assumes "format_arity f = Some (length args)"
    and "sampler_check f now (lg_sampler lg) = ((allowed, n), s')"
  shows "snd (through_hooks g (LogE f args now) (lg, st)) =
      (if sn_client st = None then st else st\<lparr>sn_sent := sn_sent st @
         replicate (sentry_hooks lg ''error'') (forwarded_event g st ''error'' (sprintf f args))\<rparr>) \<and>
    snd (through_hooks g (LogI f args now) (lg, st)) =
      (if sn_client st = None \<or> \<not> allowed then st else st\<lparr>sn_sent := sn_sent st @
         replicate (sentry_hooks lg ''info'') (forwarded_event g st ''info'' (suffixed (sprintf f args) n))\<rparr>) \<and>
    snd (through_hooks g (LogErr e) (lg, st)) = st \<and>
    snd (through_hooks g (\<lambda>l. snd (sentry_diagnostic_Write p l)) (lg, st)) = st"
proof -
  have le: "lg_events (LogE f args now lg) =
      lg_events lg @ (if True then line_events ''error'' (sprintf f args) lg else [])"
    by (simp add: LogE_def)
  have li: "lg_events (LogI f args now lg) =
      lg_events lg @ (if allowed then line_events ''info'' (suffixed (sprintf f args) n) lg else [])"
    using assms by (simp add: LogI_def log_sampled_def with_suppressed_info line_events_def)
  have "snd (through_hooks g (LogErr e) (lg, st)) = st"
    by (simp add: through_hooks_def LogErr_def Let_def)
  moreover have "snd (through_hooks g (\<lambda>l. snd (sentry_diagnostic_Write p l)) (lg, st)) = st"
    by (simp add: through_hooks_def sentry_diagnostic_Write_def Let_def)
  ultimately show ?thesis
    using through_hooks_line [where call = "LogE f args now", OF le, of g st]
      through_hooks_line [where call = "LogI f args now", OF li, of g st]
    by (cases "sn_client st") (simp_all add: ReceiveLog_off ReceiveLog_times del: sprintf.simps)
qed

text \<open>Forwarding was configured twice: the error is reported twice.\<close>

definition twice_forwarded_logger :: logger where
  "twice_forwarded_logger = register_sentry_log_hook
     (configure_log_forwarding (log_forward_config_from_env (\<lambda>_. [])) demo_logger)"

theorem forwarded_lines_witness:
  "length (sn_sent (snd (through_hooks \<lparr>glob_app_name = ''svc'', glob_app_env = ''dev''\<rparr>
     (LogE ''down'' [] 0) (twice_forwarded_logger, demo_sentry_state)))) = 2"
proof -
  obtain a n s' where c: "sampler_check ''down'' 0 (lg_sampler twice_forwarded_logger) = ((a, n), s')"
    by (metis surj_pair)
  have "sentry_hooks twice_forwarded_logger ''error'' = 2"
    by (simp add: sentry_hooks_def twice_forwarded_logger_def register_sentry_log_hook_def Let_def
        configure_log_forwarding_def log_forward_config_from_env_def get_env_bool_def register_log_hook_def
        demo_logger_def)
  moreover have "sn_client demo_sentry_state = Some 1" "sn_sent demo_sentry_state = []"
    by (simp_all add: demo_sentry_state_def)
  ultimately show ?thesis
    using forwarded_lines [OF _ c, of "[]" "\<lparr>glob_app_name = ''svc'', glob_app_env = ''dev''\<rparr>" demo_sentry_state]
    by simp
qed

end
