(* ===== verification/Facade.thy ===== *)
theory Facade
  imports TraceTelemetry SentryLog
begin

section \<open>The root package: logger.go, sentry.go, init.go\<close>

text \<open>
  The functions of the root package that forward to a subpackage, by the names \<open>root_\<close> and the function's
  own. Services call these; the models of the other files call the functions they forward to.
\<close>

subsection \<open>logger.go\<close>

definition root_LogD where "root_LogD = LogD"
definition root_LogI where "root_LogI = LogI"
definition root_LogW where "root_LogW = LogW"
definition root_LogE where "root_LogE = LogE"
definition root_LogF where "root_LogF = LogF"
definition root_LogDCtx where "root_LogDCtx = LogDCtx"
definition root_LogICtx where "root_LogICtx = LogICtx"
definition root_LogWCtx where "root_LogWCtx = LogWCtx"
definition root_LogECtx where "root_LogECtx = LogECtx"
definition root_LogCtx where "root_LogCtx = WithFields"
definition root_LogIRated where "root_LogIRated = LogIRated"
definition root_LogERated where "root_LogERated = LogERated"
definition root_LogWRated where "root_LogWRated = LogWRated"
definition root_LogDRated where "root_LogDRated = LogDRated"
definition root_LogIRatedW where "root_LogIRatedW = LogIRatedW"
definition root_LogERatedW where "root_LogERatedW = LogERatedW"
definition root_LogWRatedW where "root_LogWRatedW = LogWRatedW"
definition root_LogDRatedW where "root_LogDRatedW = LogDRatedW"
definition root_InitializeSampler where "root_InitializeSampler = InitializeSampler"
definition root_SamplerConfigForEnv where "root_SamplerConfigForEnv = sampler_config_for_env"
definition root_SamplerConfigFromAppEnv where "root_SamplerConfigFromAppEnv = sampler_config_from_app_env"
definition root_NewLogContext where "root_NewLogContext = new_log_context"
definition root_RegisterMetricsHook where "root_RegisterMetricsHook = register_metrics_hook"
definition root_IncrementMetric where "root_IncrementMetric = increment_metric"
definition root_IncrementMetricBy where "root_IncrementMetricBy = increment_metric_by"
definition root_NewKeyedLimiter where "root_NewKeyedLimiter = new_keyed_limiter"
definition root_InitializeLogger where "root_InitializeLogger = InitializeLogger"
definition root_LogSetLevel where "root_LogSetLevel = LogSetLevel"
definition root_LogJ where "root_LogJ = LogJ"
definition root_LogJI where "root_LogJI = LogJI"
definition root_LogErr where "root_LogErr = LogErr"
definition root_LogForwardConfigFromEnv where "root_LogForwardConfigFromEnv = log_forward_config_from_env"

subsection \<open>init.go and log_prefix.go\<close>

definition root_GetAppName where "root_GetAppName = get_app_name"
definition root_GetAppEnv where "root_GetAppEnv = get_app_env"
definition root_SetAppName where "root_SetAppName = set_app_name"
definition root_SetAppEnv where "root_SetAppEnv = set_app_env"
definition root_buildLogPrefix where "root_buildLogPrefix = build_log_prefix"

subsection \<open>sentry.go\<close>

definition root_NewSentryData where "root_NewSentryData = NewSentryData"
definition root_InitSentryOptions where "root_InitSentryOptions = InitSentryOptions"
definition root_InitSentry where "root_InitSentry = InitSentry"
definition root_SendToSentryMessage where "root_SendToSentryMessage = SendToSentryMessage"
definition root_SendToSentryError where "root_SendToSentryError = SendToSentryError"
definition root_SendToSentryWarning where "root_SendToSentryWarning = SendToSentryWarning"
definition root_SendToSentryDebug where "root_SendToSentryDebug = SendToSentryDebug"
definition root_SendToSentryEvent where "root_SendToSentryEvent = SendToSentryEvent"
definition root_SendSentryError where "root_SendSentryError = SendSentryError"
definition root_SendSentryWarning where "root_SendSentryWarning = SendSentryWarning"
definition root_SendSentryDebug where "root_SendSentryDebug = SendSentryDebug"
definition root_SendSentryMessage where "root_SendSentryMessage = SendSentryMessage"
definition root_SendSentryEvent where "root_SendSentryEvent = SendSentryEvent"
definition root_GetSentryClient where "root_GetSentryClient = GetSentryClient"
definition root_GetSentryData where "root_GetSentryData = GetSentryData"
definition root_GetSentryClientOptions where "root_GetSentryClientOptions = GetSentryClientOptions"
definition root_SentryEnabled where "root_SentryEnabled = SentryEnabled"
definition root_FlushSentry where "root_FlushSentry = FlushSentry"
definition root_SendSentryErrorWithContext where "root_SendSentryErrorWithContext = SendSentryErrorWithContext"

lemmas root_defs =
  root_LogD_def root_LogI_def root_LogW_def root_LogE_def root_LogF_def root_LogDCtx_def root_LogICtx_def
  root_LogWCtx_def root_LogECtx_def

text \<open>Without a span the trace-aware calls are the plain ones, and record nothing.\<close>

lemma ctx_calls_without_span:
  assumes "trace_fields sl ctx = ([], [])" and "\<And>c. ctx = Some c \<Longrightarrow> \<not> sl_recording sl c"
  shows "root_LogDCtx sl ctx format args now st = on_logger (root_LogD format args now) st"
    and "root_LogICtx sl ctx format args now st = on_logger (root_LogI format args now) st"
    and "root_LogWCtx sl ctx format args now st = on_logger (root_LogW format args now) st"
    and "root_LogECtx sl ctx format args now st = on_logger (root_LogE format args now) st"
  using assms
  by (auto simp: root_defs LogDCtx_def LogICtx_def LogWCtx_def LogECtx_def build_prefix_def record_span_error_def
      Let_def split: option.split)

end
