(* ===== verification/Amqp.thy ===== *)
theory Amqp
  imports AppGlobals Interfaces
begin

section \<open>amqp.go: the recovering AMQP client, its operations\<close>

text \<open>
  \<open>AmqpClient\<close> as a record; connections and channels of \<^verbatim>\<open>amqp091-go\<close> are numbered handles, and what the
  broker and the library answer is an argument of the operation that asks. The hooks named
  \<open>...ForTest\<close> (nil outside the package's tests) are left out. Each operation is one step under the
  client's mutex; runtime panics are values.
\<close>

type_synonym conn_id = nat
type_synonym chan_id = nat

datatype amqp_err =
    ErrNotConnected
  | ErrAlreadyClosed
  | ErrShutdown
  | ErrBroker err
  | ErrPushNotConnected
  | ErrPushTimeout int amqp_err
  | ErrConfirmTimeout int
  | ErrPushRetries int
  | ErrOpenChannel

text \<open>\<open>amqp.Config\<close>: the properties table may be nil.\<close>

record amqp_config =
  ac_properties :: "(string \<rightharpoonup> string) option"
  ac_insecure_tls :: bool
  ac_heartbeat :: int

record amqp_client =
  conn_name :: string
  queue_name :: string
  consumer_name :: string
  connection :: "conn_id option"
  channel :: "chan_id option"
  done_closed :: bool
  is_ready :: bool
  client_config :: "amqp_config option"

subsection \<open>Construction and configuration\<close>

text \<open>The accessor hands out the channel, nil when there is none.\<close>

definition Channel :: "amqp_client \<Rightarrow> chan_id option" where
  "Channel c = channel c"

definition default_amqp_client :: amqp_client where
  "default_amqp_client =
     \<lparr>conn_name = [], queue_name = [], consumer_name = [], connection = None, channel = None,
      done_closed = False, is_ready = False, client_config = None\<rparr>"

definition default_amqp_config :: "globals \<Rightarrow> amqp_config" where
  "default_amqp_config g =
     \<lparr>ac_properties = Some [''connection_name'' \<mapsto> ''amqp-'' @ get_app_name g],
      ac_insecure_tls = True, ac_heartbeat = 5 * Second\<rparr>"

definition set_amqp_config :: "amqp_config \<Rightarrow> amqp_client \<Rightarrow> amqp_client" where
  "set_amqp_config cfg c = c\<lparr>client_config := Some cfg\<rparr>"

definition ConnName :: "globals \<Rightarrow> amqp_client \<Rightarrow> string \<times> amqp_client" where
  "ConnName g c =
     (let c' = (if conn_name c = [] then c\<lparr>conn_name := ''amqp-'' @ get_app_name g\<rparr> else c)
      in (conn_name c', c'))"

text \<open>Writing to the table of a configuration without one is a panic.\<close>

definition AmqpConfig :: "globals \<Rightarrow> amqp_client \<Rightarrow> panic + (amqp_config \<times> amqp_client)" where
  "AmqpConfig g c =
     (let cfg = (case client_config c of None \<Rightarrow> default_amqp_config g | Some cfg \<Rightarrow> cfg) in
      if conn_name c \<noteq> [] then
        (case ac_properties cfg of
           None \<Rightarrow> Inl NilMapWrite
         | Some p \<Rightarrow>
             (let cfg' = cfg\<lparr>ac_properties := Some (p(''connection_name'' \<mapsto> conn_name c))\<rparr>
              in Inr (cfg', c\<lparr>client_config := Some cfg'\<rparr>)))
      else Inr (cfg, c\<lparr>client_config := Some cfg\<rparr>))"

text \<open>\<open>NewAmqpClient\<close> builds the client; the goroutine it starts is the lifecycle of the next theory.\<close>

definition NewAmqpClient :: "string \<Rightarrow> string \<Rightarrow> amqp_config option \<Rightarrow> amqp_client" where
  "NewAmqpClient queueName connName config =
     (let client = default_amqp_client\<lparr>queue_name := queueName, conn_name := connName\<rparr>
      in case config of None \<Rightarrow> client | Some cfg \<Rightarrow> set_amqp_config cfg client)"

definition NewAmqp :: "globals \<Rightarrow> amqp_client option \<Rightarrow> amqp_client option" where
  "NewAmqp g c0 =
     (case c0 of
        None \<Rightarrow> None
      | Some c \<Rightarrow>
          Some (if client_config c = None then set_amqp_config (default_amqp_config g) c else c))"

subsection \<open>Delays\<close>

definition reconnect_delay :: int where "reconnect_delay = 5 * Second"
definition reinit_delay :: int where "reinit_delay = 2 * Second"
definition resend_delay :: int where "resend_delay = 5 * Second"

text \<open>The arguments are the test overrides, 0 in production.\<close>

definition amqp_reconnect_sleep :: "int \<Rightarrow> int" where
  "amqp_reconnect_sleep ns = (if 0 < ns then ns else reconnect_delay)"

definition amqp_reinit_sleep :: "int \<Rightarrow> int" where
  "amqp_reinit_sleep ns = (if 0 < ns then ns else reinit_delay)"

definition amqp_resend_sleep :: "int \<Rightarrow> int" where
  "amqp_resend_sleep ns = (if 0 < ns then ns else resend_delay)"

subsection \<open>Channel initialisation\<close>

text \<open>What the broker answers during one \<open>init\<close>.\<close>

record init_replies =
  ir_channel :: "err + chan_id option"
  ir_confirm :: "err option"
  ir_passive :: "err option"
  ir_channel2 :: "err + chan_id option"
  ir_confirm2 :: "err option"
  ir_declare :: "err option"

definition check_if_queue_exists :: "chan_id option \<Rightarrow> err option \<Rightarrow> bool \<times> amqp_err option" where
  "check_if_queue_exists ch passive =
     (case ch of
        None \<Rightarrow> (False, Some ErrOpenChannel)
      | Some _ \<Rightarrow>
          (case passive of None \<Rightarrow> (True, None) | Some e \<Rightarrow> (False, Some (ErrBroker e))))"

definition change_connection :: "conn_id \<Rightarrow> amqp_client \<Rightarrow> amqp_client" where
  "change_connection conn c = c\<lparr>connection := Some conn\<rparr>"

definition change_channel :: "chan_id option \<Rightarrow> amqp_client \<Rightarrow> amqp_client" where
  "change_channel ch c = c\<lparr>channel := ch\<rparr>"

definition ready_with :: "chan_id option \<Rightarrow> amqp_client \<Rightarrow> amqp_client" where
  "ready_with ch c = (change_channel ch c)\<lparr>is_ready := True\<rparr>"

text \<open>
  \<open>init\<close>: open a channel in confirm mode; when the passive declaration fails the broker has closed it,
  so open a second one and declare the queue. The second component says whether the queue was declared.
\<close>

definition amqp_init :: "init_replies \<Rightarrow> amqp_client \<Rightarrow> (err option \<times> bool) \<times> amqp_client" where
  "amqp_init r c =
     (case ir_channel r of
        Inl e \<Rightarrow> ((Some e, False), c)
      | Inr ch \<Rightarrow>
        (case ir_confirm r of
           Some e \<Rightarrow> ((Some e, False), c)
         | None \<Rightarrow>
           (let (ex, errEx) = check_if_queue_exists ch (ir_passive r) in
            if \<not> ex \<or> errEx \<noteq> None then
              (case ir_channel2 r of
                 Inl e \<Rightarrow> ((Some e, False), c)
               | Inr ch2 \<Rightarrow>
                 (case ir_confirm2 r of
                    Some e \<Rightarrow> ((Some e, False), c)
                  | None \<Rightarrow>
                    (case ir_declare r of
                       Some e \<Rightarrow> ((Some e, True), c)
                     | None \<Rightarrow> ((None, True), ready_with ch2 c))))
            else ((None, False), ready_with ch c))))"

text \<open>The library never hands out a nil channel without an error.\<close>

definition replies_ok :: "init_replies \<Rightarrow> bool" where
  "replies_ok r \<longleftrightarrow> ir_channel r \<noteq> Inr None \<and> ir_channel2 r \<noteq> Inr None"

lemma amqp_init_failure_keeps: "amqp_init r c = ((Some e, d), c') \<Longrightarrow> c' = c"
  by (auto simp: amqp_init_def split: sum.splits option.splits prod.splits if_splits)

lemma amqp_init_success:
  assumes "amqp_init r c = ((None, d), c')" and "replies_ok r"
  shows "is_ready c' \<and> (\<exists>ch. c' = ready_with (Some ch) c) \<and>
    (d \<longleftrightarrow> ir_passive r \<noteq> None) \<and> (d \<longrightarrow> ir_declare r = None)"
  using assms
  by (auto simp: amqp_init_def replies_ok_def check_if_queue_exists_def ready_with_def
      split: sum.splits option.splits prod.splits if_splits)

end
