(* ===== verification/AmqpOps.thy ===== *)
theory AmqpOps
  imports Amqp
begin

section \<open>amqp.go: publishing, consuming, closing\<close>

text \<open>
  The operations callers use. \<open>Push\<close> is a bounded retry loop; what happens in one attempt (the readiness
  seen, the broker's answer, which case of each \<open>select\<close> fires) is one element of an \<open>attempt\<close> sequence.
\<close>

subsection \<open>Readiness\<close>

definition IsReady :: "amqp_client \<Rightarrow> bool" where
  "IsReady c = is_ready c"

text \<open>
  \<open>WaitForReady\<close>: each poll is a pair of the readiness seen and whether the deadline case fires next;
  \<open>None\<close> means that the sequence of polls ended while the call was still waiting.
\<close>

fun wait_for_ready :: "(bool \<times> bool) list \<Rightarrow> bool option" where
  "wait_for_ready [] = None"
| "wait_for_ready ((ready, deadline) # polls) =
     (if ready then Some True else if deadline then Some False else wait_for_ready polls)"

lemma wait_for_ready_returns: "(r, True) \<in> set polls \<Longrightarrow> \<exists>b. wait_for_ready polls = Some b"
  by (induction polls rule: wait_for_ready.induct) auto

lemma wait_for_ready_True: "wait_for_ready polls = Some True \<Longrightarrow> \<exists>d. (True, d) \<in> set polls"
  by (induction polls rule: wait_for_ready.induct) (auto split: if_splits)

subsection \<open>Publishing\<close>

record publishing =
  pub_content_type :: string
  pub_body :: string
  pub_expiration :: string

text \<open>A message handed to the library: routing key (the queue name) and contents.\<close>

type_synonym sent = "(string \<times> publishing) list"

definition PushWithTTL :: "(string \<Rightarrow> publishing \<Rightarrow> err option) \<Rightarrow> string \<Rightarrow> string \<Rightarrow>
    amqp_client \<Rightarrow> (panic + amqp_err option) \<times> sent" where
  "PushWithTTL publish data ttl c =
     (if \<not> is_ready c then (Inr (Some ErrNotConnected), [])
      else
        let pub0 = \<lparr>pub_content_type = ''application/json'', pub_body = data, pub_expiration = []\<rparr>;
            pub = (if ttl \<noteq> [] then pub0\<lparr>pub_expiration := ttl\<rparr> else pub0)
        in case channel c of
             None \<Rightarrow> (Inl NilDereference, [])
           | Some _ \<Rightarrow>
               (Inr (map_option ErrBroker (publish (queue_name c) pub)), [(queue_name c, pub)]))"

definition UnsafePush :: "(string \<Rightarrow> publishing \<Rightarrow> err option) \<Rightarrow> string \<Rightarrow>
    amqp_client \<Rightarrow> (panic + amqp_err option) \<times> sent" where
  "UnsafePush publish data c = PushWithTTL publish data ''60000'' c"

datatype wait_choice = WaitDone | WaitDeadline | WaitResend
datatype confirm_choice = Confirmation nat bool | ConfirmDeadline | ConfirmDone

text \<open>
  One attempt of \<open>Push\<close>: the client as the reconnecting goroutine has left it, the result of the
  publication, the case taken after a failed publication and the case taken while waiting for the
  confirmation (its delivery tag and whether it is an acknowledgement).
\<close>

record attempt =
  at_client :: amqp_client
  at_publish :: "err option"
  at_wait :: wait_choice
  at_confirm :: confirm_choice

fun push_loop :: "int \<Rightarrow> int \<Rightarrow> string \<Rightarrow> nat \<Rightarrow> attempt list \<Rightarrow>
    ((panic + amqp_err option) \<times> sent) option" where
  "push_loop mx tmo data 0 ats = Some (Inr (Some (ErrPushRetries mx)), [])"
| "push_loop mx tmo data (Suc n) [] = None"
| "push_loop mx tmo data (Suc n) (a # ats) =
     (let (res, s) = UnsafePush (\<lambda>_ _. at_publish a) data (at_client a) in
      case res of
        Inl p \<Rightarrow> Some (Inl p, s)
      | Inr (Some e) \<Rightarrow>
          (case at_wait a of
             WaitDone \<Rightarrow> Some (Inr (Some ErrShutdown), s)
           | WaitDeadline \<Rightarrow> Some (Inr (Some (ErrPushTimeout tmo e)), s)
           | WaitResend \<Rightarrow> map_option (\<lambda>(r, s'). (r, s @ s')) (push_loop mx tmo data n ats))
      | Inr None \<Rightarrow>
          (case at_confirm a of
             Confirmation tag ack \<Rightarrow>
               (if ack then Some (Inr None, s)
                else map_option (\<lambda>(r, s'). (r, s @ s')) (push_loop mx tmo data n ats))
           | ConfirmDeadline \<Rightarrow> Some (Inr (Some (ErrConfirmTimeout tmo)), s)
           | ConfirmDone \<Rightarrow> Some (Inr (Some ErrShutdown), s)))"

text \<open>\<open>PushMaxRetries\<close> and \<open>PushTimeout\<close> are package variables, hence arguments.\<close>

definition Push :: "int \<Rightarrow> int \<Rightarrow> string \<Rightarrow> amqp_client \<Rightarrow> attempt list \<Rightarrow>
    ((panic + amqp_err option) \<times> sent) option" where
  "Push maxRetries tmo data c ats =
     (if \<not> is_ready c then Some (Inr (Some ErrPushNotConnected), [])
      else push_loop maxRetries tmo data (nat maxRetries) ats)"

subsection \<open>Consuming and closing\<close>

text \<open>\<open>qos\<close> and \<open>consume\<close> are the library's answers; the result is the delivery channel or an error.\<close>

definition Consume :: "err option \<Rightarrow> err + 'd \<Rightarrow> amqp_client \<Rightarrow> panic + (amqp_err + 'd)" where
  "Consume qos consume c =
     (if \<not> is_ready c then Inr (Inl ErrNotConnected)
      else case channel c of
        None \<Rightarrow> Inl NilDereference
      | Some _ \<Rightarrow>
          (case qos of
             Some e \<Rightarrow> Inr (Inl (ErrBroker e))
           | None \<Rightarrow> (case consume of Inl e \<Rightarrow> Inr (Inl (ErrBroker e)) | Inr d \<Rightarrow> Inr (Inr d))))"

definition Close :: "err option \<Rightarrow> err option \<Rightarrow> amqp_client \<Rightarrow> (panic + amqp_err option) \<times> amqp_client" where
  "Close chan_close conn_close c =
     (if \<not> is_ready c then (Inr (Some ErrAlreadyClosed), c)
      else if done_closed c then (Inl CloseOfClosedChannel, c)
      else
        let c1 = c\<lparr>done_closed := True\<rparr> in
        if channel c = None then (Inl NilDereference, c1)
        else case chan_close of
          Some e \<Rightarrow> (Inr (Some (ErrBroker e)), c1)
        | None \<Rightarrow>
            (if connection c = None then (Inl NilDereference, c1)
             else case conn_close of
               Some e \<Rightarrow> (Inr (Some (ErrBroker e)), c1)
             | None \<Rightarrow> (Inr None, c1\<lparr>is_ready := False\<rparr>)))"

text \<open>\<open>Cc\<close> closes both handles, ignores their answers and changes nothing in the client.\<close>

definition Cc :: "amqp_client \<Rightarrow> (panic + amqp_err option) \<times> amqp_client" where
  "Cc c = (if channel c = None \<or> connection c = None then Inl NilDereference else Inr None, c)"

subsection \<open>What Push guarantees\<close>

lemma PushWithTTL_ready:
  assumes "is_ready c" and "channel c = Some h"
  shows "PushWithTTL publish data ttl c =
    (let wire = \<lparr>pub_content_type = ''application/json'', pub_body = data, pub_expiration = ttl\<rparr>
     in (Inr (map_option ErrBroker (publish (queue_name c) wire)), [(queue_name c, wire)]))"
  using assms by (cases ttl) (simp_all add: PushWithTTL_def Let_def)

lemma UnsafePush_cases:
  obtains (notready) "\<not> is_ready c" "UnsafePush publish data c = (Inr (Some ErrNotConnected), [])"
  | (nochan) "is_ready c" "channel c = None" "UnsafePush publish data c = (Inl NilDereference, [])"
  | (sent) ch where "is_ready c" "channel c = Some ch"
      "UnsafePush publish data c =
        (Inr (map_option ErrBroker (publish (queue_name c)
           \<lparr>pub_content_type = ''application/json'', pub_body = data, pub_expiration = ''60000''\<rparr>)),
         [(queue_name c, \<lparr>pub_content_type = ''application/json'', pub_body = data,
           pub_expiration = ''60000''\<rparr>)])"
  by (cases "is_ready c"; cases "channel c")
    (auto simp: UnsafePush_def PushWithTTL_def Let_def)

text \<open>The attempt that decides the result, with the ones that were retried before it.\<close>

definition acked :: "attempt \<Rightarrow> bool" where
  "acked a \<longleftrightarrow> is_ready (at_client a) \<and> channel (at_client a) \<noteq> None \<and> at_publish a = None \<and>
     (\<exists>tag. at_confirm a = Confirmation tag True)"

definition retried :: "attempt \<Rightarrow> bool" where
  "retried a \<longleftrightarrow>
     (if is_ready (at_client a) \<and> at_publish a = None
      then channel (at_client a) \<noteq> None \<and> (\<exists>tag. at_confirm a = Confirmation tag False)
      else (is_ready (at_client a) \<longrightarrow> channel (at_client a) \<noteq> None) \<and> at_wait a = WaitResend)"

definition publications :: "attempt list \<Rightarrow> nat" where
  "publications ats = length (filter (\<lambda>a. is_ready (at_client a)) ats)"

definition attempt_sent :: "string \<Rightarrow> attempt \<Rightarrow> sent" where
  "attempt_sent data a = snd (UnsafePush (\<lambda>_ _. at_publish a) data (at_client a))"

lemma push_loop_acked:
  "acked a \<Longrightarrow> push_loop mx tmo data (Suc n) (a # ats) = Some (Inr None, attempt_sent data a)"
  by (cases rule: UnsafePush_cases [of "at_client a" "\<lambda>_ _. at_publish a" data])
    (auto simp: acked_def attempt_sent_def)

lemma push_loop_retried:
  "retried a \<Longrightarrow> push_loop mx tmo data (Suc n) (a # ats) =
     map_option (\<lambda>(r, s). (r, attempt_sent data a @ s)) (push_loop mx tmo data n ats)"
  by (cases rule: UnsafePush_cases [of "at_client a" "\<lambda>_ _. at_publish a" data];
      cases "at_publish a")
    (auto simp: retried_def attempt_sent_def split: if_splits)

lemma push_loop_stopped:
  assumes "\<not> acked a" and "\<not> retried a"
  obtains r where "push_loop mx tmo data (Suc n) (a # ats) = Some (r, attempt_sent data a)" and "r \<noteq> Inr None"
proof -
  have "\<exists>r. push_loop mx tmo data (Suc n) (a # ats) = Some (r, attempt_sent data a) \<and> r \<noteq> Inr None"
    using assms
    by (cases rule: UnsafePush_cases [of "at_client a" "\<lambda>_ _. at_publish a" data];
        cases "at_publish a"; cases "at_confirm a"; cases "at_wait a")
      (auto simp: acked_def retried_def attempt_sent_def)
  then show thesis using that by blast
qed

text \<open>A successful run: retried attempts, then an acknowledged one, within the bound.\<close>

definition success_run :: "string \<Rightarrow> nat \<Rightarrow> attempt list \<Rightarrow> sent \<Rightarrow> bool" where
  "success_run data n ats s \<longleftrightarrow>
     (\<exists>pre a post. ats = pre @ a # post \<and> length pre < n \<and> (\<forall>x \<in> set pre. retried x) \<and>
       acked a \<and> s = concat (map (attempt_sent data) (pre @ [a])))"

lemma success_run_Nil: "\<not> success_run data n [] s"
  by (simp add: success_run_def)

lemma success_run_zero: "\<not> success_run data 0 ats s"
  by (simp add: success_run_def)

lemma acked_not_retried: "acked a \<Longrightarrow> \<not> retried a"
  by (auto simp: acked_def retried_def)

lemma success_run_acked:
  assumes "acked a"
  shows "success_run data (Suc n) (a # rest) s \<longleftrightarrow> s = attempt_sent data a"
proof
  assume "success_run data (Suc n) (a # rest) s"
  then obtain pre b post where d: "a # rest = pre @ b # post" "\<forall>x \<in> set pre. retried x"
      "s = concat (map (attempt_sent data) (pre @ [b]))"
    by (auto simp: success_run_def)
  have "pre = []" using d(1,2) acked_not_retried [OF assms] by (cases pre) auto
  with d show "s = attempt_sent data a" by simp
next
  assume "s = attempt_sent data a"
  with assms show "success_run data (Suc n) (a # rest) s"
    unfolding success_run_def by (intro exI [of _ "[]"] exI [of _ a] exI [of _ rest]) simp
qed

lemma success_run_retried:
  assumes "retried a"
  shows "success_run data (Suc n) (a # rest) s \<longleftrightarrow>
    (\<exists>s'. s = attempt_sent data a @ s' \<and> success_run data n rest s')"
proof
  assume "success_run data (Suc n) (a # rest) s"
  then obtain pre b post where d: "a # rest = pre @ b # post" "length pre < Suc n"
      "\<forall>x \<in> set pre. retried x" "acked b" "s = concat (map (attempt_sent data) (pre @ [b]))"
    unfolding success_run_def by blast
  have "pre \<noteq> []" using d(1,4) acked_not_retried assms by (cases pre) auto
  then obtain pre' where pre: "pre = a # pre'" using d(1) by (cases pre) auto
  have "success_run data n rest (concat (map (attempt_sent data) (pre' @ [b])))"
    unfolding success_run_def using d pre
    by (intro exI [of _ pre'] exI [of _ b] exI [of _ post]) simp
  then show "\<exists>s'. s = attempt_sent data a @ s' \<and> success_run data n rest s'"
    using d(5) pre by auto
next
  assume "\<exists>s'. s = attempt_sent data a @ s' \<and> success_run data n rest s'"
  then obtain pre b post where d: "rest = pre @ b # post" "length pre < n"
      "\<forall>x \<in> set pre. retried x" "acked b"
      "s = attempt_sent data a @ concat (map (attempt_sent data) (pre @ [b]))"
    unfolding success_run_def by blast
  then show "success_run data (Suc n) (a # rest) s"
    unfolding success_run_def using assms
    by (intro exI [of _ "a # pre"] exI [of _ b] exI [of _ post]) simp
qed

lemma success_run_stopped:
  assumes "\<not> acked a" and "\<not> retried a"
  shows "\<not> success_run data n (a # rest) s"
proof
  assume "success_run data n (a # rest) s"
  then obtain pre b post where "a # rest = pre @ b # post" "\<forall>x \<in> set pre. retried x" "acked b"
    by (auto simp: success_run_def)
  with assms show False by (cases pre) auto
qed

lemma push_loop_success:
  "push_loop mx tmo data n ats = Some (Inr None, s) \<longleftrightarrow> success_run data n ats s"
proof (induction n arbitrary: ats s)
  case 0
  then show ?case by (simp add: success_run_zero)
next
  case (Suc n)
  show ?case
  proof (cases ats)
    case Nil
    then show ?thesis by (simp add: success_run_Nil)
  next
    case (Cons a rest)
    consider "acked a" | "retried a" | "\<not> acked a" "\<not> retried a" by blast
    then show ?thesis
    proof cases
      case 1
      then show ?thesis unfolding Cons success_run_acked [OF 1] push_loop_acked [OF 1] by auto
    next
      case 2
      have "push_loop mx tmo data (Suc n) (a # rest) = Some (Inr None, s) \<longleftrightarrow>
          (\<exists>s'. s = attempt_sent data a @ s' \<and> push_loop mx tmo data n rest = Some (Inr None, s'))"
        unfolding push_loop_retried [OF 2] by auto
      then show ?thesis unfolding Cons success_run_retried [OF 2] Suc.IH .
    next
      case 3
      obtain r where "push_loop mx tmo data (Suc n) (a # rest) = Some (r, attempt_sent data a)"
          "r \<noteq> Inr None"
        using push_loop_stopped [OF 3] .
      then show ?thesis
        using success_run_stopped [OF 3] by (simp add: Cons del: push_loop.simps)
    qed
  qed
qed

text \<open>
  C1. \<open>Push\<close> reports success exactly when the client was ready at the call and, within the first
  \<open>PushMaxRetries\<close> attempts, some attempt was published and acknowledged while every attempt before it
  failed in a way that is retried (a publication error followed by the resend delay, or a negative
  acknowledgement); what was handed to the broker is then the message once per attempt that found
  the client ready, the acknowledged one last.
\<close>

theorem push_success_characterisation:
  "Push maxRetries tmo data c ats = Some (Inr None, s) \<longleftrightarrow>
    is_ready c \<and>
    (\<exists>pre a post. ats = pre @ a # post \<and> int (length pre) < maxRetries \<and>
       (\<forall>x \<in> set pre. retried x) \<and> acked a \<and> s = concat (map (attempt_sent data) (pre @ [a])))"
proof -
  have "int (length pre) < maxRetries \<longleftrightarrow> length pre < nat maxRetries" for pre :: "attempt list"
    by arith
  then show ?thesis
    by (simp add: Push_def push_loop_success success_run_def)
qed

text \<open>What a concrete successful run looks like: a failed publication, a negative and a positive reply.\<close>

definition ready_client :: amqp_client where
  "ready_client = default_amqp_client\<lparr>queue_name := ''q'', connection := Some 0, channel := Some 1,
     is_ready := True\<rparr>"

definition demo_attempts :: "attempt list" where
  "demo_attempts =
     [\<lparr>at_client = ready_client, at_publish = Some ''down'', at_wait = WaitResend, at_confirm = ConfirmDone\<rparr>,
      \<lparr>at_client = ready_client, at_publish = None, at_wait = WaitResend, at_confirm = Confirmation 1 False\<rparr>,
      \<lparr>at_client = ready_client, at_publish = None, at_wait = WaitResend, at_confirm = Confirmation 2 True\<rparr>]"

theorem push_success_characterisation_witness:
  "\<exists>s. Push 3 15 ''m'' ready_client demo_attempts = Some (Inr None, s) \<and> length s = 3"
proof -
  define s where "s = concat (map (attempt_sent ''m'') demo_attempts)"
  have "Push 3 15 ''m'' ready_client demo_attempts = Some (Inr None, s)"
    unfolding push_success_characterisation
    by (intro conjI exI [of _ "take 2 demo_attempts"] exI [of _ "demo_attempts ! 2"] exI [of _ "[]"])
      (simp_all add: demo_attempts_def ready_client_def retried_def acked_def s_def)
  moreover have "length s = 3"
    by (simp add: s_def demo_attempts_def attempt_sent_def UnsafePush_def PushWithTTL_def
        ready_client_def Let_def)
  ultimately show ?thesis by blast
qed

subsection \<open>Push returns, and publishes at most PushMaxRetries times\<close>

lemma attempt_sent_length: "length (attempt_sent data a) \<le> 1"
  by (cases rule: UnsafePush_cases [of "at_client a" "\<lambda>_ _. at_publish a" data])
    (auto simp: attempt_sent_def)

lemma push_loop_returns:
  "n \<le> length ats \<Longrightarrow> \<exists>r s. push_loop mx tmo data n ats = Some (r, s) \<and> length s \<le> n"
proof (induction n arbitrary: ats)
  case 0
  then show ?case by simp
next
  case (Suc n)
  then obtain a rest where ats: "ats = a # rest" and n: "n \<le> length rest" by (cases ats) auto
  obtain r s where r: "push_loop mx tmo data n rest = Some (r, s)" "length s \<le> n"
    using Suc.IH [OF n] by blast
  consider "acked a" | "retried a" | "\<not> acked a" "\<not> retried a" by blast
  then show ?case
  proof cases
    case 1
    then show ?thesis
      using attempt_sent_length [of data a] by (auto simp: ats push_loop_acked simp del: push_loop.simps)
  next
    case 2
    then show ?thesis
      using attempt_sent_length [of data a] r
      by (auto simp: ats push_loop_retried simp del: push_loop.simps)
  next
    case 3
    obtain q where "push_loop mx tmo data (Suc n) (a # rest) = Some (q, attempt_sent data a)"
      using push_loop_stopped [OF 3] by blast
    moreover have "length (attempt_sent data a) \<le> Suc n"
      using attempt_sent_length [of data a] by simp
    ultimately show ?thesis unfolding ats by blast
  qed
qed

text \<open>How an attempt ends the call: the closed done channel, or one of the two deadlines.\<close>

definition shut_down :: "attempt \<Rightarrow> bool" where
  "shut_down a \<longleftrightarrow>
     (if is_ready (at_client a) \<and> at_publish a = None
      then channel (at_client a) \<noteq> None \<and> at_confirm a = ConfirmDone
      else (is_ready (at_client a) \<longrightarrow> channel (at_client a) \<noteq> None) \<and> at_wait a = WaitDone)"

definition timed_out :: "attempt \<Rightarrow> bool" where
  "timed_out a \<longleftrightarrow>
     (if is_ready (at_client a) \<and> at_publish a = None
      then channel (at_client a) \<noteq> None \<and> at_confirm a = ConfirmDeadline
      else (is_ready (at_client a) \<longrightarrow> channel (at_client a) \<noteq> None) \<and> at_wait a = WaitDeadline)"

lemma push_loop_shut_down:
  "shut_down a \<Longrightarrow> push_loop mx tmo data (Suc n) (a # ats) = Some (Inr (Some ErrShutdown), attempt_sent data a)"
  by (cases rule: UnsafePush_cases [of "at_client a" "\<lambda>_ _. at_publish a" data]; cases "at_publish a")
    (auto simp: shut_down_def attempt_sent_def)

lemma push_loop_timed_out:
  "timed_out a \<Longrightarrow> \<exists>e. (e = ErrConfirmTimeout tmo \<or> (\<exists>e'. e = ErrPushTimeout tmo e')) \<and>
     (\<forall>n. push_loop mx tmo data (Suc n) (a # ats) = Some (Inr (Some e), attempt_sent data a))"
  by (cases rule: UnsafePush_cases [of "at_client a" "\<lambda>_ _. at_publish a" data]; cases "at_publish a")
    (auto simp: timed_out_def attempt_sent_def)

lemma push_loop_prefix:
  "\<forall>x \<in> set pre. retried x \<Longrightarrow> push_loop mx tmo data (length pre + n) (pre @ ats) =
     map_option (\<lambda>(r, s). (r, concat (map (attempt_sent data) pre) @ s)) (push_loop mx tmo data n ats)"
proof (induction pre)
  case Nil
  then show ?case by (cases "push_loop mx tmo data n ats") auto
next
  case (Cons x pre)
  then have "retried x" by simp
  from push_loop_retried [OF this, of mx tmo data "length pre + n" "pre @ ats"] Cons show ?case
    by (cases "push_loop mx tmo data n ats") (auto simp del: push_loop.simps)
qed

lemma Push_prefix:
  assumes "is_ready c" and "\<forall>x \<in> set pre. retried x" and "int (length pre) < maxRetries"
    and "\<And>n. push_loop maxRetries tmo data (Suc n) (a # post) = Some (r, attempt_sent data a)"
  shows "Push maxRetries tmo data c (pre @ a # post) = Some (r, concat (map (attempt_sent data) (pre @ [a])))"
proof -
  obtain m where n: "nat maxRetries = length pre + Suc m"
    using assms(3) that [of "nat maxRetries - length pre - 1"] by arith
  have "push_loop maxRetries tmo data (nat maxRetries) (pre @ a # post) =
      Some (r, concat (map (attempt_sent data) (pre @ [a])))"
    unfolding n push_loop_prefix [OF assms(2)] assms(4) by simp
  with assms(1) show ?thesis by (simp add: Push_def)
qed

text \<open>
  C37. \<open>Push\<close> returns, whatever the broker and the timers do: \<open>PushMaxRetries\<close> attempts are always enough,
  and it hands the message to the broker at most that many times. It returns in the first attempt in
  which the done channel is seen closed (shutdown error), an acknowledgement arrives (nil) or one of
  the deadlines fires (timeout error), after attempts that were all retried, and makes no attempt after
  it; and when all \<open>PushMaxRetries\<close> attempts are retried it gives up with the error that says so.
\<close>

theorem push_returns:
  "(maxRetries \<le> int (length ats) \<longrightarrow>
      (\<exists>r s. Push maxRetries tmo data c ats = Some (r, s) \<and> length s \<le> nat maxRetries)) \<and>
   (is_ready c \<and> ats = pre @ a # post \<and> int (length pre) < maxRetries \<and> (\<forall>x \<in> set pre. retried x) \<longrightarrow>
      (shut_down a \<longrightarrow> Push maxRetries tmo data c ats =
         Some (Inr (Some ErrShutdown), concat (map (attempt_sent data) (pre @ [a])))) \<and>
      (acked a \<longrightarrow> Push maxRetries tmo data c ats =
         Some (Inr None, concat (map (attempt_sent data) (pre @ [a])))) \<and>
      (timed_out a \<longrightarrow> (\<exists>e. (e = ErrConfirmTimeout tmo \<or> (\<exists>e'. e = ErrPushTimeout tmo e')) \<and>
         Push maxRetries tmo data c ats = Some (Inr (Some e), concat (map (attempt_sent data) (pre @ [a])))))) \<and>
   (is_ready c \<and> (\<forall>x \<in> set ats. retried x) \<and> int (length ats) = maxRetries \<longrightarrow>
      Push maxRetries tmo data c ats =
        Some (Inr (Some (ErrPushRetries maxRetries)), concat (map (attempt_sent data) ats)))"
proof (intro conjI impI; (elim conjE)?)
  assume "maxRetries \<le> int (length ats)"
  then show "\<exists>r s. Push maxRetries tmo data c ats = Some (r, s) \<and> length s \<le> nat maxRetries"
    using push_loop_returns [of "nat maxRetries" ats maxRetries tmo data] by (auto simp: Push_def)
next
  assume p: "is_ready c" "ats = pre @ a # post" "int (length pre) < maxRetries" "\<forall>x \<in> set pre. retried x"
  note P = Push_prefix [OF p(1,4,3), of tmo data a post]
  show "Push maxRetries tmo data c ats = Some (Inr (Some ErrShutdown), concat (map (attempt_sent data) (pre @ [a])))"
    if "shut_down a" unfolding p(2) by (rule P) (rule push_loop_shut_down [OF that])
  show "Push maxRetries tmo data c ats = Some (Inr None, concat (map (attempt_sent data) (pre @ [a])))"
    if "acked a" unfolding p(2) by (rule P) (rule push_loop_acked [OF that])
  show "\<exists>e. (e = ErrConfirmTimeout tmo \<or> (\<exists>e'. e = ErrPushTimeout tmo e')) \<and>
      Push maxRetries tmo data c ats = Some (Inr (Some e), concat (map (attempt_sent data) (pre @ [a])))"
    if t: "timed_out a"
  proof -
    obtain e where "e = ErrConfirmTimeout tmo \<or> (\<exists>e'. e = ErrPushTimeout tmo e')"
        "\<And>n. push_loop maxRetries tmo data (Suc n) (a # post) = Some (Inr (Some e), attempt_sent data a)"
      using push_loop_timed_out [OF t, of tmo maxRetries data post] by blast
    with P p(2) show ?thesis by blast
  qed
next
  assume "is_ready c" "\<forall>x \<in> set ats. retried x" "int (length ats) = maxRetries"
  then show "Push maxRetries tmo data c ats =
      Some (Inr (Some (ErrPushRetries maxRetries)), concat (map (attempt_sent data) ats))"
    using push_loop_prefix [of ats maxRetries tmo data 0 "[]"] by (auto simp: Push_def)
qed

theorem push_returns_witness:
  "\<exists>r s. Push 3 15 ''m'' ready_client demo_attempts = Some (r, s) \<and> length s \<le> 3"
proof -
  have "(3::int) \<le> int (length demo_attempts)" by (simp add: demo_attempts_def)
  with push_returns [of 3 demo_attempts 15 "''m''" ready_client] show ?thesis by simp
qed

subsection \<open>What Push does not look at\<close>

text \<open>The delivery tag of a confirmation is never read: replacing all tags changes nothing.\<close>

fun retag_confirm :: "(nat \<Rightarrow> nat) \<Rightarrow> confirm_choice \<Rightarrow> confirm_choice" where
  "retag_confirm f (Confirmation tag ack) = Confirmation (f tag) ack"
| "retag_confirm f cc = cc"

definition retag :: "(nat \<Rightarrow> nat) \<Rightarrow> attempt \<Rightarrow> attempt" where
  "retag f a = a\<lparr>at_confirm := retag_confirm f (at_confirm a)\<rparr>"

lemma retag_simps [simp]:
  "at_client (retag f a) = at_client a" "at_publish (retag f a) = at_publish a"
  "at_wait (retag f a) = at_wait a" "at_confirm (retag f a) = retag_confirm f (at_confirm a)"
  by (simp_all add: retag_def)

lemma case_retag_confirm:
  "(case retag_confirm f cc of Confirmation tag ack \<Rightarrow> P ack | ConfirmDeadline \<Rightarrow> x | ConfirmDone \<Rightarrow> y) =
   (case cc of Confirmation tag ack \<Rightarrow> P ack | ConfirmDeadline \<Rightarrow> x | ConfirmDone \<Rightarrow> y)"
  by (cases cc) simp_all

lemma push_loop_retag: "push_loop mx tmo data n (map (retag f) ats) = push_loop mx tmo data n ats"
proof (induction n arbitrary: ats)
  case 0
  then show ?case by simp
next
  case (Suc n)
  show ?case
  proof (cases ats)
    case Nil
    then show ?thesis by simp
  next
    case (Cons a rest)
    show ?thesis
      unfolding Cons list.map push_loop.simps retag_simps Suc.IH case_retag_confirm by (rule refl)
  qed
qed

text \<open>
  \<open>Push\<close> accepts any acknowledgement as that of its own message: it never compares the delivery
  tag, so an acknowledgement left over from an earlier call that timed out counts as success.
\<close>

theorem push_ignores_delivery_tags:
  "Push maxRetries tmo data c (map (retag f) ats) = Push maxRetries tmo data c ats"
  by (simp add: Push_def push_loop_retag)

subsection \<open>Close\<close>

text \<open>
  \<open>Close\<close> on a live client: with no error it leaves the client not ready and a second \<open>Close\<close>
  answers "already closed"; but when closing the channel or the connection fails, the error is
  returned with the client still marked ready and its done channel already closed, so that the
  next \<open>Close\<close> panics (close of a closed channel), whatever the broker answers then.
\<close>

theorem close_failure_then_panic:
  assumes "is_ready c" and "\<not> done_closed c" and "channel c = Some ch" and "connection c = Some cn"
  shows "(Close None None c = (Inr None, c\<lparr>done_closed := True, is_ready := False\<rparr>) \<and>
      Close x y (snd (Close None None c)) =
        (Inr (Some ErrAlreadyClosed), c\<lparr>done_closed := True, is_ready := False\<rparr>)) \<and>
    (\<forall>e. fst (Close (Some e) y c) = Inr (Some (ErrBroker e)) \<and>
      fst (Close None (Some e) c) = Inr (Some (ErrBroker e)) \<and>
      is_ready (snd (Close (Some e) y c)) \<and>
      fst (Close x z (snd (Close (Some e) y c))) = Inl CloseOfClosedChannel \<and>
      fst (Close x z (snd (Close None (Some e) c))) = Inl CloseOfClosedChannel)"
  using assms by (simp add: Close_def)

theorem close_failure_then_panic_witness:
  "fst (Close None None (snd (Close (Some ''EOF'') None ready_client))) = Inl CloseOfClosedChannel"
  using close_failure_then_panic [of ready_client 1 0]
  by (simp add: ready_client_def default_amqp_client_def)

text \<open>
  A configuration handed in without a properties table makes the first connection attempt of a named
  client panic.
\<close>

lemma amqp_config_nil_properties:
  "conn_name c \<noteq> [] \<Longrightarrow> client_config c = Some cfg \<Longrightarrow> ac_properties cfg = None \<Longrightarrow>
   AmqpConfig g c = Inl NilMapWrite"
  by (simp add: AmqpConfig_def)

lemma amqp_config_default_ok:
  "client_config c = None \<Longrightarrow> \<exists>cfg c'. AmqpConfig g c = Inr (cfg, c') \<and>
     (\<exists>p. ac_properties cfg = Some p \<and>
       p ''connection_name'' = Some (if conn_name c = [] then ''amqp-'' @ get_app_name g else conn_name c))"
  by (simp add: AmqpConfig_def default_amqp_config_def Let_def)

end
