(* ===== verification/AuditEntities.thy ===== *)
theory AuditEntities
  imports AppGlobals
begin

section \<open>The payloads of the audit trail\<close>

text \<open>
  The records of \<^verbatim>\<open>audittrail-entities.go\<close>, \<^verbatim>\<open>audittrail_trx_entities.go\<close> and
  \<^verbatim>\<open>transaction_trace_entities.go\<close>. Fields of interface type are \<open>'v\<close>, an opaque value (\<open>None\<close> is nil).
\<close>

record audit_process_data =
  apd_time :: string
  apd_info :: string

record audit_process =
  ap_subject :: string
  ap_function :: string
  ap_description :: string
  ap_key :: "string list"
  ap_data :: audit_process_data

record 'v audit_request =
  arq_time :: string
  arq_path :: string
  arq_query_string :: "'v option"
  arq_header :: "'v option"
  arq_param :: "'v option"
  arq_body :: "'v option"
  arq_ip_address :: string
  arq_browser_id :: int
  arq_latitude :: string
  arq_longitude :: string

record 'v audit_detail =
  ad_status_code :: int
  ad_message :: string
  ad_data :: "'v option"

record 'v audit_response =
  ars_time :: string
  ars_detail :: "'v audit_detail"

record 'v request_and_response =
  rr_request :: "'v audit_request"
  rr_response :: "'v audit_response"

record 'v audit_data =
  adt_subject :: string
  adt_function :: string
  adt_description :: string
  adt_key :: "string list"
  adt_source :: string
  adt_communication_type :: string
  adt_data :: "'v request_and_response option"

record 'v audit_trail_trx =
  trx_reff_no :: string
  trx_order_no :: string
  trx_ticket_id :: string
  trx_status :: string
  trx_state :: string
  trx_message :: string
  trx_service :: string
  trx_function :: string
  trx_description :: string
  trx_communication_type :: string
  trx_event_time :: string
  trx_duration_ms :: int
  trx_amount :: string
  trx_currency :: string
  trx_merchant_no :: string
  trx_payment_code :: string
  trx_qr_value :: string
  trx_rrn :: string
  trx_error_code :: string
  trx_vendor_name :: string
  trx_request :: "'v option"
  trx_response :: "'v option"
  trx_metadata :: "(string \<times> 'v) list"
  trx_created_at :: "int option"

record trace_http =
  th_method :: string
  th_url :: string
  th_status :: int

record 'v transaction_trace =
  tt_v :: int
  tt_event :: string
  tt_kind :: string
  tt_leg :: string
  tt_direction :: string
  tt_service :: string
  tt_function :: string
  tt_peer :: string
  tt_transport :: string
  tt_status :: string
  tt_m_id :: int
  tt_merchant_code :: string
  tt_trx_id :: int
  tt_trx_no :: string
  tt_trx_reference_no :: string
  tt_trx_pay_code1 :: string
  tt_trx_pc_id :: int
  tt_ticket_id :: string
  tt_external_id :: string
  tt_request_id :: string
  tt_traceparent :: string
  tt_domain :: string
  tt_transfer_id :: int
  tt_reference_number :: string
  tt_partner_reference_no :: string
  tt_detail_id :: int
  tt_detail_partner_reference_no :: string
  tt_vendor_reference_no :: string
  tt_merchant_id :: int
  tt_callback_direction :: string
  tt_attempt_id :: string
  tt_cycle :: int
  tt_attempt :: int
  tt_http :: "trace_http option"
  tt_request :: "'v option"
  tt_response :: "'v option"
  tt_message :: string
  tt_error_code :: string
  tt_duration_ms :: int
  tt_event_time :: string
  tt_created_at :: "int option"

datatype 'v payload_data =
    ProcessPayload audit_process
  | DataPayload "'v audit_data"
  | TrxPayload "'v audit_trail_trx"
  | TracePayload "'v transaction_trace"

record 'v message_payload_audit =
  mp_id :: int
  mp_command :: string
  mp_time :: string
  mp_module_id :: string
  mp_data :: "'v payload_data"

subsection \<open>The constants\<close>

text \<open>
  The values services put in the string fields, by the names of the constants; the texts of one table are
  distinct, so a stored record can be read back.
\<close>

definition CmdAuditTrailProcess :: string where "CmdAuditTrailProcess = ''audit-trail-process''"

definition CmdAuditTrailData :: string where "CmdAuditTrailData = ''audit-trail-data''"

definition CmdAuditTrailTrx :: string where "CmdAuditTrailTrx = ''audit-trail-trx''"

definition CmdTransactionTrace :: string where "CmdTransactionTrace = ''transaction-trace''"

lemma audit_commands_distinct:
  "distinct [CmdAuditTrailProcess, CmdAuditTrailData, CmdAuditTrailTrx, CmdTransactionTrace]"
  by (simp add: CmdAuditTrailProcess_def CmdAuditTrailData_def CmdAuditTrailTrx_def CmdTransactionTrace_def)

datatype audit_trx_state =
    AuditTrxStateRequestReceived
  | AuditTrxStateRequestValidated
  | AuditTrxStateOrderCreated
  | AuditTrxStateChannelSelected
  | AuditTrxStateChannelProcessed
  | AuditTrxStateVendorRequestSent
  | AuditTrxStateVendorTokenAcquired
  | AuditTrxStateQrGenerated
  | AuditTrxStateVendorRequestFailed
  | AuditTrxStateTransactionUpdated
  | AuditTrxStatePaymentNotified
  | AuditTrxStateResponseReturned
  | AuditTrxStateOrderExpired
  | AuditTrxStatePaymentReceived
  | AuditTrxStateStatusChecked

fun audit_trx_state_text :: "audit_trx_state \<Rightarrow> string" where
  "audit_trx_state_text AuditTrxStateRequestReceived = ''request_received''"
| "audit_trx_state_text AuditTrxStateRequestValidated = ''request_validated''"
| "audit_trx_state_text AuditTrxStateOrderCreated = ''order_created''"
| "audit_trx_state_text AuditTrxStateChannelSelected = ''channel_selected''"
| "audit_trx_state_text AuditTrxStateChannelProcessed = ''channel_processed''"
| "audit_trx_state_text AuditTrxStateVendorRequestSent = ''vendor_request_sent''"
| "audit_trx_state_text AuditTrxStateVendorTokenAcquired = ''vendor_token_acquired''"
| "audit_trx_state_text AuditTrxStateQrGenerated = ''qr_generated''"
| "audit_trx_state_text AuditTrxStateVendorRequestFailed = ''vendor_request_failed''"
| "audit_trx_state_text AuditTrxStateTransactionUpdated = ''transaction_updated''"
| "audit_trx_state_text AuditTrxStatePaymentNotified = ''payment_notified''"
| "audit_trx_state_text AuditTrxStateResponseReturned = ''response_returned''"
| "audit_trx_state_text AuditTrxStateOrderExpired = ''order_expired''"
| "audit_trx_state_text AuditTrxStatePaymentReceived = ''payment_received''"
| "audit_trx_state_text AuditTrxStateStatusChecked = ''status_checked''"

lemma audit_trx_state_text_inj: "inj audit_trx_state_text"
proof (rule injI)
  fix a b :: audit_trx_state
  show "audit_trx_state_text a = audit_trx_state_text b \<Longrightarrow> a = b" by (cases a; cases b) simp_all
qed

datatype audit_trx_status =
    AuditTrxStatusProcessing
  | AuditTrxStatusSuccess
  | AuditTrxStatusFailed
  | AuditTrxStatusExpired

fun audit_trx_status_text :: "audit_trx_status \<Rightarrow> string" where
  "audit_trx_status_text AuditTrxStatusProcessing = ''processing''"
| "audit_trx_status_text AuditTrxStatusSuccess = ''success''"
| "audit_trx_status_text AuditTrxStatusFailed = ''failed''"
| "audit_trx_status_text AuditTrxStatusExpired = ''expired''"

lemma audit_trx_status_text_inj: "inj audit_trx_status_text"
proof (rule injI)
  fix a b :: audit_trx_status
  show "audit_trx_status_text a = audit_trx_status_text b \<Longrightarrow> a = b" by (cases a; cases b) simp_all
qed

datatype trace_kind =
    TraceKindHop
  | TraceKindMilestone
  | TraceKindPoll

fun trace_kind_text :: "trace_kind \<Rightarrow> string" where
  "trace_kind_text TraceKindHop = ''hop''"
| "trace_kind_text TraceKindMilestone = ''milestone''"
| "trace_kind_text TraceKindPoll = ''poll''"

lemma trace_kind_text_inj: "inj trace_kind_text"
proof (rule injI)
  fix a b :: trace_kind
  show "trace_kind_text a = trace_kind_text b \<Longrightarrow> a = b" by (cases a; cases b) simp_all
qed

datatype trace_leg =
    TraceLegCreateOrder
  | TraceLegCallback
  | TraceLegLifecycle
  | TraceLegCreate
  | TraceLegPayment
  | TraceLegDisbursement

fun trace_leg_text :: "trace_leg \<Rightarrow> string" where
  "trace_leg_text TraceLegCreateOrder = ''create_order''"
| "trace_leg_text TraceLegCallback = ''callback''"
| "trace_leg_text TraceLegLifecycle = ''lifecycle''"
| "trace_leg_text TraceLegCreate = ''create''"
| "trace_leg_text TraceLegPayment = ''payment''"
| "trace_leg_text TraceLegDisbursement = ''disbursement''"

lemma trace_leg_text_inj: "inj trace_leg_text"
proof (rule injI)
  fix a b :: trace_leg
  show "trace_leg_text a = trace_leg_text b \<Longrightarrow> a = b" by (cases a; cases b) simp_all
qed

datatype trace_direction =
    TraceDirectionInbound
  | TraceDirectionOutbound
  | TraceDirectionInternal

fun trace_direction_text :: "trace_direction \<Rightarrow> string" where
  "trace_direction_text TraceDirectionInbound = ''inbound''"
| "trace_direction_text TraceDirectionOutbound = ''outbound''"
| "trace_direction_text TraceDirectionInternal = ''internal''"

lemma trace_direction_text_inj: "inj trace_direction_text"
proof (rule injI)
  fix a b :: trace_direction
  show "trace_direction_text a = trace_direction_text b \<Longrightarrow> a = b" by (cases a; cases b) simp_all
qed

datatype trace_status =
    TraceStatusProcessing
  | TraceStatusSuccess
  | TraceStatusFailed
  | TraceStatusExpired
  | TraceStatusAborted
  | TraceStatusSkipped

fun trace_status_text :: "trace_status \<Rightarrow> string" where
  "trace_status_text TraceStatusProcessing = ''processing''"
| "trace_status_text TraceStatusSuccess = ''success''"
| "trace_status_text TraceStatusFailed = ''failed''"
| "trace_status_text TraceStatusExpired = ''expired''"
| "trace_status_text TraceStatusAborted = ''aborted''"
| "trace_status_text TraceStatusSkipped = ''skipped''"

lemma trace_status_text_inj: "inj trace_status_text"
proof (rule injI)
  fix a b :: trace_status
  show "trace_status_text a = trace_status_text b \<Longrightarrow> a = b" by (cases a; cases b) simp_all
qed

definition TraceDomainFundtransfer :: string where "TraceDomainFundtransfer = ''fundtransfer''"

end
