(* ===== verification/AuditPublisher.thy ===== *)
theory AuditPublisher
  imports AmqpOps AuditEntities "HOL-Library.Multiset"
begin

section \<open>audittrail_publisher.go: worker pool and circuit breaker\<close>

text \<open>
  \<open>AuditPublisher\<close> as a record (the two channels are a buffer and their closed flags) with one
  definition per method. The AMQP client is shared with its own goroutine, so what a worker sees of
  it is an argument. The concurrent system around the record (submitters, workers, the goroutine of
  the cooldown, \<open>Stop\<close>) is the step relation \<open>publisher_step\<close>, in which every atomic operation on the shared
  state is a step of its own: a \<open>Submit\<close> loads the breaker in one step and sends in another, a worker counts a
  failure in one and swaps the breaker in another, \<open>Stop\<close> closes the two channels one after the other.
\<close>

record 'm publisher =
  msg_chan :: "'m list"
  msg_chan_closed :: bool
  pub_done :: bool
  message_ttl :: string
  worker_count :: int
  buffer_size :: int
  pub_max_retries :: int
  push_timeout :: int
  consecutive_failures :: int
  circuit_open :: bool
  max_consec_failures :: int
  cooldown_duration :: int

subsection \<open>Options\<close>

datatype publisher_option =
    WithWorkerCount int
  | WithBufferSize int
  | WithMaxRetries int
  | WithPublishTimeout int
  | WithMessageTTL string
  | WithCircuitBreakerThreshold int
  | WithCircuitBreakerCooldown int

fun apply_publisher_option :: "publisher_option \<Rightarrow> 'm publisher \<Rightarrow> 'm publisher" where
  "apply_publisher_option (WithWorkerCount n) p = (if n > 0 then p\<lparr>worker_count := n\<rparr> else p)"
| "apply_publisher_option (WithBufferSize n) p = (if n > 0 then p\<lparr>buffer_size := n\<rparr> else p)"
| "apply_publisher_option (WithMaxRetries n) p = (if n \<ge> 0 then p\<lparr>pub_max_retries := n\<rparr> else p)"
| "apply_publisher_option (WithPublishTimeout d) p = (if d > 0 then p\<lparr>push_timeout := d\<rparr> else p)"
| "apply_publisher_option (WithMessageTTL t) p = p\<lparr>message_ttl := t\<rparr>"
| "apply_publisher_option (WithCircuitBreakerThreshold n) p =
     (if n > 0 then p\<lparr>max_consec_failures := n\<rparr> else p)"
| "apply_publisher_option (WithCircuitBreakerCooldown d) p =
     (if d > 0 then p\<lparr>cooldown_duration := d\<rparr> else p)"

definition default_publisher :: "'m publisher" where
  "default_publisher = \<lparr>msg_chan = [], msg_chan_closed = False, pub_done = False, message_ttl = [],
     worker_count = 10, buffer_size = 1000, pub_max_retries = 3, push_timeout = 15 * Second,
     consecutive_failures = 0, circuit_open = False, max_consec_failures = 10,
     cooldown_duration = 30 * Second\<rparr>"

definition NewAuditPublisher :: "publisher_option list \<Rightarrow> 'm publisher" where
  "NewAuditPublisher opts = foldl (\<lambda>p opt. apply_publisher_option opt p) default_publisher opts"

definition publisher_config_ok :: "'m publisher \<Rightarrow> bool" where
  "publisher_config_ok p \<longleftrightarrow> worker_count p > 0 \<and> buffer_size p > 0 \<and> pub_max_retries p \<ge> 0 \<and>
     push_timeout p > 0 \<and> max_consec_failures p > 0 \<and> cooldown_duration p > 0"

interpretation publisher_options: option_setters apply_publisher_option publisher_config_ok
proof
  fix p :: "'m publisher" and opt
  show "publisher_config_ok p \<Longrightarrow> publisher_config_ok (apply_publisher_option opt p)"
    by (cases opt) (simp_all add: publisher_config_ok_def)
qed

lemma NewAuditPublisher_config: "publisher_config_ok (NewAuditPublisher opts)"
  unfolding NewAuditPublisher_def
  by (rule publisher_options.apply_all_wf) (simp add: publisher_config_ok_def default_publisher_def)

lemma apply_publisher_option_keeps:
  "msg_chan (apply_publisher_option opt p) = msg_chan p \<and>
   msg_chan_closed (apply_publisher_option opt p) = msg_chan_closed p \<and>
   pub_done (apply_publisher_option opt p) = pub_done p \<and>
   circuit_open (apply_publisher_option opt p) = circuit_open p \<and>
   consecutive_failures (apply_publisher_option opt p) = consecutive_failures p"
  by (cases opt) simp_all

lemma NewAuditPublisher_state:
  fixes q :: "'m publisher"
  assumes q: "q = NewAuditPublisher opts"
  shows "msg_chan q = [] \<and> \<not> msg_chan_closed q \<and> \<not> pub_done q \<and> \<not> circuit_open q \<and>
    consecutive_failures q = 0"
  unfolding q NewAuditPublisher_def
  by (rule foldl_invariant [where P = "\<lambda>p :: 'm publisher. msg_chan p = [] \<and> \<not> msg_chan_closed p \<and>
        \<not> pub_done p \<and> \<not> circuit_open p \<and> consecutive_failures p = 0"])
    (simp_all add: default_publisher_def apply_publisher_option_keeps)

lemma NewAuditPublisher_fresh [simp]:
  "msg_chan (NewAuditPublisher opts) = []" "\<not> msg_chan_closed (NewAuditPublisher opts)"
  "\<not> pub_done (NewAuditPublisher opts)" "\<not> circuit_open (NewAuditPublisher opts)"
  "consecutive_failures (NewAuditPublisher opts) = 0"
  using NewAuditPublisher_state [OF refl] by blast+

lemma config_buffer: "publisher_config_ok p \<Longrightarrow> 0 < buffer_size p"
  by (simp add: publisher_config_ok_def)

lemma NewAuditPublisher_buffer: "0 < buffer_size (NewAuditPublisher opts)"
  by (rule config_buffer) (rule NewAuditPublisher_config)

subsection \<open>Methods\<close>

datatype submit_result = Enqueued | DroppedByCircuit | DroppedBufferFull

text \<open>
  \<open>Submit\<close> loads the breaker, and when it is closed selects on the channel (\<open>submit_send\<close>). \<open>Submit\<close> here is
  the call with nothing in between.
\<close>

definition submit_send :: "'m \<Rightarrow> 'm publisher \<Rightarrow> (panic + submit_result) \<times> 'm publisher" where
  "submit_send payload p =
     (if msg_chan_closed p then (Inl SendOnClosedChannel, p)
      else if int (length (msg_chan p)) < buffer_size p
           then (Inr Enqueued, p\<lparr>msg_chan := msg_chan p @ [payload]\<rparr>)
           else (Inr DroppedBufferFull, p))"

definition Submit :: "'m \<Rightarrow> 'm publisher \<Rightarrow> (panic + submit_result) \<times> 'm publisher" where
  "Submit payload p = (if circuit_open p then (Inr DroppedByCircuit, p) else submit_send payload p)"

text \<open>\<open>recordFailure\<close> in its two atomic operations: the increment, and the swap of the breaker (which
  says whether to start the goroutine of the cooldown).\<close>

definition add_failure :: "'m publisher \<Rightarrow> int \<times> 'm publisher" where
  "add_failure p =
     (let n = wrap64 (consecutive_failures p + 1) in (n, p\<lparr>consecutive_failures := n\<rparr>))"

definition trip_circuit :: "int \<Rightarrow> 'm publisher \<Rightarrow> bool \<times> 'm publisher" where
  "trip_circuit failures p =
     (if failures \<ge> max_consec_failures p \<and> \<not> circuit_open p then (True, p\<lparr>circuit_open := True\<rparr>)
      else (False, p))"

definition record_failure :: "'m publisher \<Rightarrow> bool \<times> 'm publisher" where
  "record_failure p = (let (n, p1) = add_failure p in trip_circuit n p1)"

text \<open>What processing a message comes to, before the counters: the client's answer or why there is none.\<close>

datatype process_result = NotReady | MarshalFailed err | PushFailed amqp_err | Pushed | PushPanicked panic

definition process_message ::
  "amqp_client option \<Rightarrow> ('m \<Rightarrow> err + string) \<Rightarrow> (string \<Rightarrow> publishing \<Rightarrow> err option) \<Rightarrow> 'm \<Rightarrow> 'm publisher \<Rightarrow>
     process_result \<times> sent" where
  "process_message cl marshal publish msg p =
     (case cl of
        None \<Rightarrow> (NotReady, [])
      | Some c \<Rightarrow>
          (if \<not> IsReady c then (NotReady, [])
           else
             (case marshal msg of
                Inl e \<Rightarrow> (MarshalFailed e, [])
              | Inr msgBytes \<Rightarrow>
                  (case PushWithTTL publish msgBytes (message_ttl p) c of
                     (Inl pa, s) \<Rightarrow> (PushPanicked pa, s)
                   | (Inr (Some e), s) \<Rightarrow> (PushFailed e, s)
                   | (Inr None, s) \<Rightarrow> (Pushed, s)))))"

text \<open>Whether a result counts as a failure; only success resets the counter.\<close>

fun counts_failure :: "process_result \<Rightarrow> bool" where
  "counts_failure NotReady = True"
| "counts_failure (PushFailed e) = True"
| "counts_failure _ = False"

text \<open>\<open>Stop\<close> closes the done channel, then the channel of the messages.\<close>

definition close_done :: "'m publisher \<Rightarrow> 'm publisher" where
  "close_done p = p\<lparr>pub_done := True\<rparr>"

definition close_messages :: "'m publisher \<Rightarrow> 'm publisher" where
  "close_messages p = p\<lparr>msg_chan_closed := True\<rparr>"

definition Stop :: "'m publisher \<Rightarrow> 'm publisher" where
  "Stop p = close_messages (close_done p)"

subsection \<open>The concurrent system\<close>

text \<open>
  A worker is idle, holds a message, or has counted a failure and not yet looked at the breaker. The
  goroutines of the cooldown wait or have reset the counter and not yet the breaker. The messages whose
  \<open>Submit\<close> has passed the breaker and not yet sent are \<open>admitted\<close>; a \<open>Submit\<close> that then finds the channel
  closed has \<open>panicked\<close>. What a worker was done with is \<open>published\<close>, or \<open>discarded\<close> after a failure; \<open>handed_over\<close>
  is everything handed to the broker.
\<close>

datatype 'm worker = Idle | Holding 'm | Counted int

datatype cooldown = CoolWaiting | CoolReset

record 'm pub_system =
  pub :: "'m publisher"
  workers :: "'m worker list"
  cooldowns :: "cooldown list"
  submitted :: "'m list"
  admitted :: "'m list"
  panicked :: "'m list"
  dropped :: "'m list"
  published :: "'m list"
  discarded :: "'m list"
  handed_over :: sent
  stop_called :: bool

text \<open>
  What a worker meets when it processes a message: the client, the encoder and the broker. The step relation
  is over the set of surroundings a worker can meet; a worker that panics ends the program and has no step.
\<close>

type_synonym 'm surroundings =
  "amqp_client option \<times> ('m \<Rightarrow> err + string) \<times> (string \<Rightarrow> publishing \<Rightarrow> err option)"

definition held :: "'m worker \<Rightarrow> 'm list" where
  "held w = (case w of Holding m \<Rightarrow> [m] | _ \<Rightarrow> [])"

inductive publisher_step :: "('m surroundings \<Rightarrow> bool) \<Rightarrow> 'm pub_system \<Rightarrow> 'm pub_system \<Rightarrow> bool" for E where
  admit: "\<not> circuit_open (pub s) \<Longrightarrow>
     publisher_step E s (s\<lparr>submitted := m # submitted s, admitted := m # admitted s\<rparr>)"
| turn_away: "circuit_open (pub s) \<Longrightarrow>
     publisher_step E s (s\<lparr>submitted := m # submitted s, dropped := m # dropped s\<rparr>)"
| send: "admitted s = before @ m # after \<Longrightarrow> submit_send m (pub s) = (Inr r, p) \<Longrightarrow>
     publisher_step E s (s\<lparr>pub := p, admitted := before @ after,
       dropped := (if r = Enqueued then dropped s else m # dropped s)\<rparr>)"
| send_panics: "admitted s = before @ m # after \<Longrightarrow> submit_send m (pub s) = (Inl e, p) \<Longrightarrow>
     publisher_step E s (s\<lparr>admitted := before @ after, panicked := m # panicked s\<rparr>)"
| take_msg: "w < length (workers s) \<Longrightarrow> workers s ! w = Idle \<Longrightarrow> msg_chan (pub s) = m # rest \<Longrightarrow>
     publisher_step E s (s\<lparr>pub := (pub s)\<lparr>msg_chan := rest\<rparr>, workers := (workers s)[w := Holding m]\<rparr>)"
| process_fail: "w < length (workers s) \<Longrightarrow> workers s ! w = Holding m \<Longrightarrow> E (cl, marshal, publish) \<Longrightarrow>
     process_message cl marshal publish m (pub s) = (r, out) \<Longrightarrow> counts_failure r \<Longrightarrow>
     add_failure (pub s) = (n, p) \<Longrightarrow>
     publisher_step E s (s\<lparr>pub := p, workers := (workers s)[w := Counted n], discarded := m # discarded s,
       handed_over := handed_over s @ out\<rparr>)"
| process_marshal: "w < length (workers s) \<Longrightarrow> workers s ! w = Holding m \<Longrightarrow> E (cl, marshal, publish) \<Longrightarrow>
     process_message cl marshal publish m (pub s) = (MarshalFailed e, out) \<Longrightarrow>
     publisher_step E s (s\<lparr>workers := (workers s)[w := Idle], discarded := m # discarded s, handed_over := handed_over s @ out\<rparr>)"
| process_ok: "w < length (workers s) \<Longrightarrow> workers s ! w = Holding m \<Longrightarrow> E (cl, marshal, publish) \<Longrightarrow>
     process_message cl marshal publish m (pub s) = (Pushed, out) \<Longrightarrow>
     publisher_step E s (s\<lparr>pub := (pub s)\<lparr>consecutive_failures := 0\<rparr>,
       workers := (workers s)[w := Idle], published := m # published s, handed_over := handed_over s @ out\<rparr>)"
| trip: "w < length (workers s) \<Longrightarrow> workers s ! w = Counted n \<Longrightarrow> trip_circuit n (pub s) = (fired, p) \<Longrightarrow>
     publisher_step E s (s\<lparr>pub := p, workers := (workers s)[w := Idle],
       cooldowns := (if fired then CoolWaiting # cooldowns s else cooldowns s)\<rparr>)"
| cool_expire: "i < length (cooldowns s) \<Longrightarrow> cooldowns s ! i = CoolWaiting \<Longrightarrow>
     publisher_step E s (s\<lparr>pub := (pub s)\<lparr>consecutive_failures := 0\<rparr>,
       cooldowns := (cooldowns s)[i := CoolReset]\<rparr>)"
| cool_close: "i < length (cooldowns s) \<Longrightarrow> cooldowns s ! i = CoolReset \<Longrightarrow>
     publisher_step E s (s\<lparr>pub := (pub s)\<lparr>circuit_open := False\<rparr>,
       cooldowns := take i (cooldowns s) @ drop (Suc i) (cooldowns s)\<rparr>)"
| cool_done: "i < length (cooldowns s) \<Longrightarrow> cooldowns s ! i = CoolWaiting \<Longrightarrow> pub_done (pub s) \<Longrightarrow>
     publisher_step E s (s\<lparr>cooldowns := take i (cooldowns s) @ drop (Suc i) (cooldowns s)\<rparr>)"
| stop: "\<not> stop_called s \<Longrightarrow> publisher_step E s (s\<lparr>pub := close_done (pub s), stop_called := True\<rparr>)"
| stop_messages: "stop_called s \<Longrightarrow> \<not> msg_chan_closed (pub s) \<Longrightarrow>
     publisher_step E s (s\<lparr>pub := close_messages (pub s)\<rparr>)"

definition started_publisher :: "publisher_option list \<Rightarrow> 'm pub_system" where
  "started_publisher opts =
     (let p = NewAuditPublisher opts
      in \<lparr>pub = p, workers = replicate (nat (worker_count p)) Idle, cooldowns = [], submitted = [],
          admitted = [], panicked = [], dropped = [], published = [], discarded = [], handed_over = [], stop_called = False\<rparr>)"

subsection \<open>Invariants\<close>

text \<open>
  The breaker is open exactly while one cooldown goroutine is alive (until \<open>Stop\<close>, which lets that
  goroutine end without closing the breaker); every message is on its way into the queue, queued, held,
  published, discarded, dropped or the loss of a \<open>Submit\<close> that panicked, which takes a closed channel;
  the queue never exceeds its buffer.
\<close>

definition breaker_inv :: "'m pub_system \<Rightarrow> bool" where
  "breaker_inv s \<longleftrightarrow> length (cooldowns s) \<le> 1 \<and> (cooldowns s \<noteq> [] \<longrightarrow> circuit_open (pub s)) \<and>
     (circuit_open (pub s) \<longrightarrow> cooldowns s \<noteq> [] \<or> pub_done (pub s)) \<and>
     (stop_called s \<longleftrightarrow> pub_done (pub s)) \<and> (msg_chan_closed (pub s) \<longrightarrow> pub_done (pub s))"

definition messages_inv :: "'m pub_system \<Rightarrow> bool" where
  "messages_inv s \<longleftrightarrow> mset (submitted s) =
     mset (dropped s) + mset (panicked s) + mset (published s) + mset (discarded s) +
     mset (msg_chan (pub s)) + mset (concat (map held (workers s))) + mset (admitted s) \<and>
     int (length (msg_chan (pub s))) \<le> buffer_size (pub s) \<and> (panicked s \<noteq> [] \<longrightarrow> msg_chan_closed (pub s))"

lemma submit_send_frame:
  "submit_send m p = (Inr r, p') \<Longrightarrow> circuit_open p' = circuit_open p \<and> pub_done p' = pub_done p \<and>
     msg_chan_closed p' = msg_chan_closed p \<and> buffer_size p' = buffer_size p \<and> message_ttl p' = message_ttl p \<and>
     \<not> msg_chan_closed p \<and> msg_chan p' = (if r = Enqueued then msg_chan p @ [m] else msg_chan p) \<and>
     (r = Enqueued \<longleftrightarrow> int (length (msg_chan p)) < buffer_size p)"
  by (auto simp: submit_send_def split: if_splits)

lemma submit_send_panics: "submit_send m p = (Inl e, p') \<Longrightarrow> msg_chan_closed p"
  by (auto simp: submit_send_def split: if_splits)

lemma add_failure_frame:
  "add_failure p = (n, p') \<Longrightarrow> circuit_open p' = circuit_open p \<and> pub_done p' = pub_done p \<and>
     msg_chan_closed p' = msg_chan_closed p \<and> buffer_size p' = buffer_size p \<and> msg_chan p' = msg_chan p \<and>
     message_ttl p' = message_ttl p"
  by (auto simp: add_failure_def Let_def)

lemma trip_circuit_frame:
  "trip_circuit n p = (fired, p') \<Longrightarrow> circuit_open p' = (circuit_open p \<or> fired) \<and> (fired \<longrightarrow> \<not> circuit_open p) \<and>
     pub_done p' = pub_done p \<and> msg_chan_closed p' = msg_chan_closed p \<and> buffer_size p' = buffer_size p \<and>
     msg_chan p' = msg_chan p \<and> message_ttl p' = message_ttl p"
  by (auto simp: trip_circuit_def split: if_splits)

lemma publisher_step_breaker: "publisher_step E s t \<Longrightarrow> breaker_inv s \<Longrightarrow> breaker_inv t"
proof (induction rule: publisher_step.induct)
  case (send s before m after r p)
  then show ?case using submit_send_frame [OF send(2)] by (auto simp: breaker_inv_def)
next
  case (process_fail w s m cl marshal publish r out n p)
  then show ?case using add_failure_frame [OF process_fail(6)] by (auto simp: breaker_inv_def)
next
  case (trip w s n fired p)
  then show ?case using trip_circuit_frame [OF trip(3)] by (auto simp: breaker_inv_def)
next
  case (cool_expire i s)
  then show ?case by (cases "cooldowns s") (auto simp: breaker_inv_def)
next
  case (cool_close i s)
  then show ?case by (cases "cooldowns s") (auto simp: breaker_inv_def)
next
  case (cool_done i s)
  then show ?case by (cases "cooldowns s") (auto simp: breaker_inv_def)
qed (auto simp: breaker_inv_def close_done_def close_messages_def)

interpretation breaker: invariant_steps "publisher_step E" breaker_inv for E
  by unfold_locales (rule publisher_step_breaker)

lemma mset_concat_held_update:
  assumes "w < length ws"
  shows "mset (concat (map held (ws[w := x]))) + mset (held (ws ! w)) =
    mset (concat (map held ws)) + mset (held x)"
  using assms
proof (induction ws arbitrary: w)
  case (Cons y ws)
  show ?case
  proof (cases w)
    case (Suc k)
    with Cons.prems Cons.IH [of k] show ?thesis by (simp add: add.assoc)
  qed (simp add: add.commute)
qed simp

lemma publisher_step_messages: "publisher_step E s t \<Longrightarrow> messages_inv s \<Longrightarrow> messages_inv t"
proof (induction rule: publisher_step.induct)
  case (send s before m after r p)
  then show ?case using submit_send_frame [OF send(2)] by (auto simp: messages_inv_def)
next
  case (send_panics s before m after e p)
  then show ?case using submit_send_panics [OF send_panics(2)] by (auto simp: messages_inv_def)
next
  case (take_msg w s m rest)
  from mset_concat_held_update [OF take_msg(1), of "Holding m"] take_msg show ?case
    by (simp add: messages_inv_def held_def)
next
  case (process_fail w s m cl marshal publish r out n p)
  from mset_concat_held_update [OF process_fail(1), of "Counted n"] add_failure_frame [OF process_fail(6)]
    process_fail show ?case
    by (simp add: messages_inv_def held_def)
next
  case (process_marshal w s m cl marshal publish e out)
  from mset_concat_held_update [OF process_marshal(1), of Idle] process_marshal show ?case
    by (simp add: messages_inv_def held_def)
next
  case (process_ok w s m cl marshal publish out)
  from mset_concat_held_update [OF process_ok(1), of Idle] process_ok show ?case
    by (simp add: messages_inv_def held_def)
next
  case (trip w s n fired p)
  from mset_concat_held_update [OF trip(1), of Idle] trip_circuit_frame [OF trip(3)] trip show ?case
    by (simp add: messages_inv_def held_def)
qed (simp_all add: messages_inv_def close_done_def close_messages_def)

interpretation pool: invariant_steps "publisher_step E" messages_inv for E
  by unfold_locales (rule publisher_step_messages)

lemma started_breaker: "breaker_inv (started_publisher opts)"
  by (simp add: breaker_inv_def started_publisher_def Let_def)

lemma started_messages: "messages_inv (started_publisher opts)"
  by (simp add: messages_inv_def started_publisher_def Let_def held_def NewAuditPublisher_buffer
      less_imp_le)

text \<open>
  C17. The circuit breaker cannot get stuck while the publisher runs: in every reachable state before
  \<open>Stop\<close>, however submitters, workers and the cooldown interleave, the breaker is open exactly when one
  cooldown goroutine is alive (never two), and the run can be continued to a state with the breaker
  closed.
\<close>

theorem breaker_reopens:
  assumes "(publisher_step E)\<^sup>*\<^sup>* (started_publisher opts) s" and "\<not> stop_called s"
  shows "(circuit_open (pub s) \<longleftrightarrow> length (cooldowns s) = 1) \<and> length (cooldowns s) \<le> 1 \<and>
    (\<exists>t. (publisher_step E)\<^sup>*\<^sup>* s t \<and> \<not> circuit_open (pub t) \<and> cooldowns t = [])"
proof -
  have inv: "breaker_inv s" by (rule breaker.steps_inv [OF assms(1) started_breaker])
  then have iff: "circuit_open (pub s) \<longleftrightarrow> length (cooldowns s) = 1" "length (cooldowns s) \<le> 1"
    using assms(2) by (cases "cooldowns s"; auto simp: breaker_inv_def)+
  have close: "\<exists>t. (publisher_step E)\<^sup>*\<^sup>* u t \<and> \<not> circuit_open (pub t) \<and> cooldowns t = []"
    if "cooldowns u = [CoolReset]" for u
  proof -
    have "publisher_step E u (u\<lparr>pub := (pub u)\<lparr>circuit_open := False\<rparr>,
        cooldowns := take 0 (cooldowns u) @ drop (Suc 0) (cooldowns u)\<rparr>)"
      by (rule publisher_step.cool_close) (simp_all add: that)
    then show ?thesis by (intro exI conjI, rule r_into_rtranclp) (simp_all add: that)
  qed
  have "\<exists>t. (publisher_step E)\<^sup>*\<^sup>* s t \<and> \<not> circuit_open (pub t) \<and> cooldowns t = []"
  proof (cases "cooldowns s")
    case Nil
    with iff show ?thesis by (intro exI [of _ s]) simp
  next
    case (Cons c cs)
    with iff(2) have one: "cooldowns s = [c]" by simp
    show ?thesis
    proof (cases c)
      case CoolReset
      with one close show ?thesis by blast
    next
      case CoolWaiting
      let ?u = "s\<lparr>pub := (pub s)\<lparr>consecutive_failures := 0\<rparr>, cooldowns := (cooldowns s)[0 := CoolReset]\<rparr>"
      have "publisher_step E s ?u" by (rule publisher_step.cool_expire) (simp_all add: one CoolWaiting)
      moreover have "cooldowns ?u = [CoolReset]" by (simp add: one)
      ultimately show ?thesis using close by (meson converse_rtranclp_into_rtranclp)
    qed
  qed
  with iff show ?thesis by blast
qed

theorem breaker_reopens_witness:
  "\<exists>s :: string pub_system. (publisher_step (\<lambda>_. True))\<^sup>*\<^sup>* (started_publisher [WithWorkerCount 1]) s \<and> \<not> stop_called s \<and>
    length (cooldowns s) \<le> 1"
  using breaker_reopens [OF rtranclp.rtrancl_refl, of "[WithWorkerCount 1]"]
  by (intro exI [of _ "started_publisher [WithWorkerCount 1]"]) (simp add: started_publisher_def Let_def)

text \<open>
  C23. No message is lost unseen: in every reachable state the messages submitted are, as multisets, those
  dropped with a log line, those published, those discarded after a failure, those in the buffer, those a
  worker holds, those whose \<open>Submit\<close> has passed the breaker and not yet sent, and those whose \<open>Submit\<close>
  panicked, which happens only once \<open>Stop\<close> has closed the channel; and the buffer never exceeds its
  configured size.
\<close>

theorem messages_accounted:
  assumes "(publisher_step E)\<^sup>*\<^sup>* (started_publisher opts) s"
  shows "mset (submitted s) =
      mset (dropped s) + mset (panicked s) + mset (published s) + mset (discarded s) +
      mset (msg_chan (pub s)) + mset (concat (map held (workers s))) + mset (admitted s) \<and>
    int (length (msg_chan (pub s))) \<le> buffer_size (pub s) \<and>
    (panicked s \<noteq> [] \<longrightarrow> stop_called s \<and> msg_chan_closed (pub s))"
  using pool.steps_inv [OF assms started_messages] breaker.steps_inv [OF assms started_breaker]
  by (simp add: messages_inv_def breaker_inv_def)

text \<open>A submission from start to end, when the breaker is closed: two steps.\<close>

lemma submit_steps:
  assumes "Submit m (pub s) = (Inr r, p)" and "r \<noteq> DroppedByCircuit"
  shows "(publisher_step E)\<^sup>*\<^sup>* s (s\<lparr>pub := p, submitted := m # submitted s,
    dropped := (if r = Enqueued then dropped s else m # dropped s)\<rparr>)"
proof -
  from assms have open_send: "\<not> circuit_open (pub s)" "submit_send m (pub s) = (Inr r, p)"
    by (auto simp: Submit_def split: if_splits)
  let ?a = "s\<lparr>submitted := m # submitted s, admitted := m # admitted s\<rparr>"
  have "publisher_step E s ?a" by (rule publisher_step.admit) (rule open_send)
  moreover have "publisher_step E ?a (s\<lparr>pub := p, submitted := m # submitted s,
      dropped := (if r = Enqueued then dropped s else m # dropped s)\<rparr>)"
    by (rule back_subst [of "publisher_step E ?a", OF publisher_step.send [of ?a "[]" m "admitted s" r p E]])
      (simp_all add: open_send)
  ultimately show ?thesis by (rule converse_rtranclp_into_rtranclp [OF _ r_into_rtranclp])
qed

theorem messages_accounted_witness:
  "\<exists>s. (publisher_step (\<lambda>_. True))\<^sup>*\<^sup>* (started_publisher [WithBufferSize 1]) s \<and> submitted s = [''b'', ''a''] \<and>
    dropped s = [''b''] \<and> mset (submitted s) =
      mset (dropped s) + mset (panicked s) + mset (published s) + mset (discarded s) +
      mset (msg_chan (pub s)) + mset (concat (map held (workers s))) + mset (admitted s)"
proof -
  let ?s0 = "started_publisher [WithBufferSize 1] :: string pub_system"
  let ?s1 = "?s0\<lparr>pub := (pub ?s0)\<lparr>msg_chan := [''a'']\<rparr>, submitted := [''a''], dropped := []\<rparr>"
  let ?s2 = "?s1\<lparr>pub := pub ?s1, submitted := [''b'', ''a''], dropped := [''b'']\<rparr>"
  have p: "pub ?s0 = (NewAuditPublisher [WithBufferSize 1] :: string publisher)"
    "submitted ?s0 = []" "dropped ?s0 = []"
    by (simp_all add: started_publisher_def Let_def)
  have b: "buffer_size (NewAuditPublisher [WithBufferSize 1]) = 1"
    by (simp add: NewAuditPublisher_def default_publisher_def)
  have "Submit ''a'' (pub ?s0) = (Inr Enqueued, (pub ?s0)\<lparr>msg_chan := [''a'']\<rparr>)"
    by (simp add: Submit_def submit_send_def p(1) b)
  from submit_steps [OF this] have 1: "(publisher_step (\<lambda>_. True))\<^sup>*\<^sup>* ?s0 ?s1" by (simp add: p)
  have "Submit ''b'' (pub ?s1) = (Inr DroppedBufferFull, pub ?s1)"
    by (simp add: Submit_def submit_send_def p(1) b)
  from submit_steps [OF this] have 2: "(publisher_step (\<lambda>_. True))\<^sup>*\<^sup>* ?s1 ?s2" by simp
  from 1 2 have run: "(publisher_step (\<lambda>_. True))\<^sup>*\<^sup>* ?s0 ?s2" by (rule rtranclp_trans)
  from messages_accounted [OF run] show ?thesis using run by (intro exI [of _ ?s2]) simp
qed

text \<open>
  Submitting is not safe with \<open>Stop\<close>: once the channel is closed a \<open>Submit\<close> panics (a send on a closed channel)
  unless it finds the breaker open, and so does one that had passed the breaker before \<open>Stop\<close> was called.
\<close>

theorem submit_after_stop:
  assumes "(publisher_step E)\<^sup>*\<^sup>* (started_publisher opts) s" and "msg_chan_closed (pub s)"
  shows "stop_called s \<and>
    fst (Submit m (pub s)) = (if circuit_open (pub s) then Inr DroppedByCircuit else Inl SendOnClosedChannel) \<and>
    (admitted s = before @ m' # after \<longrightarrow>
       publisher_step E s (s\<lparr>admitted := before @ after, panicked := m' # panicked s\<rparr>))"
  using breaker.steps_inv [OF assms(1) started_breaker] assms(2)
    publisher_step.send_panics [of s before m' after SendOnClosedChannel "pub s" E]
  by (simp add: breaker_inv_def Submit_def submit_send_def)

theorem submit_after_stop_witness:
  "\<exists>s. (publisher_step (\<lambda>_. True))\<^sup>*\<^sup>* (started_publisher []) s \<and> fst (Submit ''m'' (pub s)) = Inl SendOnClosedChannel"
proof -
  let ?s0 = "started_publisher [] :: string pub_system"
  let ?s1 = "?s0\<lparr>pub := close_done (pub ?s0), stop_called := True\<rparr>"
  let ?s2 = "?s1\<lparr>pub := close_messages (pub ?s1)\<rparr>"
  have "publisher_step (\<lambda>_. True) ?s0 ?s1"
    by (rule publisher_step.stop) (simp add: started_publisher_def Let_def)
  moreover have "publisher_step (\<lambda>_. True) ?s1 ?s2"
    by (rule publisher_step.stop_messages) (simp_all add: started_publisher_def Let_def close_done_def)
  ultimately have run: "(publisher_step (\<lambda>_. True))\<^sup>*\<^sup>* ?s0 ?s2" by simp
  have "msg_chan_closed (pub ?s2)" "\<not> circuit_open (pub ?s2)"
    by (simp_all add: close_messages_def close_done_def started_publisher_def Let_def)
  with submit_after_stop [OF run, of "''m''"] run show ?thesis by (intro exI [of _ ?s2]) simp
qed

text \<open>
  The options \<open>WithMaxRetries\<close> and \<open>WithPublishTimeout\<close> have no effect: whatever they are set to, a
  message gets the same result and the same publications, at most one of them, so a message whose
  push fails is lost.
\<close>

theorem retries_and_timeout_unused:
  "process_message cl marshal publish m
     (apply_publisher_option (WithMaxRetries n) (apply_publisher_option (WithPublishTimeout d) p)) =
   process_message cl marshal publish m p \<and>
   length (snd (process_message cl marshal publish m p)) \<le> 1"
  by (auto simp: process_message_def PushWithTTL_def Let_def split: option.splits sum.splits prod.splits)

end
