(* ===== verification/JsonCodec.thy ===== *)
theory JsonCodec
  imports AuditPublisher
begin

section \<open>json_codec.go and phjson: the encoder of audit messages\<close>

text \<open>
  The marshaler of audit messages is a package variable, so is the configuration of \<^verbatim>\<open>phjson\<close>. The two
  encoders, \<^verbatim>\<open>encoding/json\<close> over arbitrary Go values and \<^verbatim>\<open>sonic\<close> (by its \<open>EscapeHTML\<close> flag), are parameters.
\<close>

datatype 'v audit_marshaler = DefaultNoEsc | PhjsonMarshal | OtherMarshal "'v \<Rightarrow> err + string"

record 'v codec_state =
  audit_json_marshal :: "'v audit_marshaler"
  config_default :: "bool option"

record 'v json_encoders =
  std_no_escape :: "'v \<Rightarrow> err + string"
  sonic :: "bool \<Rightarrow> 'v \<Rightarrow> err + string"
  sonic_indent :: "bool \<Rightarrow> 'v \<Rightarrow> string \<Rightarrow> string \<Rightarrow> err + string"
  sonic_decode :: "bool \<Rightarrow> string \<Rightarrow> 'v \<Rightarrow> 'v \<times> err option"

definition phjson_NewConfig :: "bool option \<Rightarrow> 'v codec_state \<Rightarrow> 'v codec_state" where
  "phjson_NewConfig config s =
     s\<lparr>config_default := Some (case config of None \<Rightarrow> False | Some escapeHTML \<Rightarrow> escapeHTML)\<rparr>"

definition ConfigureForAuditTrail :: "'v codec_state \<Rightarrow> 'v codec_state" where
  "ConfigureForAuditTrail s = phjson_NewConfig (Some False) s"

definition phjson_GetConfig :: "'v codec_state \<Rightarrow> bool \<times> 'v codec_state" where
  "phjson_GetConfig s =
     (let s' = (if config_default s = None then s\<lparr>config_default := Some False\<rparr> else s)
      in (the (config_default s'), s'))"

definition phjson_Marshal :: "'v json_encoders \<Rightarrow> 'v \<Rightarrow> 'v codec_state \<Rightarrow> (err + string) \<times> 'v codec_state" where
  "phjson_Marshal je v s = (let (cfg, s') = phjson_GetConfig s in (sonic je cfg v, s'))"

text \<open>\<open>Unmarshal\<close> fills the value behind the pointer it is given: the value before, and what decoding left in it.\<close>

definition phjson_Unmarshal ::
  "'v json_encoders \<Rightarrow> string \<Rightarrow> 'v \<Rightarrow> 'v codec_state \<Rightarrow> ('v \<times> err option) \<times> 'v codec_state" where
  "phjson_Unmarshal je data v s = (let (cfg, s') = phjson_GetConfig s in (sonic_decode je cfg data v, s'))"

definition phjson_MarshalIndent ::
  "'v json_encoders \<Rightarrow> 'v \<Rightarrow> string \<Rightarrow> string \<Rightarrow> 'v codec_state \<Rightarrow> (err + string) \<times> 'v codec_state" where
  "phjson_MarshalIndent je v prefix indent s =
     (let (cfg, s') = phjson_GetConfig s in (sonic_indent je cfg v prefix indent, s'))"

definition defaultAuditJSONMarshalNoEsc :: "'v json_encoders \<Rightarrow> 'v \<Rightarrow> err + string" where
  "defaultAuditJSONMarshalNoEsc je v = std_no_escape je v"

text \<open>\<open>None\<close> is a nil function, which restores the default.\<close>

definition ConfigureAuditJSONMarshal :: "'v audit_marshaler option \<Rightarrow> 'v codec_state \<Rightarrow> 'v codec_state" where
  "ConfigureAuditJSONMarshal fn s =
     s\<lparr>audit_json_marshal := (case fn of None \<Rightarrow> DefaultNoEsc | Some f \<Rightarrow> f)\<rparr>"

definition json_marshal_no_esc :: "'v json_encoders \<Rightarrow> 'v \<Rightarrow> 'v codec_state \<Rightarrow> (err + string) \<times> 'v codec_state" where
  "json_marshal_no_esc je v s =
     (case audit_json_marshal s of
        DefaultNoEsc \<Rightarrow> (defaultAuditJSONMarshalNoEsc je v, s)
      | PhjsonMarshal \<Rightarrow> phjson_Marshal je v s
      | OtherMarshal f \<Rightarrow> (f v, s))"

text \<open>
  A worker of the audit publisher encodes with the marshaler set at that moment: after the documented
  opt-in, the body it hands to the AMQP client is sonic's encoding without HTML escaping, also when the
  configuration was never frozen before.
\<close>

lemma worker_uses_configured_marshaler:
  assumes "is_ready c" and "sonic je False m = Inr body"
    and "s0 = ConfigureForAuditTrail s \<or> config_default s0 = None"
  shows "process_message (Some c)
      (\<lambda>v. fst (json_marshal_no_esc je v (ConfigureAuditJSONMarshal (Some PhjsonMarshal) s0))) publish m p =
    (case PushWithTTL publish body (message_ttl p) c of
       (Inl pa, out) \<Rightarrow> (PushPanicked pa, out)
     | (Inr (Some e), out) \<Rightarrow> (PushFailed e, out)
     | (Inr None, out) \<Rightarrow> (Pushed, out))"
  using assms
  by (auto simp: process_message_def IsReady_def json_marshal_no_esc_def ConfigureAuditJSONMarshal_def
      phjson_Marshal_def phjson_GetConfig_def ConfigureForAuditTrail_def phjson_NewConfig_def Let_def)

lemma configure_nil_restores:
  "json_marshal_no_esc je v (ConfigureAuditJSONMarshal None s) =
     (std_no_escape je v, ConfigureAuditJSONMarshal None s)"
  by (simp add: json_marshal_no_esc_def defaultAuditJSONMarshalNoEsc_def ConfigureAuditJSONMarshal_def)

text \<open>
  The configuration is frozen once, by whichever call of \<^verbatim>\<open>phjson\<close> comes first, and then used by all of them:
  a value decodes and encodes under the same flag, and asking again changes nothing.
\<close>

lemma phjson_config_is_sticky:
  assumes "phjson_GetConfig s = (cfg, s')"
  shows "phjson_GetConfig s' = (cfg, s')" and "phjson_Marshal je v s' = (sonic je cfg v, s')"
    and "phjson_Unmarshal je data w s' = (sonic_decode je cfg data w, s')"
    and "phjson_MarshalIndent je v prefix indent s' = (sonic_indent je cfg v prefix indent, s')"
  using assms
  by (auto simp: phjson_GetConfig_def phjson_Marshal_def phjson_Unmarshal_def phjson_MarshalIndent_def Let_def
      split: if_splits)

end
