(* ===== verification/MutexRegistry.thy ===== *)
theory MutexRegistry
  imports Interfaces
begin

section \<open>mutex.go: the registry of held locks\<close>

text \<open>
  \<open>mutexMap\<close>, a Go map from lock keys to \<^verbatim>\<open>*redsync.Mutex\<close>. A pointer is an option (\<open>None\<close> is nil, and
  nil may be stored). A redsync mutex is known by the options it was made with and by its
  identity, since every \<open>NewMutex\<close> draws its own ownership value.
\<close>

record redsync_mutex =
  mx_id :: nat
  mx_name :: string
  mx_expiry :: int
  mx_tries :: "int option"
  mx_retry_delay :: "int option"

type_synonym mutex_map = "string \<rightharpoonup> redsync_mutex option"

definition StoreMutex :: "string \<Rightarrow> redsync_mutex option \<Rightarrow> mutex_map \<Rightarrow> mutex_map" where
  "StoreMutex key mutex mm = mm(key \<mapsto> mutex)"

definition GetMutex :: "string \<Rightarrow> mutex_map \<Rightarrow> redsync_mutex option" where
  "GetMutex key mm = (case mm key of None \<Rightarrow> None | Some mutex \<Rightarrow> mutex)"

definition RemoveMutex :: "string \<Rightarrow> mutex_map \<Rightarrow> mutex_map" where
  "RemoveMutex key mm = mm(key := None)"

interpretation registry: kv_store_del StoreMutex GetMutex "\<lambda>m. m" "\<lambda>_. True" RemoveMutex None
  by unfold_locales (auto simp: StoreMutex_def GetMutex_def RemoveMutex_def)

lemmas registry_simps [simp] =
  registry.get_put_same [OF TrueI] registry.get_put_other [OF TrueI] registry.get_del

end
