(* ===== verification/RedisConfig.thy ===== *)
theory RedisConfig
  imports AppGlobals MutexRegistry
begin

section \<open>redis.go: configuration, connection and redsync initialisation\<close>

text \<open>
  The package variables of \<^verbatim>\<open>redis.go\<close> and \<^verbatim>\<open>mutex.go\<close> as one record. A client of \<^verbatim>\<open>go-redis\<close> is a
  numbered handle; what connecting to the server gives (the handle of the new client and the error
  of its \<open>PING\<close>) is an argument of the operations that may connect, and \<open>redis_sent\<close> is the trace of
  the commands that leave the process. \<open>reconnect_mu\<close> and \<open>red_sync_once\<close> say whether the reconnect
  mutex is held and where the once of redsync stands, so that an operation that blocks on them for
  ever is the outcome \<open>Hangs\<close>.
\<close>

record redis_options =
  ro_addr :: string
  ro_username :: string
  ro_password :: string
  ro_db :: int
  ro_max_retries :: int
  ro_min_retry_backoff :: int
  ro_max_retry_backoff :: int
  ro_read_timeout :: int
  ro_conn_max_idle_time :: int

datatype redis_cmd =
    Ping redis_options
  | CloseClient nat
  | SetName nat string
  | GetName nat
  | SetKey nat string string int
  | GetKey nat string
  | DelKey nat string
  | LockMutex redsync_mutex
  | UnlockMutex redsync_mutex

record redis_state =
  default_redis_timeout :: int
  host_mem :: "string option"
  port_mem :: "string option"
  password_mem :: "string option"
  db_mem :: "int option"
  redis_opts :: "redis_options option"
  effective_timeout :: int
  pool_client :: "nat option"
  reconnect_mu :: bool
  red_sync :: "nat option"
  red_sync_once :: sync_once
  red_sync_err :: "err option"
  redis_lock_key :: string
  mutexes :: mutex_map
  cached_backoff :: "int option"
  cached_lock_timeout :: "int option"
  redis_sent :: "redis_cmd list"

definition initial_redis_state :: redis_state where
  "initial_redis_state = \<lparr>default_redis_timeout = 1000 * Millisecond,
     host_mem = None, port_mem = None, password_mem = None, db_mem = None,
     redis_opts = None, effective_timeout = 0, pool_client = None, reconnect_mu = False,
     red_sync = None, red_sync_once = OnceNew, red_sync_err = None,
     redis_lock_key = ''redis_lock:'', mutexes = Map.empty,
     cached_backoff = None, cached_lock_timeout = None, redis_sent = []\<rparr>"

definition send_cmd :: "redis_cmd \<Rightarrow> redis_state \<Rightarrow> redis_state" where
  "send_cmd cmd st = st\<lparr>redis_sent := redis_sent st @ [cmd]\<rparr>"

subsection \<open>Options\<close>

definition GetRedisOptions :: "redis_state \<Rightarrow> redis_options option" where
  "GetRedisOptions st = redis_opts st"

definition set_redis_lock_key :: "string \<Rightarrow> redis_state \<Rightarrow> redis_state" where
  "set_redis_lock_key k st = st\<lparr>redis_lock_key := k\<rparr>"

definition get_redis_lock_key :: "redis_state \<Rightarrow> string" where
  "get_redis_lock_key st = redis_lock_key st"

definition redis_timeout :: "redis_state \<Rightarrow> int" where
  "redis_timeout st =
     (if effective_timeout st > 0 then effective_timeout st else default_redis_timeout st)"

definition RedisEnabled :: "redis_state \<Rightarrow> bool" where
  "RedisEnabled st = (pool_client st \<noteq> None)"

text \<open>
  \<open>InitRedisOptions\<close> remembers host and port when the address splits. The remembered password and
  database point into the very options that are being completed, so completing an empty password
  or a zero database from them changes nothing. An empty address is completed from the remembered
  host and port, a nil dereference when there are none.
\<close>

definition fill_option_defaults :: "redis_options \<Rightarrow> redis_options" where
  "fill_option_defaults ro =
     (let ro1 = (if ro_username ro = [] then ro\<lparr>ro_username := ''default''\<rparr> else ro);
          ro2 = (if ro_max_retries ro1 = 0 then ro1\<lparr>ro_max_retries := 3\<rparr> else ro1);
          ro3 = (if ro_min_retry_backoff ro2 = 0
                 then ro2\<lparr>ro_min_retry_backoff := 10 * Millisecond\<rparr> else ro2);
          ro4 = (if ro_max_retry_backoff ro3 = 0
                 then ro3\<lparr>ro_max_retry_backoff := 500 * Millisecond\<rparr> else ro3)
      in if ro_conn_max_idle_time ro4 = 0
         then ro4\<lparr>ro_conn_max_idle_time := 5 * Minute\<rparr> else ro4)"

definition InitRedisOptions ::
  "redis_options \<Rightarrow> redis_state \<Rightarrow> redis_options outcome \<times> redis_state" where
  "InitRedisOptions rawOpt st =
     (let st1 = (case split_host_port (ro_addr rawOpt) of
                   Some (h, p) \<Rightarrow> st\<lparr>host_mem := Some h, port_mem := Some p\<rparr>
                 | None \<Rightarrow> st);
          st2 = st1\<lparr>password_mem := Some (ro_password rawOpt), db_mem := Some (ro_db rawOpt)\<rparr>;
          addr = (if ro_addr rawOpt = [] then
                    (case (host_mem st2, port_mem st2) of
                       (Some h, Some p) \<Rightarrow> Some (join_host_port h p)
                     | _ \<Rightarrow> None)
                  else Some (ro_addr rawOpt))
      in case addr of
           None \<Rightarrow> (Panicked NilDereference, st2)
         | Some a \<Rightarrow>
             (let ro1 = rawOpt\<lparr>ro_addr := a\<rparr>;
                  ro2 = (if ro_password ro1 = [] then ro1\<lparr>ro_password := the (password_mem st2)\<rparr>
                         else ro1);
                  ro3 = (if ro_db ro2 = 0 then ro2\<lparr>ro_db := the (db_mem st2)\<rparr> else ro2);
                  ro = fill_option_defaults ro3;
                  st3 = st2\<lparr>redis_opts := Some ro\<rparr>;
                  st4 = (if ro_read_timeout ro > 0
                         then st3\<lparr>effective_timeout :=
                                dur_add (ro_read_timeout ro) (default_redis_timeout st3)\<rparr>
                         else st3)
              in (Returned ro, st4)))"

lemma fill_option_defaults_keeps [simp]:
  "ro_addr (fill_option_defaults ro) = ro_addr ro"
  "ro_password (fill_option_defaults ro) = ro_password ro"
  "ro_db (fill_option_defaults ro) = ro_db ro"
  "ro_read_timeout (fill_option_defaults ro) = ro_read_timeout ro"
  by (simp_all add: fill_option_defaults_def Let_def)

lemma fill_option_defaults_set:
  "ro_username (fill_option_defaults ro) = (if ro_username ro = [] then ''default'' else ro_username ro)"
  "ro_max_retries (fill_option_defaults ro) = (if ro_max_retries ro = 0 then 3 else ro_max_retries ro)"
  "ro_min_retry_backoff (fill_option_defaults ro) =
     (if ro_min_retry_backoff ro = 0 then 10 * Millisecond else ro_min_retry_backoff ro)"
  "ro_max_retry_backoff (fill_option_defaults ro) =
     (if ro_max_retry_backoff ro = 0 then 500 * Millisecond else ro_max_retry_backoff ro)"
  "ro_conn_max_idle_time (fill_option_defaults ro) =
     (if ro_conn_max_idle_time ro = 0 then 5 * Minute else ro_conn_max_idle_time ro)"
  by (simp_all add: fill_option_defaults_def Let_def)

subsection \<open>Connecting and the redsync once\<close>

text \<open>
  \<open>initRedisClient\<close> ends in \<open>InitRedSyncOnce\<close>, whose once function calls \<open>GetRedisPoolClient\<close>, which
  may connect through \<open>initRedisClient\<close> again: the three are mutually recursive, and the recursion
  ends because a once that is running blocks. \<open>reply\<close> is what a connection attempt gives.
\<close>

type_synonym conn_reply = "nat \<times> err option"

definition once_weight :: "redis_state \<Rightarrow> nat" where
  "once_weight st = (if red_sync_once st = OnceNew then 3 else 0)"

function init_redis_client ::
    "globals \<Rightarrow> conn_reply \<Rightarrow> redis_options option \<Rightarrow> redis_state \<Rightarrow> err option outcome \<times> redis_state"
  and GetRedisPoolClient ::
    "globals \<Rightarrow> conn_reply \<Rightarrow> redis_state \<Rightarrow> (err + nat option) outcome \<times> redis_state"
  and InitRedSyncOnce ::
    "globals \<Rightarrow> conn_reply \<Rightarrow> redis_state \<Rightarrow> err option outcome \<times> redis_state" where
  "init_redis_client g reply opt st =
     (case opt of
        None \<Rightarrow> (Returned (Some ''nil redis options''), st)
      | Some ro \<Rightarrow>
          (let c = fst reply; st0 = send_cmd (Ping ro) st in
           case snd reply of
             Some e \<Rightarrow> (Returned (Some e), send_cmd (CloseClient c) (st0\<lparr>pool_client := None\<rparr>))
           | None \<Rightarrow>
               (let st1 = st0\<lparr>pool_client := Some c\<rparr>;
                    st2 = (if get_app_name g \<noteq> []
                           then send_cmd (GetName c) (send_cmd (SetName c (get_app_name g)) st1)
                           else st1)
                in case InitRedSyncOnce g reply st2 of
                     (Hangs, st3) \<Rightarrow> (Hangs, st3)
                   | (Panicked p, st3) \<Rightarrow> (Panicked p, st3)
                   | (Returned _, st3) \<Rightarrow> (Returned None, st3))))"
| "GetRedisPoolClient g reply st =
     (case redis_opts st of
        None \<Rightarrow> (Returned (Inl ''nil redis options''), st)
      | Some ro \<Rightarrow>
          (case pool_client st of
             Some c \<Rightarrow> (Returned (Inr (Some c)), st)
           | None \<Rightarrow>
               (if reconnect_mu st then (Hangs, st)
                else case init_redis_client g reply (Some ro) (st\<lparr>reconnect_mu := True\<rparr>) of
                       (Hangs, st1) \<Rightarrow> (Hangs, st1)
                     | (Panicked p, st1) \<Rightarrow> (Panicked p, st1\<lparr>reconnect_mu := False\<rparr>)
                     | (Returned (Some e), st1) \<Rightarrow> (Returned (Inl e), st1\<lparr>reconnect_mu := False\<rparr>)
                     | (Returned None, st1) \<Rightarrow>
                         (Returned (Inr (pool_client st1)), st1\<lparr>reconnect_mu := False\<rparr>))))"
| "InitRedSyncOnce g reply st =
     (case red_sync_once st of
        OnceDone \<Rightarrow> (Returned (red_sync_err st), st)
      | OnceRunning \<Rightarrow> (Hangs, st)
      | OnceNew \<Rightarrow>
          (case GetRedisPoolClient g reply (st\<lparr>red_sync_once := OnceRunning\<rparr>) of
             (Hangs, st1) \<Rightarrow> (Hangs, st1)
           | (Panicked p, st1) \<Rightarrow> (Panicked p, st1\<lparr>red_sync_once := OnceDone\<rparr>)
           | (Returned (Inl e), st1) \<Rightarrow>
               (Returned (Some e), st1\<lparr>red_sync_once := OnceDone, red_sync_err := Some e\<rparr>)
           | (Returned (Inr c), st1) \<Rightarrow>
               (Returned None,
                st1\<lparr>red_sync_once := OnceDone, red_sync_err := None, red_sync := c\<rparr>)))"
  by pat_completeness auto

termination
  by (relation "measure (case_sum (\<lambda>(g, r, opt, st). once_weight st + 1)
        (case_sum (\<lambda>(g, r, st). once_weight st + 2) (\<lambda>(g, r, st). once_weight st)))")
    (auto simp: once_weight_def send_cmd_def)

declare init_redis_client.simps [simp del] GetRedisPoolClient.simps [simp del]
  InitRedSyncOnce.simps [simp del]

definition GetRedisClient ::
  "globals \<Rightarrow> conn_reply \<Rightarrow> string \<Rightarrow> string \<Rightarrow> string \<Rightarrow> int \<Rightarrow> redis_state \<Rightarrow>
     err option outcome \<times> redis_state" where
  "GetRedisClient g reply host port password db st =
     (case GetRedisOptions st of
        None \<Rightarrow>
          (case InitRedisOptions \<lparr>ro_addr = host @ '':'' @ port, ro_username = [],
                  ro_password = password, ro_db = db, ro_max_retries = 0, ro_min_retry_backoff = 0,
                  ro_max_retry_backoff = 0, ro_read_timeout = 0, ro_conn_max_idle_time = 0\<rparr> st of
             (Returned _, st1) \<Rightarrow> init_redis_client g reply (GetRedisOptions st1) st1
           | (Panicked p, st1) \<Rightarrow> (Panicked p, st1)
           | (Hangs, st1) \<Rightarrow> (Hangs, st1))
      | Some ro \<Rightarrow> init_redis_client g reply (GetRedisOptions st) st)"

subsection \<open>Initialisation with retries\<close>

record redis_init_options =
  rio_options :: redis_options
  rio_max_retries :: int
  rio_retry_delay :: int
  rio_fail_fast :: bool

text \<open>
  The attempts \<open>attempt\<close> .. \<open>maxRetries\<close> (\<open>remaining\<close> many); \<open>replies\<close> gives what the connection attempt
  of each number meets. Besides the outcome (\<open>Inr\<close> on success, \<open>Inl\<close> with \<open>lastErr\<close> otherwise) the loop
  returns the sleeps between the attempts.
\<close>

fun connect_loop ::
  "globals \<Rightarrow> (int \<Rightarrow> conn_reply) \<Rightarrow> int \<Rightarrow> int \<Rightarrow> nat \<Rightarrow> int \<Rightarrow> err option \<Rightarrow> redis_state \<Rightarrow>
     (err option + unit) outcome \<times> int list \<times> redis_state" where
  "connect_loop g replies maxRetries delay 0 attempt lastErr st = (Returned (Inl lastErr), [], st)"
| "connect_loop g replies maxRetries delay (Suc remaining) attempt lastErr st =
     (case init_redis_client g (replies attempt) (GetRedisOptions st) st of
        (Returned None, st1) \<Rightarrow> (Returned (Inr ()), [], st1)
      | (Returned (Some e), st1) \<Rightarrow>
          (let (r, sleeps, st2) =
             connect_loop g replies maxRetries delay remaining (attempt + 1) (Some e) st1
           in (r, (if attempt < maxRetries then [dur_mul delay attempt] else []) @ sleeps, st2))
      | (Hangs, st1) \<Rightarrow> (Hangs, [], st1)
      | (Panicked p, st1) \<Rightarrow> (Panicked p, [], st1))"

definition InitializeRedisWithRetry ::
  "globals \<Rightarrow> (int \<Rightarrow> conn_reply) \<Rightarrow> redis_init_options \<Rightarrow> redis_state \<Rightarrow>
     err option outcome \<times> int list \<times> redis_state" where
  "InitializeRedisWithRetry g replies opts st =
     (let maxRetries = (if rio_max_retries opts = 0 then 3 else rio_max_retries opts);
          delay = (if rio_retry_delay opts = 0 then Second else rio_retry_delay opts);
          st1 = set_redis_lock_key (''redis_lock:'' @ get_app_name g @ '':'') st
      in case InitRedisOptions (rio_options opts) st1 of
           (Hangs, st2) \<Rightarrow> (Hangs, [], st2)
         | (Panicked p, st2) \<Rightarrow> (Panicked p, [], st2)
         | (Returned _, st2) \<Rightarrow>
             (case connect_loop g replies maxRetries delay (nat maxRetries) 1 None st2 of
                (Returned (Inr _), sleeps, st3) \<Rightarrow> (Returned None, sleeps, st3)
              | (Returned (Inl lastErr), sleeps, st3) \<Rightarrow>
                  (if rio_fail_fast opts
                   then (Returned (Some (''failed to initialize Redis after '' @ itoa maxRetries @
                           '' attempts: '' @ (case lastErr of Some e \<Rightarrow> e | None \<Rightarrow> ''%!w(<nil>)''))),
                         sleeps, st3)
                   else (case lastErr of
                           Some e \<Rightarrow> (Returned None, sleeps, st3)
                         | None \<Rightarrow> (Panicked NilDereference, sleeps, st3)))
              | (Hangs, sleeps, st3) \<Rightarrow> (Hangs, sleeps, st3)
              | (Panicked p, sleeps, st3) \<Rightarrow> (Panicked p, sleeps, st3)))"

definition InitializeRedis ::
  "globals \<Rightarrow> (int \<Rightarrow> conn_reply) \<Rightarrow> redis_options \<Rightarrow> redis_state \<Rightarrow> unit outcome \<times> redis_state" where
  "InitializeRedis g replies opt st =
     (case InitializeRedisWithRetry g replies \<lparr>rio_options = opt, rio_max_retries = 3,
             rio_retry_delay = Second, rio_fail_fast = False\<rparr> st of
        (Returned _, sleeps, st1) \<Rightarrow> (Returned (), st1)
      | (Panicked p, sleeps, st1) \<Rightarrow> (Panicked p, st1)
      | (Hangs, sleeps, st1) \<Rightarrow> (Hangs, st1))"

definition blank_redis_options :: redis_options where
  "blank_redis_options = \<lparr>ro_addr = [], ro_username = [], ro_password = [], ro_db = 0,
     ro_max_retries = 0, ro_min_retry_backoff = 0, ro_max_retry_backoff = 0, ro_read_timeout = 0,
     ro_conn_max_idle_time = 0\<rparr>"

definition redis_env_options :: "env \<Rightarrow> redis_options" where
  "redis_env_options ev =
     (let port = (if ev ''REDIS_PORT'' = [] then ''6379'' else ev ''REDIS_PORT'');
          db = (if ev ''REDIS_DB'' \<noteq> []
                then (case atoi (ev ''REDIS_DB'') of Some v \<Rightarrow> v | None \<Rightarrow> 0) else 0)
      in blank_redis_options\<lparr>ro_addr := join_host_port (ev ''REDIS_HOST'') port,
           ro_password := ev ''REDIS_PASSWORD'', ro_db := db\<rparr>)"

definition InitRedisFromEnv ::
  "globals \<Rightarrow> env \<Rightarrow> (int \<Rightarrow> conn_reply) \<Rightarrow> redis_state \<Rightarrow> err option outcome \<times> int list \<times> redis_state" where
  "InitRedisFromEnv g ev replies st =
     (if ev ''REDIS_HOST'' = [] then (Returned None, [], st)
      else InitializeRedisWithRetry g replies \<lparr>rio_options = redis_env_options ev,
             rio_max_retries = 3, rio_retry_delay = Second, rio_fail_fast = True\<rparr> st)"

text \<open>
  \<open>resetRedisClientStateForTesting\<close>. It does not forget the remembered host, port, password and database,
  nor the registry of mutexes.
\<close>

definition reset_redis_client_state :: "redis_state \<Rightarrow> redis_state" where
  "reset_redis_client_state st =
     (let st1 = (case pool_client st of Some c \<Rightarrow> send_cmd (CloseClient c) st | None \<Rightarrow> st)
      in st1\<lparr>pool_client := None, red_sync := None, red_sync_once := OnceNew, red_sync_err := None,
           redis_opts := None, effective_timeout := 0, redis_lock_key := ''redis_lock:'',
           cached_backoff := None, cached_lock_timeout := None\<rparr>)"

lemma reset_redis_client_state_initial:
  "\<exists>cs. reset_redis_client_state st = initial_redis_state\<lparr>default_redis_timeout := default_redis_timeout st,
     host_mem := host_mem st, port_mem := port_mem st, password_mem := password_mem st, db_mem := db_mem st,
     reconnect_mu := reconnect_mu st, mutexes := mutexes st, redis_sent := cs\<rparr>"
  by (cases st) (auto simp: reset_redis_client_state_def initial_redis_state_def send_cmd_def Let_def split: option.split)

subsection \<open>Facts about connecting\<close>

text \<open>What a connection attempt that fails does, and what it never touches.\<close>

lemma init_redis_client_fails:
  "snd reply = Some e \<Longrightarrow> init_redis_client g reply (Some ro) st =
     (Returned (Some e), send_cmd (CloseClient (fst reply)) ((send_cmd (Ping ro) st)\<lparr>pool_client := None\<rparr>))"
  by (simp add: init_redis_client.simps Let_def)

lemma send_cmd_simps [simp]:
  "redis_opts (send_cmd c st) = redis_opts st" "pool_client (send_cmd c st) = pool_client st"
  "red_sync_once (send_cmd c st) = red_sync_once st" "red_sync (send_cmd c st) = red_sync st"
  "red_sync_err (send_cmd c st) = red_sync_err st" "reconnect_mu (send_cmd c st) = reconnect_mu st"
  "host_mem (send_cmd c st) = host_mem st" "port_mem (send_cmd c st) = port_mem st"
  "mutexes (send_cmd c st) = mutexes st" "redis_lock_key (send_cmd c st) = redis_lock_key st"
  "cached_backoff (send_cmd c st) = cached_backoff st"
  "cached_lock_timeout (send_cmd c st) = cached_lock_timeout st"
  "redis_sent (send_cmd c st) = redis_sent st @ [c]"
  by (simp_all add: send_cmd_def)

lemma GetRedisPoolClient_alive:
  "redis_opts st = Some ro \<Longrightarrow> pool_client st = Some c \<Longrightarrow>
   GetRedisPoolClient g reply st = (Returned (Inr (Some c)), st)"
  by (simp add: GetRedisPoolClient.simps)

lemma GetRedisPoolClient_unset:
  "redis_opts st = None \<Longrightarrow> GetRedisPoolClient g reply st = (Returned (Inl ''nil redis options''), st)"
  by (simp add: GetRedisPoolClient.simps)

lemma InitRedSyncOnce_done:
  "red_sync_once st = OnceDone \<Longrightarrow> InitRedSyncOnce g reply st = (Returned (red_sync_err st), st)"
  by (simp add: InitRedSyncOnce.simps)

lemma InitRedSyncOnce_running: "red_sync_once st = OnceRunning \<Longrightarrow> InitRedSyncOnce g reply st = (Hangs, st)"
  by (simp add: InitRedSyncOnce.simps)

text \<open>With a live client the once runs to its end.\<close>

lemma InitRedSyncOnce_alive:
  "red_sync_once st = OnceNew \<Longrightarrow> redis_opts st = Some ro \<Longrightarrow> pool_client st = Some c \<Longrightarrow>
   InitRedSyncOnce g reply st =
     (Returned None, st\<lparr>red_sync_once := OnceDone, red_sync_err := None, red_sync := Some c\<rparr>)"
  by (simp add: InitRedSyncOnce.simps GetRedisPoolClient_alive)

text \<open>
  A successful connection attempt with the once not running: the client is in the pool, and
  redsync is initialised for it unless its once had already been spent.
\<close>

lemma init_redis_client_connects:
  assumes "snd reply = None" and "redis_opts st = Some ro" and "red_sync_once st \<noteq> OnceRunning"
  obtains st' where "init_redis_client g reply (Some ro) st = (Returned None, st')"
    and "pool_client st' = Some (fst reply)" and "redis_opts st' = Some ro"
    and "red_sync_once st' = OnceDone" and "reconnect_mu st' = reconnect_mu st"
    and "red_sync_once st = OnceNew \<Longrightarrow> red_sync st' = Some (fst reply) \<and> red_sync_err st' = None"
    and "red_sync_once st = OnceDone \<Longrightarrow> red_sync st' = red_sync st \<and> red_sync_err st' = red_sync_err st"
    and "mutexes st' = mutexes st"
proof -
  let ?st1 = "(send_cmd (Ping ro) st)\<lparr>pool_client := Some (fst reply)\<rparr>"
  let ?st2 = "if get_app_name g \<noteq> []
    then send_cmd (GetName (fst reply)) (send_cmd (SetName (fst reply) (get_app_name g)) ?st1) else ?st1"
  have f: "redis_opts ?st2 = Some ro" "pool_client ?st2 = Some (fst reply)"
      "red_sync_once ?st2 = red_sync_once st" "red_sync ?st2 = red_sync st"
      "red_sync_err ?st2 = red_sync_err st" "reconnect_mu ?st2 = reconnect_mu st"
      "mutexes ?st2 = mutexes st"
    using assms by simp_all
  have i: "init_redis_client g reply (Some ro) st =
      (case InitRedSyncOnce g reply ?st2 of
         (Hangs, st3) \<Rightarrow> (Hangs, st3)
       | (Panicked p, st3) \<Rightarrow> (Panicked p, st3)
       | (Returned _, st3) \<Rightarrow> (Returned None, st3))"
    using assms by (simp add: init_redis_client.simps Let_def)
  show thesis
  proof (cases "red_sync_once st = OnceNew")
    case True
    let ?st3 = "?st2\<lparr>red_sync_once := OnceDone, red_sync_err := None, red_sync := Some (fst reply)\<rparr>"
    have "init_redis_client g reply (Some ro) st = (Returned None, ?st3)"
      using i f True by (simp add: InitRedSyncOnce_alive del: if_split)
    then show thesis by (rule that) (use f True in simp_all)
  next
    case False
    then have d: "red_sync_once st = OnceDone" using assms(3) by (cases "red_sync_once st") auto
    have "init_redis_client g reply (Some ro) st = (Returned None, ?st2)"
      using i f d by (simp add: InitRedSyncOnce_done del: if_split)
    then show thesis by (rule that) (use f d in simp_all)
  qed
qed

text \<open>With the once running, a successful attempt stores its client and blocks.\<close>

lemma init_redis_client_blocks:
  assumes "snd reply = None" and "red_sync_once st = OnceRunning"
  obtains st' where "init_redis_client g reply (Some ro) st = (Hangs, st')"
    and "pool_client st' = Some (fst reply)" and "red_sync_once st' = OnceRunning"
    and "redis_opts st' = redis_opts st" and "reconnect_mu st' = reconnect_mu st"
proof -
  let ?st1 = "(send_cmd (Ping ro) st)\<lparr>pool_client := Some (fst reply)\<rparr>"
  let ?st2 = "if get_app_name g \<noteq> []
    then send_cmd (GetName (fst reply)) (send_cmd (SetName (fst reply) (get_app_name g)) ?st1) else ?st1"
  have r: "red_sync_once ?st2 = OnceRunning" using assms by simp
  have "init_redis_client g reply (Some ro) st = (Hangs, ?st2)"
    using assms(1) InitRedSyncOnce_running [OF r] by (simp add: init_redis_client.simps Let_def del: if_split)
  then show thesis by (rule that) (use r in simp_all)
qed

subsection \<open>What initialisation guarantees\<close>

lemma connect_loop_connects:
  assumes "redis_opts st = Some ro" and "red_sync_once st \<noteq> OnceRunning"
    and "a \<le> k" and "k \<le> n" and "n = a + int m - 1"
    and "\<And>i. a \<le> i \<Longrightarrow> i < k \<Longrightarrow> snd (replies i) \<noteq> None" and "snd (replies k) = None"
  shows "\<exists>st'. connect_loop g replies n d m a e st = (Returned (Inr ()), map (dur_mul d) [a..k - 1], st') \<and>
    pool_client st' = Some (fst (replies k)) \<and> redis_opts st' = Some ro \<and> red_sync_once st' = OnceDone"
  using assms
proof (induction m arbitrary: a e st)
  case 0
  then show ?case by simp
next
  case (Suc m)
  show ?case
  proof (cases "a = k")
    case True
    with Suc.prems have ok: "snd (replies a) = None" by simp
    from init_redis_client_connects [OF ok Suc.prems(1,2), of g] obtain st' where
      "init_redis_client g (replies a) (Some ro) st = (Returned None, st')"
      "pool_client st' = Some (fst (replies a))" "redis_opts st' = Some ro" "red_sync_once st' = OnceDone"
      by blast
    with True Suc.prems(1) show ?thesis by (simp add: GetRedisOptions_def)
  next
    case False
    with Suc.prems have lt: "a < k" by simp
    with Suc.prems(6) obtain e' where e': "snd (replies a) = Some e'" by blast
    let ?st1 = "send_cmd (CloseClient (fst (replies a))) ((send_cmd (Ping ro) st)\<lparr>pool_client := None\<rparr>)"
    have ih: "\<exists>st'. connect_loop g replies n d m (a + 1) (Some e') ?st1 =
        (Returned (Inr ()), map (dur_mul d) [a + 1..k - 1], st') \<and>
        pool_client st' = Some (fst (replies k)) \<and> redis_opts st' = Some ro \<and> red_sync_once st' = OnceDone"
      by (rule Suc.IH) (use Suc.prems lt in auto)
    have "[a..k - 1] = a # [a + 1..k - 1]" using lt by (simp add: upto.simps)
    with ih lt Suc.prems show ?thesis
      by (auto simp: init_redis_client_fails [OF e'] GetRedisOptions_def)
  qed
qed

lemma connect_loop_fails:
  assumes "redis_opts st = Some ro" and "n = a + int m - 1"
    and "\<And>i. snd (replies i) \<noteq> None"
  shows "\<exists>st'. connect_loop g replies n d m a e st =
      (Returned (Inl (if m = 0 then e else snd (replies n))), map (dur_mul d) [a..n - 1], st') \<and>
    (0 < m \<longrightarrow> pool_client st' = None) \<and> redis_opts st' = Some ro \<and>
    red_sync_once st' = red_sync_once st \<and> reconnect_mu st' = reconnect_mu st \<and>
    red_sync_err st' = red_sync_err st"
  using assms
proof (induction m arbitrary: a e st)
  case 0
  then show ?case by simp
next
  case (Suc m)
  obtain e' where e': "snd (replies a) = Some e'" using Suc.prems(3) by blast
  let ?st1 = "send_cmd (CloseClient (fst (replies a))) ((send_cmd (Ping ro) st)\<lparr>pool_client := None\<rparr>)"
  obtain st' where ih: "connect_loop g replies n d m (a + 1) (Some e') ?st1 =
      (Returned (Inl (if m = 0 then Some e' else snd (replies n))), map (dur_mul d) [a + 1..n - 1], st')"
      "0 < m \<longrightarrow> pool_client st' = None" "redis_opts st' = Some ro"
      "red_sync_once st' = red_sync_once st" "reconnect_mu st' = reconnect_mu st"
      "red_sync_err st' = red_sync_err st"
    using Suc.IH [of ?st1 "a + 1" "Some e'"] Suc.prems by auto
  show ?case
  proof (cases m)
    case 0
    with Suc.prems e' show ?thesis
      by (simp add: init_redis_client_fails [OF e'] GetRedisOptions_def)
  next
    case (Suc k)
    have "[a..n - 1] = a # [a + 1..n - 1]" using Suc Suc.prems(2) by (simp add: upto.simps)
    with ih Suc Suc.prems show ?thesis
      by (simp add: init_redis_client_fails [OF e'] GetRedisOptions_def del: connect_loop.simps(1))
  qed
qed

lemma InitRedisOptions_returns:
  "InitRedisOptions raw st = (Returned ro, st') \<Longrightarrow>
   redis_opts st' = Some ro \<and> red_sync_once st' = red_sync_once st \<and> pool_client st' = pool_client st \<and>
   reconnect_mu st' = reconnect_mu st \<and> red_sync_err st' = red_sync_err st"
  by (auto simp: InitRedisOptions_def Let_def split: option.splits if_splits prod.splits)

lemma InitRedisOptions_addr:
  "ro_addr raw \<noteq> [] \<Longrightarrow> \<exists>ro st'. InitRedisOptions raw st = (Returned ro, st') \<and> redis_opts st' = Some ro \<and>
     red_sync_once st' = red_sync_once st \<and> pool_client st' = pool_client st \<and>
     reconnect_mu st' = reconnect_mu st \<and> red_sync_err st' = red_sync_err st"
  by (cases "split_host_port (ro_addr raw)") (auto simp: InitRedisOptions_def Let_def)

text \<open>
  \<open>InitRedisOptions\<close>, on every input: it panics exactly when the address is empty and no address that
  splits into host and port was ever seen. Otherwise the completed options become the package's,
  every unset field the code completes gets its default, the address is the given one or is rebuilt
  from the remembered host and port, but an empty password or a zero database is never completed:
  what the code remembers of them are the fields it is completing.
\<close>

theorem init_redis_options_result:
  "case InitRedisOptions raw st of
     (Returned ro, st') \<Rightarrow>
       redis_opts st' = Some ro \<and> ro_password ro = ro_password raw \<and> ro_db ro = ro_db raw \<and>
       ro_addr ro = (if ro_addr raw = [] then join_host_port (the (host_mem st)) (the (port_mem st))
                     else ro_addr raw) \<and>
       ro_username ro = (if ro_username raw = [] then ''default'' else ro_username raw) \<and>
       ro_max_retries ro \<noteq> 0 \<and> ro_min_retry_backoff ro \<noteq> 0 \<and> ro_max_retry_backoff ro \<noteq> 0 \<and>
       ro_conn_max_idle_time ro \<noteq> 0
   | (Panicked p, st') \<Rightarrow>
       p = NilDereference \<and> ro_addr raw = [] \<and> (host_mem st = None \<or> port_mem st = None) \<and>
       redis_opts st' = redis_opts st
   | (Hangs, st') \<Rightarrow> False"
  by (cases "split_host_port (ro_addr raw)")
    (auto simp: InitRedisOptions_def Let_def fill_option_defaults_set split: option.splits if_splits)

text \<open>
  \<open>InitializeRedisWithRetry\<close> stops at the first attempt that connects: when attempts \<open>1 .. k - 1\<close> fail
  and attempt \<open>k\<close> of at most \<open>MaxRetries\<close> succeeds it returns nil, the pool holds the client of attempt
  \<open>k\<close> (and no other attempt was made), and before attempt \<open>i + 1\<close> it slept \<open>RetryDelay * i\<close>: the delay
  grows linearly, not exponentially.
\<close>

theorem redis_retry_schedule:
  assumes "ro_addr (rio_options opts) \<noteq> []" and "rio_max_retries opts \<noteq> 0" and "rio_retry_delay opts \<noteq> 0"
    and "red_sync_once st \<noteq> OnceRunning" and "1 \<le> k" and "k \<le> rio_max_retries opts"
    and "\<And>i. 1 \<le> i \<Longrightarrow> i < k \<Longrightarrow> snd (replies i) \<noteq> None" and "snd (replies k) = None"
  shows "\<exists>st'. InitializeRedisWithRetry g replies opts st =
      (Returned None, map (\<lambda>i. dur_mul (rio_retry_delay opts) i) [1..k - 1], st') \<and>
    pool_client st' = Some (fst (replies k)) \<and> RedisEnabled st'"
proof -
  let ?st1 = "set_redis_lock_key (''redis_lock:'' @ get_app_name g @ '':'') st"
  from InitRedisOptions_addr [OF assms(1), of ?st1] obtain ro st2 where
    i: "InitRedisOptions (rio_options opts) ?st1 = (Returned ro, st2)" "redis_opts st2 = Some ro"
      "red_sync_once st2 = red_sync_once st"
    by (auto simp: set_redis_lock_key_def)
  from i(3) assms(4) have nr: "red_sync_once st2 \<noteq> OnceRunning" by simp
  have n: "rio_max_retries opts = 1 + int (nat (rio_max_retries opts)) - 1" using assms by simp
  from connect_loop_connects [where replies = replies, OF i(2) nr assms(5,6) n assms(7,8),
      of g "rio_retry_delay opts" None] obtain st3 where "connect_loop g replies (rio_max_retries opts) (rio_retry_delay opts)
      (nat (rio_max_retries opts)) 1 None st2 =
      (Returned (Inr ()), map (dur_mul (rio_retry_delay opts)) [1..k - 1], st3)"
    "pool_client st3 = Some (fst (replies k))" by blast
  with i(1) assms(2,3) show ?thesis by (simp add: InitializeRedisWithRetry_def RedisEnabled_def)
qed

definition demo_init_options :: redis_init_options where
  "demo_init_options = \<lparr>rio_options = blank_redis_options\<lparr>ro_addr := ''r:6379''\<rparr>,
     rio_max_retries = 5, rio_retry_delay = Second, rio_fail_fast = False\<rparr>"

definition third_time_lucky :: "int \<Rightarrow> conn_reply" where
  "third_time_lucky i = (nat i, if i < 3 then Some ''refused'' else None)"

theorem redis_retry_schedule_witness:
  "\<exists>st'. InitializeRedisWithRetry \<lparr>glob_app_name = ''svc'', glob_app_env = ''dev''\<rparr> third_time_lucky
      demo_init_options initial_redis_state = (Returned None, [1000000000, 2000000000], st') \<and>
    pool_client st' = Some 3 \<and> RedisEnabled st'"
  using redis_retry_schedule [of demo_init_options initial_redis_state 3 third_time_lucky
      "\<lparr>glob_app_name = ''svc'', glob_app_env = ''dev''\<rparr>"]
  by (simp add: demo_init_options_def initial_redis_state_def third_time_lucky_def upto.simps
      dur_mul_def wrap64_def)

text \<open>
  \<open>InitRedisFromEnv\<close>: without \<open>REDIS_HOST\<close> it does nothing; with it, the address it connects to splits
  back into that host and the port (6379 when unset), the database is \<open>REDIS_DB\<close> when that is a
  decimal integer and 0 otherwise, and an initialisation in which every attempt fails is reported as
  an error: exactly three attempts with sleeps of one and two seconds.
\<close>

theorem redis_from_env:
  assumes "plain_host (ev ''REDIS_HOST'')" and "plain_host (ev ''REDIS_PORT'')"
    and "\<And>i. snd (replies i) \<noteq> None"
  shows "if ev ''REDIS_HOST'' = [] then InitRedisFromEnv g ev replies st = (Returned None, [], st)
    else split_host_port (ro_addr (redis_env_options ev)) =
        Some (ev ''REDIS_HOST'', if ev ''REDIS_PORT'' = [] then ''6379'' else ev ''REDIS_PORT'') \<and>
      ro_db (redis_env_options ev) = (case atoi (ev ''REDIS_DB'') of Some v \<Rightarrow> v | None \<Rightarrow> 0) \<and>
      (\<exists>e st'. InitRedisFromEnv g ev replies st =
         (Returned (Some e), [Second, 2 * Second], st') \<and> \<not> RedisEnabled st')"
proof (cases "ev ''REDIS_HOST'' = []")
  case True
  then show ?thesis by (simp add: InitRedisFromEnv_def)
next
  case False
  have "plain_host ''6379''" by (simp add: plain_host_def)
  with assms(1,2) have split: "split_host_port (ro_addr (redis_env_options ev)) =
      Some (ev ''REDIS_HOST'', if ev ''REDIS_PORT'' = [] then ''6379'' else ev ''REDIS_PORT'')"
    by (simp add: redis_env_options_def split_join_host_port Let_def)
  have db: "ro_db (redis_env_options ev) = (case atoi (ev ''REDIS_DB'') of Some v \<Rightarrow> v | None \<Rightarrow> 0)"
    by (simp add: redis_env_options_def blank_redis_options_def Let_def split: option.split)
  let ?st1 = "set_redis_lock_key (''redis_lock:'' @ get_app_name g @ '':'') st"
  have "ro_addr (redis_env_options ev) \<noteq> []" using split by auto
  from InitRedisOptions_addr [OF this, of ?st1] obtain ro st2 where
    i: "InitRedisOptions (redis_env_options ev) ?st1 = (Returned ro, st2)" "redis_opts st2 = Some ro"
    by auto
  from connect_loop_fails [OF i(2), of 3 1 3 replies g Second None] assms(3) obtain st3 where
    l: "connect_loop g replies 3 Second 3 1 None st2 =
      (Returned (Inl (snd (replies 3))), map (dur_mul Second) [1..2], st3)" "pool_client st3 = None"
    by auto
  have "map (dur_mul Second) [1..2] = [Second, 2 * Second]"
    by (simp add: upto.simps dur_mul_def wrap64_def)
  with i l False have "\<exists>e st'. InitRedisFromEnv g ev replies st =
      (Returned (Some e), [Second, 2 * Second], st') \<and> \<not> RedisEnabled st'"
    by (simp add: InitRedisFromEnv_def InitializeRedisWithRetry_def RedisEnabled_def del: connect_loop.simps)
  with split db False show ?thesis by simp
qed

definition demo_redis_env :: env where
  "demo_redis_env k = (if k = ''REDIS_HOST'' then ''cache'' else if k = ''REDIS_DB'' then ''4'' else [])"

theorem redis_from_env_witness:
  "split_host_port (ro_addr (redis_env_options demo_redis_env)) = Some (''cache'', ''6379'') \<and>
   (\<exists>e st'. InitRedisFromEnv \<lparr>glob_app_name = ''svc'', glob_app_env = ''dev''\<rparr> demo_redis_env
      (\<lambda>_. (7, Some ''down'')) initial_redis_state =
      (Returned (Some e), [Second, 2 * Second], st') \<and> \<not> RedisEnabled st')"
  using redis_from_env [of demo_redis_env "\<lambda>_. (7, Some ''down'')"
      "\<lparr>glob_app_name = ''svc'', glob_app_env = ''dev''\<rparr>" initial_redis_state]
  by (simp add: demo_redis_env_def plain_host_def)

end
