(* ===== verification/RedisOps.thy ===== *)
theory RedisOps
  imports RedisConfig
begin

section \<open>redis.go: store, get, delete and distributed locks\<close>

text \<open>
  The operations on keys with their time-to-live guardrail and the locks built on redsync. What the
  server and the libraries answer (connection attempt, \<open>SET\<close>, \<open>GET\<close>, \<open>DEL\<close>, lock and unlock) and what
  \<^verbatim>\<open>phjson.Marshal\<close> makes of the value are arguments; the commands sent are in \<open>redis_sent\<close>. Deadlines
  of contexts are part of the answers.
\<close>

subsection \<open>Time-to-live guardrail\<close>

definition MaxTTL :: "env \<Rightarrow> int" where
  "MaxTTL ev =
     (let defaultMinutes = 30 * 24 * 60;
          s = ev ''REDIS_MAX_TTL_MINUTES'';
          minutes = (if s \<noteq> []
                     then (case atoi s of Some n \<Rightarrow> if n > 0 then n else defaultMinutes
                                        | None \<Rightarrow> defaultMinutes)
                     else defaultMinutes)
      in dur_mul minutes Minute)"

definition clamp_store_ttl :: "env \<Rightarrow> int \<Rightarrow> int" where
  "clamp_store_ttl ev ttl = (if ttl < 0 then 0 else if ttl > MaxTTL ev then MaxTTL ev else ttl)"

subsection \<open>Store, get, delete\<close>

text \<open>A method call on a nil client panics.\<close>

definition with_pool_client ::
  "globals \<Rightarrow> conn_reply \<Rightarrow> (nat \<Rightarrow> redis_state \<Rightarrow> 'a outcome \<times> redis_state) \<Rightarrow> (err \<Rightarrow> 'a) \<Rightarrow>
     redis_state \<Rightarrow> 'a outcome \<times> redis_state" where
  "with_pool_client g reply k fail st =
     (case GetRedisPoolClient g reply st of
        (Hangs, st1) \<Rightarrow> (Hangs, st1)
      | (Panicked p, st1) \<Rightarrow> (Panicked p, st1)
      | (Returned (Inl e), st1) \<Rightarrow> (Returned (fail e), st1)
      | (Returned (Inr None), st1) \<Rightarrow> (Panicked NilDereference, st1)
      | (Returned (Inr (Some c)), st1) \<Rightarrow> k c st1)"

definition StoreRedisWithContext ::
  "globals \<Rightarrow> env \<Rightarrow> conn_reply \<Rightarrow> ('d \<Rightarrow> err + string) \<Rightarrow> err option \<Rightarrow> string \<Rightarrow> 'd \<Rightarrow> int \<Rightarrow>
     redis_state \<Rightarrow> err option outcome \<times> redis_state" where
  "StoreRedisWithContext g ev reply marshal set_reply k data duration =
     with_pool_client g reply
       (\<lambda>c st. case marshal data of
                 Inl e \<Rightarrow> (Returned (Some e), st)
               | Inr json \<Rightarrow>
                   (Returned set_reply, send_cmd (SetKey c k json (clamp_store_ttl ev duration)) st))
       Some"

definition StoreRedis ::
  "globals \<Rightarrow> env \<Rightarrow> conn_reply \<Rightarrow> ('d \<Rightarrow> err + string) \<Rightarrow> err option \<Rightarrow> string \<Rightarrow> 'd \<Rightarrow> int \<Rightarrow>
     redis_state \<Rightarrow> err option outcome \<times> redis_state" where
  "StoreRedis = StoreRedisWithContext"

definition StoreRedisNoExpiry ::
  "globals \<Rightarrow> conn_reply \<Rightarrow> ('d \<Rightarrow> err + string) \<Rightarrow> err option \<Rightarrow> string \<Rightarrow> 'd \<Rightarrow>
     redis_state \<Rightarrow> err option outcome \<times> redis_state" where
  "StoreRedisNoExpiry g reply marshal set_reply k data =
     with_pool_client g reply
       (\<lambda>c st. case marshal data of
                 Inl e \<Rightarrow> (Returned (Some e), st)
               | Inr json \<Rightarrow> (Returned set_reply, send_cmd (SetKey c k json 0) st))
       Some"

text \<open>A reply to \<open>GET\<close> may be nil (then the result is the empty string), an error or the value.\<close>

definition GetRedisWithContext ::
  "globals \<Rightarrow> conn_reply \<Rightarrow> (err + string) option \<Rightarrow> string \<Rightarrow> redis_state \<Rightarrow>
     (string \<times> err option) outcome \<times> redis_state" where
  "GetRedisWithContext g reply get_reply k =
     with_pool_client g reply
       (\<lambda>c st. (Returned (case get_reply of
                  None \<Rightarrow> ([], None)
                | Some (Inl e) \<Rightarrow> ([], Some e)
                | Some (Inr v) \<Rightarrow> (v, None)),
                send_cmd (GetKey c k) st))
       (\<lambda>e. ([], Some e))"

definition DeleteRedisWithContext ::
  "globals \<Rightarrow> conn_reply \<Rightarrow> err option option \<Rightarrow> string \<Rightarrow> redis_state \<Rightarrow>
     err option outcome \<times> redis_state" where
  "DeleteRedisWithContext g reply del_reply k =
     with_pool_client g reply
       (\<lambda>c st. (Returned (case del_reply of None \<Rightarrow> None | Some r \<Rightarrow> r), send_cmd (DelKey c k) st))
       Some"

text \<open>The wrappers without a context pass the background context, which never ends by itself.\<close>

definition GetRedis ::
  "globals \<Rightarrow> conn_reply \<Rightarrow> (err + string) option \<Rightarrow> string \<Rightarrow> redis_state \<Rightarrow>
     (string \<times> err option) outcome \<times> redis_state" where
  "GetRedis g reply get_reply k st = GetRedisWithContext g reply get_reply k st"

definition DeleteRedis ::
  "globals \<Rightarrow> conn_reply \<Rightarrow> err option option \<Rightarrow> string \<Rightarrow> redis_state \<Rightarrow>
     err option outcome \<times> redis_state" where
  "DeleteRedis g reply del_reply k st = DeleteRedisWithContext g reply del_reply k st"

subsection \<open>Cached settings\<close>

definition GetTrxRedisBackoff :: "env \<Rightarrow> redis_state \<Rightarrow> int \<times> redis_state" where
  "GetTrxRedisBackoff ev st =
     (case cached_backoff st of
        Some v \<Rightarrow> (v, st)
      | None \<Rightarrow>
          (let v = (case atoi (ev ''TRANSACTION_REDIS_BACKOFF'') of
                      Some n \<Rightarrow> if n \<ge> 10 then n else 10 | None \<Rightarrow> 10)
           in (v, st\<lparr>cached_backoff := Some v\<rparr>)))"

definition GetTrxRedisLockTimeout :: "env \<Rightarrow> redis_state \<Rightarrow> int \<times> redis_state" where
  "GetTrxRedisLockTimeout ev st =
     (case cached_lock_timeout st of
        Some v \<Rightarrow> (v, st)
      | None \<Rightarrow>
          (let ms = (case atoi (ev ''TRANSACTION_REDIS_LOCK_TIMEOUT'') of
                       Some n \<Rightarrow> if n \<ge> 700 then n else 2000 | None \<Rightarrow> 2000);
               v = dur_mul ms Millisecond
           in (v, st\<lparr>cached_lock_timeout := Some v\<rparr>)))"

subsection \<open>Locks\<close>

record lock_error =
  le_key :: string
  le_op :: string
  le_reason :: string
  le_err :: "err option"

definition lock_error_Unwrap :: "lock_error \<Rightarrow> err option" where
  "lock_error_Unwrap e = le_err e"

definition lock_error_text :: "lock_error \<Rightarrow> err" where
  "lock_error_text e =
     (case le_err e of
        Some c \<Rightarrow> ''lock '' @ le_op e @ '' failed for key '' @ [CHR 39] @ le_key e @ [CHR 39] @ '': '' @
                  le_reason e @ '' (cause: '' @ c @ '')''
      | None \<Rightarrow> ''lock '' @ le_op e @ '' failed for key '' @ [CHR 39] @ le_key e @ [CHR 39] @ '': '' @
                le_reason e)"

text \<open>What \<^verbatim>\<open>redsync\<close> answers to a lock request; failure to reach a quorum and a taken lock are contention.\<close>

datatype lock_reply = LockGranted | LockContended | LockBroken err

definition AcquireLock ::
  "globals \<Rightarrow> conn_reply \<Rightarrow> nat \<Rightarrow> lock_reply \<Rightarrow> string \<Rightarrow> int \<Rightarrow> redis_state \<Rightarrow>
     (bool \<times> lock_error option) outcome \<times> redis_state" where
  "AcquireLock g reply ident lock_reply key ttl st =
     (case InitRedSyncOnce g reply st of
        (Hangs, st1) \<Rightarrow> (Hangs, st1)
      | (Panicked p, st1) \<Rightarrow> (Panicked p, st1)
      | (Returned (Some e), st1) \<Rightarrow>
          (Returned (False, Some \<lparr>le_key = key, le_op = ''acquire'',
             le_reason = ''redsync initialization failed'', le_err = Some e\<rparr>), st1)
      | (Returned None, st1) \<Rightarrow>
          (case red_sync st1 of
             None \<Rightarrow> (Panicked NilDereference, st1)
           | Some pool \<Rightarrow>
               (let mutex = \<lparr>mx_id = ident, mx_name = key, mx_expiry = ttl, mx_tries = None,
                      mx_retry_delay = None\<rparr>;
                    st2 = send_cmd (LockMutex mutex) st1
                in case lock_reply of
                     LockContended \<Rightarrow> (Returned (False, None), st2)
                   | LockBroken e \<Rightarrow>
                       (Returned (False, Some \<lparr>le_key = key, le_op = ''acquire'',
                          le_reason = ''mutex lock operation failed'', le_err = Some e\<rparr>), st2)
                   | LockGranted \<Rightarrow>
                       (Returned (True, None),
                        st2\<lparr>mutexes := StoreMutex key (Some mutex) (mutexes st2)\<rparr>))))"

definition ReleaseLock :: "err + bool \<Rightarrow> string \<Rightarrow> redis_state \<Rightarrow> lock_error option \<times> redis_state" where
  "ReleaseLock unlock_reply key st =
     (case GetMutex key (mutexes st) of
        None \<Rightarrow> (Some \<lparr>le_key = key, le_op = ''release'',
                  le_reason = ''no mutex found for this key (was lock acquired?)'', le_err = None\<rparr>, st)
      | Some mutex \<Rightarrow>
          (let st1 = send_cmd (UnlockMutex mutex) st
           in case unlock_reply of
                Inl e \<Rightarrow> (Some \<lparr>le_key = key, le_op = ''release'',
                          le_reason = ''mutex unlock operation failed'', le_err = Some e\<rparr>, st1)
              | Inr ok \<Rightarrow>
                  (if \<not> ok
                   then (Some \<lparr>le_key = key, le_op = ''release'', le_reason =
                           ''not the lock owner (lock may have expired or was released by another process)'',
                           le_err = None\<rparr>, st1)
                   else (None, st1\<lparr>mutexes := RemoveMutex key (mutexes st1)\<rparr>))))"

definition AcquireLockWithRetry ::
  "globals \<Rightarrow> conn_reply \<Rightarrow> nat \<Rightarrow> lock_reply \<Rightarrow> string \<Rightarrow> int \<Rightarrow> int \<Rightarrow> int \<Rightarrow> redis_state \<Rightarrow>
     (redsync_mutex option \<times> bool \<times> err option) outcome \<times> redis_state" where
  "AcquireLockWithRetry g reply ident lock_reply key ttl maxRetries retryDelay st =
     (case InitRedSyncOnce g reply st of
        (Hangs, st1) \<Rightarrow> (Hangs, st1)
      | (Panicked p, st1) \<Rightarrow> (Panicked p, st1)
      | (Returned (Some e), st1) \<Rightarrow>
          (Returned (None, False, Some (''failed to initialize redsync: '' @ e)), st1)
      | (Returned None, st1) \<Rightarrow>
          (case red_sync st1 of
             None \<Rightarrow> (Panicked NilDereference, st1)
           | Some pool \<Rightarrow>
               (let mutex = \<lparr>mx_id = ident, mx_name = key, mx_expiry = ttl,
                      mx_tries = Some maxRetries, mx_retry_delay = Some retryDelay\<rparr>;
                    st2 = send_cmd (LockMutex mutex) st1
                in case lock_reply of
                     LockContended \<Rightarrow> (Returned (None, False, None), st2)
                   | LockBroken e \<Rightarrow>
                       (Returned (None, False,
                          Some (''failed to acquire lock for key '' @ key @ '': '' @ e)), st2)
                   | LockGranted \<Rightarrow> (Returned (Some mutex, True, None), st2))))"

text \<open>The attempts \<open>i\<close>, \<open>i + 1\<close>, ... of \<open>ReleaseLockWithRetry\<close> (\<open>n\<close> left), the last error, the sleeps.\<close>

fun release_loop ::
  "(int \<Rightarrow> err + bool) \<Rightarrow> redsync_mutex \<Rightarrow> int \<Rightarrow> nat \<Rightarrow> int \<Rightarrow> err option \<Rightarrow> redis_state \<Rightarrow>
     (err option + unit) \<times> int list \<times> redis_state" where
  "release_loop replies mutex backoff 0 i err st = (Inl err, [], st)"
| "release_loop replies mutex backoff (Suc n) i err st =
     (let st1 = send_cmd (UnlockMutex mutex) st;
          pause = dur_mul (wrap64 (backoff * (i + 1))) Millisecond
      in case replies i of
           Inr True \<Rightarrow> (Inr (), [], st1)
         | Inr False \<Rightarrow>
             (let (r, sleeps, st2) = release_loop replies mutex backoff n (i + 1)
                  (Some ''failed to release lock: not owner'') st1 in (r, pause # sleeps, st2))
         | Inl e \<Rightarrow>
             (let (r, sleeps, st2) = release_loop replies mutex backoff n (i + 1) (Some e) st1
              in (r, pause # sleeps, st2)))"

definition ReleaseLockWithRetry ::
  "env \<Rightarrow> (int \<Rightarrow> err + bool) \<Rightarrow> redsync_mutex option \<Rightarrow> int \<Rightarrow> redis_state \<Rightarrow>
     err option \<times> int list \<times> redis_state" where
  "ReleaseLockWithRetry ev replies mutex maxRetries st =
     (case mutex of
        None \<Rightarrow> (Some ''mutex is nil'', [], st)
      | Some mx \<Rightarrow>
          (let (backoff, st1) = GetTrxRedisBackoff ev st
           in case release_loop replies mx backoff (nat maxRetries) 0 None st1 of
                (Inr _, sleeps, st2) \<Rightarrow> (None, sleeps, st2)
              | (Inl e, sleeps, st2) \<Rightarrow>
                  (Some (''failed to release lock after '' @ itoa maxRetries @ '' attempts: '' @
                     (case e of Some m \<Rightarrow> m | None \<Rightarrow> ''%!w(<nil>)'')), sleeps, st2)))"

definition StoreRedisWithLock ::
  "globals \<Rightarrow> env \<Rightarrow> conn_reply \<Rightarrow> nat \<Rightarrow> lock_reply \<Rightarrow> err + bool \<Rightarrow> ('d \<Rightarrow> err + string) \<Rightarrow> err option \<Rightarrow>
     string \<Rightarrow> 'd \<Rightarrow> int \<Rightarrow> redis_state \<Rightarrow> err option outcome \<times> redis_state" where
  "StoreRedisWithLock g ev reply ident lock_reply unlock_reply marshal set_reply k data duration st =
     (let lockKey = get_redis_lock_key st @ k;
          (lockTTL, st0) = GetTrxRedisLockTimeout ev st
      in case AcquireLock g reply ident lock_reply lockKey lockTTL st0 of
           (Hangs, st1) \<Rightarrow> (Hangs, st1)
         | (Panicked p, st1) \<Rightarrow> (Panicked p, st1)
         | (Returned (locked, Some e), st1) \<Rightarrow> (Returned (Some (lock_error_text e)), st1)
         | (Returned (locked, None), st1) \<Rightarrow>
             (if \<not> locked then (Returned (Some ''already being updated by another process''), st1)
              else case StoreRedis g ev reply marshal set_reply k data duration st1 of
                     (Hangs, st2) \<Rightarrow> (Hangs, st2)
                   | (Panicked p, st2) \<Rightarrow> (Panicked p, snd (ReleaseLock unlock_reply lockKey st2))
                   | (Returned e, st2) \<Rightarrow> (Returned e, snd (ReleaseLock unlock_reply lockKey st2))))"

subsection \<open>Time-to-live\<close>

lemma MaxTTL_exact:
  assumes "\<And>n. atoi (ev ''REDIS_MAX_TTL_MINUTES'') = Some n \<Longrightarrow> n \<le> 153722867"
  shows "\<exists>n > 0. MaxTTL ev = n * Minute \<and>
    (n = 43200 \<or> atoi (ev ''REDIS_MAX_TTL_MINUTES'') = Some n)"
proof -
  have ex: "0 < n \<Longrightarrow> n \<le> 153722867 \<Longrightarrow> dur_mul n Minute = n * Minute" for n
    by (rule dur_mul_exact) (simp add: in_i64_def)
  show ?thesis
    using assms ex [of 43200] ex
    by (auto simp: MaxTTL_def Let_def split: option.splits)
qed

lemma StoreRedis_alive:
  assumes "redis_opts st = Some ro" and "pool_client st = Some c" and "marshal data = Inr json"
  shows "StoreRedis g ev reply marshal set_reply k data duration st =
    (Returned set_reply, send_cmd (SetKey c k json (clamp_store_ttl ev duration)) st)"
  using assms
  by (simp add: StoreRedis_def StoreRedisWithContext_def with_pool_client_def GetRedisPoolClient_alive)

text \<open>A client that works, and the commands an operation sent.\<close>

definition live :: "nat \<Rightarrow> redis_state \<Rightarrow> bool" where
  "live c st \<longleftrightarrow> redis_opts st \<noteq> None \<and> pool_client st = Some c"

definition new_cmds :: "redis_state \<Rightarrow> redis_state \<Rightarrow> redis_cmd list" where
  "new_cmds st st' = drop (length (redis_sent st)) (redis_sent st')"

lemma GetRedis_alive:
  assumes "redis_opts st = Some ro" and "pool_client st = Some c"
  shows "GetRedis g reply get_reply k st =
    (Returned (case get_reply of None \<Rightarrow> ([], None) | Some (Inl e) \<Rightarrow> ([], Some e) | Some (Inr v) \<Rightarrow> (v, None)),
     send_cmd (GetKey c k) st)"
  using assms by (simp add: GetRedis_def GetRedisWithContext_def with_pool_client_def GetRedisPoolClient_alive)

lemma StoreRedisNoExpiry_alive:
  assumes "redis_opts st = Some ro" and "pool_client st = Some c" and "marshal data = Inr json"
  shows "StoreRedisNoExpiry g reply marshal set_reply k data st =
    (Returned set_reply, send_cmd (SetKey c k json 0) st)"
  using assms by (simp add: StoreRedisNoExpiry_def with_pool_client_def GetRedisPoolClient_alive)

lemma DeleteRedis_alive:
  assumes "redis_opts st = Some ro" and "pool_client st = Some c"
  shows "DeleteRedis g reply del_reply k st =
    (Returned (case del_reply of None \<Rightarrow> None | Some r \<Rightarrow> r), send_cmd (DelKey c k) st)"
  using assms by (simp add: DeleteRedis_def DeleteRedisWithContext_def with_pool_client_def GetRedisPoolClient_alive)

text \<open>
  As long as \<open>REDIS_MAX_TTL_MINUTES\<close> is at most 153722867, \<open>MaxTTL\<close> is that many minutes (30 days
  by default) and every store through a live client sends one \<open>SET\<close> whose time-to-live is within 0 and
  \<open>MaxTTL\<close>: the requested duration when it lies there, the nearer bound otherwise.
\<close>

theorem store_ttl_within_bounds:
  assumes "\<And>n. atoi (ev ''REDIS_MAX_TTL_MINUTES'') = Some n \<Longrightarrow> n \<le> 153722867"
    and "redis_opts st = Some ro" and "pool_client st = Some c" and "marshal data = Inr json"
  shows "\<exists>ttl. StoreRedis g ev reply marshal set_reply k data duration st =
      (Returned set_reply, st\<lparr>redis_sent := redis_sent st @ [SetKey c k json ttl]\<rparr>) \<and>
    ttl = max 0 (min duration (MaxTTL ev)) \<and> Minute \<le> MaxTTL ev"
proof -
  obtain n where n: "n > 0" "MaxTTL ev = n * Minute" using MaxTTL_exact [OF assms(1)] by blast
  then have "Minute \<le> MaxTTL ev" by simp
  moreover from this have "clamp_store_ttl ev duration = max 0 (min duration (MaxTTL ev))"
    by (simp add: clamp_store_ttl_def)
  ultimately show ?thesis
    using StoreRedis_alive [where marshal = marshal, OF assms(2-4), of g ev reply set_reply k duration] by (simp add: send_cmd_def)
qed

definition alive_redis_state :: redis_state where
  "alive_redis_state = initial_redis_state\<lparr>redis_opts := Some blank_redis_options,
     pool_client := Some 1, red_sync := Some 1, red_sync_once := OnceDone\<rparr>"

theorem store_ttl_within_bounds_witness:
  "\<exists>ttl. StoreRedis \<lparr>glob_app_name = ''svc'', glob_app_env = ''dev''\<rparr> (\<lambda>_. []) (9, None) Inr None ''k'' ''v''
      (127 * 365 * 24 * Hour) alive_redis_state =
      (Returned None, alive_redis_state\<lparr>redis_sent := redis_sent alive_redis_state @ [SetKey 1 ''k'' ''v'' ttl]\<rparr>) \<and>
    ttl = max 0 (min (127 * 365 * 24 * Hour) (MaxTTL (\<lambda>_. []))) \<and> Minute \<le> MaxTTL (\<lambda>_. [])"
  by (rule store_ttl_within_bounds) (simp_all add: alive_redis_state_def)

text \<open>
  Beyond that bound the product of minutes and a minute overflows: for \<open>REDIS_MAX_TTL_MINUTES\<close> from
  153722868 to 307445734 \<open>MaxTTL\<close> is negative, and a store asked for any duration from zero up sends
  that negative time-to-live instead of a bounded one.
\<close>

theorem max_ttl_overflows:
  assumes "atoi (ev ''REDIS_MAX_TTL_MINUTES'') = Some n" and "153722868 \<le> n" and "n \<le> 307445734"
    and "redis_opts st = Some ro" and "pool_client st = Some c" and "marshal data = Inr json"
    and "0 \<le> duration"
  shows "MaxTTL ev < 0 \<and> StoreRedis g ev reply marshal set_reply k data duration st =
    (Returned set_reply, st\<lparr>redis_sent := redis_sent st @ [SetKey c k json (MaxTTL ev)]\<rparr>)"
proof -
  have "ev ''REDIS_MAX_TTL_MINUTES'' \<noteq> []" using assms(1) by auto
  with assms(1,2) have m: "MaxTTL ev = wrap64 (n * Minute)" by (simp add: MaxTTL_def dur_mul_def)
  have "(n * Minute + 2 ^ 63) mod 2 ^ 64 = (n * Minute - 2 ^ 63 + 2 ^ 64) mod 2 ^ 64" by (simp add: add.commute)
  also have "\<dots> = (n * Minute - 2 ^ 63) mod 2 ^ 64" by (rule mod_add_self2)
  also have "\<dots> = n * Minute - 2 ^ 63" by (rule mod_pos_pos_trivial) (use assms in simp_all)
  finally have "(n * Minute + 2 ^ 63) mod 2 ^ 64 = n * Minute - 2 ^ 63" .
  then have neg: "MaxTTL ev < 0" using assms(3) by (simp add: m wrap64_def)
  then have "clamp_store_ttl ev duration = MaxTTL ev" using assms(7) by (simp add: clamp_store_ttl_def)
  with neg show ?thesis
    using StoreRedis_alive [where marshal = marshal, OF assms(4-6), of g ev reply set_reply k duration] by (simp add: send_cmd_def)
qed

theorem max_ttl_overflows_witness:
  "MaxTTL (\<lambda>_. ''200000000'') < 0 \<and>
   StoreRedis \<lparr>glob_app_name = ''svc'', glob_app_env = ''dev''\<rparr> (\<lambda>_. ''200000000'') (9, None) Inr None ''k'' ''v''
      Hour alive_redis_state = (Returned None, alive_redis_state\<lparr>redis_sent :=
        redis_sent alive_redis_state @ [SetKey 1 ''k'' ''v'' (MaxTTL (\<lambda>_. ''200000000''))]\<rparr>)"
  by (rule max_ttl_overflows [of _ 200000000])
    (simp_all add: alive_redis_state_def atoi_def unsigned_digits_def is_digit_def digit_val_def in_i64_def)

subsection \<open>Initialisation of redsync\<close>

text \<open>Once redsync is initialised, acquiring a lock never hangs; what it does is in \<open>AcquireLock_ready\<close>.\<close>

lemma AcquireLock_ready:
  assumes "red_sync_once st = OnceDone" and "red_sync_err st = None" and "red_sync st = Some pool"
  shows "AcquireLock g reply ident lr key ttl st =
    (let mutex = \<lparr>mx_id = ident, mx_name = key, mx_expiry = ttl, mx_tries = None, mx_retry_delay = None\<rparr>;
         st2 = send_cmd (LockMutex mutex) st
     in case lr of
          LockContended \<Rightarrow> (Returned (False, None), st2)
        | LockBroken e \<Rightarrow> (Returned (False, Some \<lparr>le_key = key, le_op = ''acquire'',
             le_reason = ''mutex lock operation failed'', le_err = Some e\<rparr>), st2)
        | LockGranted \<Rightarrow> (Returned (True, None), st2\<lparr>mutexes := StoreMutex key (Some mutex) (mutexes st2)\<rparr>))"
  using assms by (simp add: AcquireLock_def InitRedSyncOnce_done)

lemma AcquireLock_spent:
  "red_sync_once st = OnceDone \<Longrightarrow> red_sync_err st = Some e \<Longrightarrow>
   AcquireLock g reply ident lr key ttl st = (Returned (False, Some \<lparr>le_key = key, le_op = ''acquire'',
     le_reason = ''redsync initialization failed'', le_err = Some e\<rparr>), st)"
  by (simp add: AcquireLock_def InitRedSyncOnce_done)

lemma AcquireLock_blocked:
  "red_sync_once st = OnceRunning \<Longrightarrow> AcquireLock g reply ident lr key ttl st = (Hangs, st)"
  by (simp add: AcquireLock_def InitRedSyncOnce_running)

text \<open>The once function of redsync connects, and connecting initialises redsync: it waits for itself.\<close>

lemma InitRedSyncOnce_deadlock:
  assumes "redis_opts st = Some ro" and "pool_client st = None" and "\<not> reconnect_mu st"
    and "red_sync_once st = OnceNew" and "snd reply = None"
  obtains st' where "InitRedSyncOnce g reply st = (Hangs, st')" and "red_sync_once st' = OnceRunning"
    and "pool_client st' = Some (fst reply)" and "reconnect_mu st'" and "redis_opts st' = Some ro"
proof -
  let ?st1 = "st\<lparr>red_sync_once := OnceRunning, reconnect_mu := True\<rparr>"
  have "red_sync_once ?st1 = OnceRunning" by simp
  from init_redis_client_blocks [OF assms(5) this, of g ro] obtain st' where
    s: "init_redis_client g reply (Some ro) ?st1 = (Hangs, st')" "pool_client st' = Some (fst reply)"
      "red_sync_once st' = OnceRunning" "redis_opts st' = redis_opts ?st1" "reconnect_mu st' = reconnect_mu ?st1"
    by blast
  then have "InitRedSyncOnce g reply st = (Hangs, st')"
    using assms by (simp add: InitRedSyncOnce.simps GetRedisPoolClient.simps)
  then show thesis by (rule that) (use s assms in simp_all)
qed

text \<open>
  C14. A service that starts while Redis is down, without \<open>FailFast\<close>, deadlocks when Redis is back and a
  lock is the first thing it asks for: initialisation returns nil with no client, the first
  \<open>AcquireLock\<close> connects inside the once function of redsync, connecting calls that once again, and the
  call hangs; every later \<open>AcquireLock\<close> hangs as well, whatever the server answers.
\<close>

theorem lock_after_degraded_start_hangs:
  assumes "ro_addr (rio_options opts) \<noteq> []" and "0 < rio_max_retries opts" and "\<not> rio_fail_fast opts"
    and "\<And>i. snd (replies i) \<noteq> None" and "snd reply = None"
  shows "\<exists>sleeps st1 st2. InitializeRedisWithRetry g replies opts initial_redis_state = (Returned None, sleeps, st1) \<and>
    AcquireLock g reply ident lr key ttl st1 = (Hangs, st2) \<and> RedisEnabled st2 \<and>
    (\<forall>g' reply' ident' lr' key' ttl'. fst (AcquireLock g' reply' ident' lr' key' ttl' st2) = Hangs)"
proof -
  let ?st1 = "set_redis_lock_key (''redis_lock:'' @ get_app_name g @ '':'') initial_redis_state"
  let ?delay = "if rio_retry_delay opts = 0 then Second else rio_retry_delay opts"
  from InitRedisOptions_addr [OF assms(1), of ?st1] obtain ro st2 where
    i: "InitRedisOptions (rio_options opts) ?st1 = (Returned ro, st2)" "redis_opts st2 = Some ro"
      "red_sync_once st2 = OnceNew" "\<not> reconnect_mu st2"
    by (auto simp: set_redis_lock_key_def initial_redis_state_def)
  have n: "rio_max_retries opts = 1 + int (nat (rio_max_retries opts)) - 1" using assms(2) by simp
  have pos: "0 < nat (rio_max_retries opts)" using assms(2) by simp
  obtain e where e: "snd (replies (rio_max_retries opts)) = Some e" using assms(4) by blast
  from connect_loop_fails [where replies = replies, OF i(2) n assms(4), of g ?delay None]
  obtain st3 sl where l: "connect_loop g replies (rio_max_retries opts) ?delay
      (nat (rio_max_retries opts)) 1 None st2 = (Returned (Inl (Some e)), sl, st3)"
    "pool_client st3 = None" "redis_opts st3 = Some ro" "red_sync_once st3 = OnceNew" "\<not> reconnect_mu st3"
    using pos e i by auto
  have r: "InitializeRedisWithRetry g replies opts initial_redis_state = (Returned None, sl, st3)"
    using i(1) l(1) assms(2,3) by (simp add: InitializeRedisWithRetry_def)
  from InitRedSyncOnce_deadlock [OF l(3,2,5,4) assms(5), of g] obtain st4 where
    d: "InitRedSyncOnce g reply st3 = (Hangs, st4)" "red_sync_once st4 = OnceRunning"
      "pool_client st4 = Some (fst reply)" by blast
  then have "AcquireLock g reply ident lr key ttl st3 = (Hangs, st4)" by (simp add: AcquireLock_def)
  with r d show ?thesis by (auto simp: AcquireLock_blocked RedisEnabled_def)
qed

theorem lock_after_degraded_start_hangs_witness:
  "\<exists>sleeps st1 st2. InitializeRedisWithRetry \<lparr>glob_app_name = ''svc'', glob_app_env = ''dev''\<rparr>
      (\<lambda>_. (0, Some ''refused'')) demo_init_options initial_redis_state = (Returned None, sleeps, st1) \<and>
    AcquireLock \<lparr>glob_app_name = ''svc'', glob_app_env = ''dev''\<rparr> (1, None) 0 LockGranted ''k'' Second st1 = (Hangs, st2)"
  using lock_after_degraded_start_hangs [of demo_init_options "\<lambda>_. (0, Some ''refused'')" "(1, None)"
      "\<lparr>glob_app_name = ''svc'', glob_app_env = ''dev''\<rparr>" 0 LockGranted "''k''" Second]
  by (auto simp: demo_init_options_def)

text \<open>
  The error of the first initialisation of redsync is kept for ever: when a lock is asked for before
  Redis is configured, then, even after an initialisation that connects, every \<open>AcquireLock\<close> reports
  \<open>nil redis options\<close> although the pool holds a live client.
\<close>

theorem early_lock_poisons_redsync:
  assumes "ro_addr (rio_options opts) \<noteq> []" and "0 < rio_max_retries opts" and "snd (replies 1) = None"
  shows "\<exists>st1 st2. AcquireLock g reply ident lr key ttl initial_redis_state =
      (Returned (False, Some \<lparr>le_key = key, le_op = ''acquire'',
        le_reason = ''redsync initialization failed'', le_err = Some ''nil redis options''\<rparr>), st1) \<and>
    InitializeRedisWithRetry g replies opts st1 = (Returned None, [], st2) \<and> RedisEnabled st2 \<and>
    (\<forall>reply' ident' lr' key' ttl'. AcquireLock g reply' ident' lr' key' ttl' st2 =
      (Returned (False, Some \<lparr>le_key = key', le_op = ''acquire'',
        le_reason = ''redsync initialization failed'', le_err = Some ''nil redis options''\<rparr>), st2))"
proof -
  let ?s1 = "initial_redis_state\<lparr>red_sync_once := OnceDone, red_sync_err := Some ''nil redis options''\<rparr>"
  have a: "AcquireLock g reply ident lr key ttl initial_redis_state =
      (Returned (False, Some \<lparr>le_key = key, le_op = ''acquire'',
        le_reason = ''redsync initialization failed'', le_err = Some ''nil redis options''\<rparr>), ?s1)"
    by (simp add: AcquireLock_def InitRedSyncOnce.simps GetRedisPoolClient.simps initial_redis_state_def)
  let ?s2 = "set_redis_lock_key (''redis_lock:'' @ get_app_name g @ '':'') ?s1"
  from InitRedisOptions_addr [OF assms(1), of ?s2] obtain ro st2 where
    i: "InitRedisOptions (rio_options opts) ?s2 = (Returned ro, st2)" "redis_opts st2 = Some ro"
      "red_sync_once st2 = OnceDone" "red_sync_err st2 = Some ''nil redis options''"
    by (auto simp: set_redis_lock_key_def)
  have nr: "red_sync_once st2 \<noteq> OnceRunning" using i(3) by simp
  from init_redis_client_connects [OF assms(3) i(2) nr, of g] i(3,4) obtain st3 where
    c: "init_redis_client g (replies 1) (Some ro) st2 = (Returned None, st3)"
      "pool_client st3 = Some (fst (replies 1))" "red_sync_once st3 = OnceDone"
      "red_sync_err st3 = Some ''nil redis options''" by metis
  obtain m where m: "nat (rio_max_retries opts) = Suc m" using assms(2) by (cases "nat (rio_max_retries opts)") auto
  have "InitializeRedisWithRetry g replies opts ?s1 = (Returned None, [], st3)"
    using i c m assms(2) by (simp add: InitializeRedisWithRetry_def GetRedisOptions_def)
  with a c show ?thesis by (auto simp: AcquireLock_spent RedisEnabled_def)
qed

theorem early_lock_poisons_redsync_witness:
  "\<exists>st1 st2. AcquireLock \<lparr>glob_app_name = ''svc'', glob_app_env = ''dev''\<rparr> (1, None) 0 LockGranted ''k'' Second
      initial_redis_state = (Returned (False, Some \<lparr>le_key = ''k'', le_op = ''acquire'',
        le_reason = ''redsync initialization failed'', le_err = Some ''nil redis options''\<rparr>), st1) \<and>
    InitializeRedisWithRetry \<lparr>glob_app_name = ''svc'', glob_app_env = ''dev''\<rparr> (\<lambda>_. (2, None)) demo_init_options st1 =
      (Returned None, [], st2) \<and> RedisEnabled st2"
  using early_lock_poisons_redsync [of demo_init_options "\<lambda>_. (2, None)"
      "\<lparr>glob_app_name = ''svc'', glob_app_env = ''dev''\<rparr>" "(1, None)" 0 LockGranted "''k''" Second]
  by (auto simp: demo_init_options_def)

subsection \<open>Locks in use\<close>

text \<open>A state in which redsync and the pool are initialised.\<close>

definition redis_ready :: "redis_state \<Rightarrow> bool" where
  "redis_ready st \<longleftrightarrow> red_sync_once st = OnceDone \<and> red_sync_err st = None \<and> red_sync st \<noteq> None \<and>
     redis_opts st \<noteq> None \<and> pool_client st \<noteq> None"

lemma alive_ready: "redis_ready alive_redis_state"
  by (simp add: redis_ready_def alive_redis_state_def initial_redis_state_def)

lemma GetTrxRedisLockTimeout_frame:
  "GetTrxRedisLockTimeout ev st = (v, st') \<Longrightarrow>
   \<exists>c. st' = st\<lparr>cached_lock_timeout := c\<rparr>"
  by (cases st) (auto simp: GetTrxRedisLockTimeout_def Let_def split: option.splits)

lemma GetTrxRedisBackoff_frame:
  "GetTrxRedisBackoff ev st = (v, st') \<Longrightarrow> \<exists>c. st' = st\<lparr>cached_backoff := c\<rparr>"
  by (cases st) (auto simp: GetTrxRedisBackoff_def Let_def split: option.splits)

text \<open>
  C15. \<open>StoreRedisWithLock\<close> on an initialised package: a granted lock is followed by the \<open>SET\<close> and then by
  the unlock of that very mutex, whatever the \<open>SET\<close> answers, and the caller gets the answer of the
  \<open>SET\<close>; a contended or failing lock sends no \<open>SET\<close> and is an error. After a successful unlock the
  registry has forgotten the lock.
\<close>

theorem store_under_lock:
  assumes "redis_ready st" and "pool_client st = Some c" and "marshal data = Inr json"
    and m: "m = \<lparr>mx_id = ident, mx_name = redis_lock_key st @ k,
      mx_expiry = fst (GetTrxRedisLockTimeout ev st), mx_tries = None, mx_retry_delay = None\<rparr>"
  shows "case StoreRedisWithLock g ev reply ident lr ur marshal set_reply k data duration st of
      (r, st') \<Rightarrow> (case lr of
         LockGranted \<Rightarrow> r = Returned set_reply \<and>
           redis_sent st' = redis_sent st @
             [LockMutex m, SetKey c k json (clamp_store_ttl ev duration), UnlockMutex m] \<and>
           GetMutex (redis_lock_key st @ k) (mutexes st') = (if ur = Inr True then None else Some m)
       | LockContended \<Rightarrow> r = Returned (Some ''already being updated by another process'') \<and>
           redis_sent st' = redis_sent st @ [LockMutex m] \<and> mutexes st' = mutexes st
       | LockBroken e \<Rightarrow> (\<exists>text. r = Returned (Some text)) \<and>
           redis_sent st' = redis_sent st @ [LockMutex m] \<and> mutexes st' = mutexes st)"
proof -
  obtain v st0 where t: "GetTrxRedisLockTimeout ev st = (v, st0)" by fastforce
  from GetTrxRedisLockTimeout_frame [OF this] obtain cc where st0: "st0 = st\<lparr>cached_lock_timeout := cc\<rparr>" ..
  from assms(1) obtain pool ro where rdy: "red_sync_once st0 = OnceDone" "red_sync_err st0 = None"
      "red_sync st0 = Some pool" "redis_opts st0 = Some ro" "pool_client st0 = Some c"
    using assms(2) by (auto simp: redis_ready_def st0)
  have mm: "m = \<lparr>mx_id = ident, mx_name = redis_lock_key st @ k, mx_expiry = v, mx_tries = None,
      mx_retry_delay = None\<rparr>" using m t by simp
  note [simp] = get_redis_lock_key_def Let_def
  show ?thesis
  proof (cases lr)
    case LockGranted
    let ?st1 = "(send_cmd (LockMutex m) st0)\<lparr>mutexes := StoreMutex (redis_lock_key st @ k) (Some m) (mutexes st0)\<rparr>"
    have "StoreRedis g ev reply marshal set_reply k data duration ?st1 =
        (Returned set_reply, send_cmd (SetKey c k json (clamp_store_ttl ev duration)) ?st1)"
      by (rule StoreRedis_alive) (use rdy assms(3) in simp_all)
    then show ?thesis
      using LockGranted t AcquireLock_ready [OF rdy(1-3)]
      by (cases ur) (simp_all add: StoreRedisWithLock_def mm ReleaseLock_def st0)
  qed (use t AcquireLock_ready [OF rdy(1-3)] in
        \<open>simp_all add: StoreRedisWithLock_def mm st0\<close>)
qed

theorem store_under_lock_witness:
  "case StoreRedisWithLock \<lparr>glob_app_name = ''svc'', glob_app_env = ''dev''\<rparr> (\<lambda>_. []) (9, None) 5 LockGranted
      (Inr True) Inr (Some ''READONLY'') ''k'' ''v'' Hour alive_redis_state of
      (r, st') \<Rightarrow> r = Returned (Some ''READONLY'') \<and> length (redis_sent st') = 3 \<and>
        GetMutex ''redis_lock:k'' (mutexes st') = None"
  using store_under_lock [where marshal = Inr, OF alive_ready _ _ refl,
      where c = 1 and data = "''v''" and json = "''v''" and ident = 5 and k = "''k''" and ev = "\<lambda>_. []"
        and g = "\<lparr>glob_app_name = ''svc'', glob_app_env = ''dev''\<rparr>" and reply = "(9, None)"
        and lr = LockGranted and ur = "Inr True" and set_reply = "Some ''READONLY''" and duration = Hour]
  by (simp add: alive_redis_state_def initial_redis_state_def split: prod.splits)

text \<open>
  C28. \<open>ReleaseLock\<close> goes by the key, not by the holder: when a lock expires and is granted again under
  the same key (the server allows it), the release meant for the first holder unlocks the second
  holder's mutex. The release after that one finds no mutex. Locks under other keys are not touched.
\<close>

theorem release_unlocks_latest_holder:
  assumes "redis_ready st"
  shows "\<exists>st1 st2 st3. AcquireLock g reply i LockGranted key ttl st = (Returned (True, None), st1) \<and>
    AcquireLock g reply j LockGranted key ttl' st1 = (Returned (True, None), st2) \<and>
    ReleaseLock (Inr True) key st2 = (None, st3) \<and>
    redis_sent st3 = redis_sent st2 @ [UnlockMutex \<lparr>mx_id = j, mx_name = key, mx_expiry = ttl',
      mx_tries = None, mx_retry_delay = None\<rparr>] \<and>
    map_option le_reason (fst (ReleaseLock ur key st3)) =
      Some ''no mutex found for this key (was lock acquired?)'' \<and>
    GetMutex other (mutexes st3) = (if other = key then None else GetMutex other (mutexes st))"
proof -
  from assms obtain pool where rdy: "red_sync_once st = OnceDone" "red_sync_err st = None"
      "red_sync st = Some pool" by (auto simp: redis_ready_def)
  let ?m = "\<lambda>i t. \<lparr>mx_id = i, mx_name = key, mx_expiry = t, mx_tries = None, mx_retry_delay = None\<rparr>"
  let ?acq = "\<lambda>m st. (send_cmd (LockMutex m) st)\<lparr>mutexes := StoreMutex key (Some m) (mutexes st)\<rparr>"
  let ?st1 = "?acq (?m i ttl) st"
  let ?st2 = "?acq (?m j ttl') ?st1"
  let ?st3 = "(send_cmd (UnlockMutex (?m j ttl')) ?st2)\<lparr>mutexes := RemoveMutex key (mutexes ?st2)\<rparr>"
  have a: "AcquireLock g reply i LockGranted key ttl st = (Returned (True, None), ?st1)"
    using rdy by (simp add: AcquireLock_ready Let_def)
  have b: "AcquireLock g reply j LockGranted key ttl' ?st1 = (Returned (True, None), ?st2)"
    using rdy by (simp add: AcquireLock_ready Let_def)
  have c: "ReleaseLock (Inr True) key ?st2 = (None, ?st3)" by (simp add: ReleaseLock_def)
  show ?thesis
    by (intro exI conjI, rule a, rule b, rule c) (simp_all add: ReleaseLock_def)
qed

theorem release_unlocks_latest_holder_witness:
  "\<exists>st1 st2 st3. AcquireLock \<lparr>glob_app_name = ''svc'', glob_app_env = ''dev''\<rparr> (9, None) 1 LockGranted ''k'' Second
      alive_redis_state = (Returned (True, None), st1) \<and>
    ReleaseLock (Inr True) ''k'' st2 = (None, st3) \<and>
    redis_sent st3 = redis_sent st2 @ [UnlockMutex \<lparr>mx_id = 2, mx_name = ''k'', mx_expiry = Minute,
      mx_tries = None, mx_retry_delay = None\<rparr>]"
  using release_unlocks_latest_holder [OF alive_ready, of "\<lparr>glob_app_name = ''svc'', glob_app_env = ''dev''\<rparr>"
      "(9, None)" 1 "''k''" Second 2 Minute]
  by blast

lemma release_loop_releases:
  assumes "\<And>j. a \<le> j \<Longrightarrow> j < k \<Longrightarrow> replies j \<noteq> Inr True" and "replies k = Inr True"
    and "a \<le> k" and "k < a + int n"
  shows "\<exists>st'. release_loop replies mx b n a e st =
      (Inr (), map (\<lambda>j. dur_mul (wrap64 (b * (j + 1))) Millisecond) [a..k - 1], st') \<and>
    redis_sent st' = redis_sent st @ replicate (nat (k - a) + 1) (UnlockMutex mx) \<and>
    mutexes st' = mutexes st"
  using assms
proof (induction n arbitrary: a e st)
  case 0
  then show ?case by simp
next
  case (Suc n)
  let ?st1 = "send_cmd (UnlockMutex mx) st"
  show ?case
  proof (cases "a = k")
    case True
    with Suc.prems show ?thesis by simp
  next
    case False
    with Suc.prems have lt: "a < k" by simp
    have ih: "\<exists>st'. release_loop replies mx b n (a + 1) e' ?st1 =
        (Inr (), map (\<lambda>j. dur_mul (wrap64 (b * (j + 1))) Millisecond) [a + 1..k - 1], st') \<and>
      redis_sent st' = redis_sent ?st1 @ replicate (nat (k - (a + 1)) + 1) (UnlockMutex mx) \<and>
      mutexes st' = mutexes ?st1" for e'
      by (rule Suc.IH) (use Suc.prems lt in auto)
    have up: "[a..k - 1] = a # [a + 1..k - 1]" using lt by (simp add: upto.simps)
    have nat: "nat (k - a) = Suc (nat (k - (a + 1)))" using lt by simp
    show ?thesis
    proof (cases "replies a")
      case (Inl e')
      with ih [of "Some e'"] show ?thesis by (auto simp: up nat Let_def)
    next
      case (Inr ok)
      with Suc.prems lt have "\<not> ok" by (cases ok) auto
      with Inr ih [of "Some ''failed to release lock: not owner''"] show ?thesis
        by (auto simp: up nat Let_def)
    qed
  qed
qed

text \<open>
  \<open>ReleaseLockWithRetry\<close> stops at the first unlock that succeeds: if attempt \<open>k\<close> (counted from 0, below
  \<open>maxRetries\<close>) is the first one, it returns nil after exactly \<open>k + 1\<close> unlock commands and the sleeps
  \<open>backoff * 1, ..., backoff * k\<close> milliseconds. The registry of \<^verbatim>\<open>mutex.go\<close> is not involved.
\<close>

theorem release_with_retry:
  assumes "\<And>j. 0 \<le> j \<Longrightarrow> j < k \<Longrightarrow> replies j \<noteq> Inr True" and "replies k = Inr True"
    and "0 \<le> k" and "k < maxRetries"
  shows "\<exists>st'. ReleaseLockWithRetry ev replies (Some mx) maxRetries st =
      (None, map (\<lambda>j. dur_mul (wrap64 (fst (GetTrxRedisBackoff ev st) * (j + 1))) Millisecond) [0..k - 1], st') \<and>
    redis_sent st' = redis_sent st @ replicate (nat k + 1) (UnlockMutex mx) \<and> mutexes st' = mutexes st"
proof -
  obtain b st1 where b: "GetTrxRedisBackoff ev st = (b, st1)" by fastforce
  from GetTrxRedisBackoff_frame [OF this] obtain c where "st1 = st\<lparr>cached_backoff := c\<rparr>" ..
  moreover from assms(3,4) have "k < 0 + int (nat maxRetries)" by simp
  from release_loop_releases [where replies = replies, OF assms(1,2,3) this, of mx b None st1] obtain st' where
    "release_loop replies mx b (nat maxRetries) 0 None st1 =
      (Inr (), map (\<lambda>j. dur_mul (wrap64 (b * (j + 1))) Millisecond) [0..k - 1], st')"
    "redis_sent st' = redis_sent st1 @ replicate (nat k + 1) (UnlockMutex mx)" "mutexes st' = mutexes st1"
    by auto
  ultimately show ?thesis by (simp add: ReleaseLockWithRetry_def b)
qed

theorem release_with_retry_witness:
  "\<exists>st'. ReleaseLockWithRetry (\<lambda>_. ''20'') (\<lambda>i. if i < 2 then Inl ''timeout'' else Inr True)
      (Some \<lparr>mx_id = 1, mx_name = ''k'', mx_expiry = Second, mx_tries = None, mx_retry_delay = None\<rparr>) 3
      alive_redis_state = (None, [20 * Millisecond, 40 * Millisecond], st')"
  using release_with_retry [of 2 "\<lambda>i. if i < 2 then Inl ''timeout'' else Inr True" 3 "\<lambda>_. ''20''"
      "\<lparr>mx_id = 1, mx_name = ''k'', mx_expiry = Second, mx_tries = None, mx_retry_delay = None\<rparr>"
      alive_redis_state]
  by (auto simp: GetTrxRedisBackoff_def alive_redis_state_def initial_redis_state_def atoi_def upto.simps
      unsigned_digits_def is_digit_def digit_val_def in_i64_def dur_mul_def wrap64_def)

end
