(* ===== verification/GoJson.thy ===== *)
theory GoJson
  imports GoText
begin

section \<open>encoding/json: the scanner and Compact\<close>

text \<open>
  The byte-at-a-time scanner of \<^verbatim>\<open>encoding/json\<close> (phases, stack of open objects and arrays, error) and
  \<^verbatim>\<open>json.Compact\<close>, which keeps the bytes the scanner does not skip. The order of result codes matters
  as in Go: codes from \<open>SkipSpace\<close> up are not copied.
\<close>

datatype json_error = InvalidChar char string | DepthExceeded | UnexpectedEnd

datatype phase =
    BeginValueOrEmpty | BeginValue | BeginStringOrEmpty | BeginString | EndValue | EndTop
  | InString | InEsc | InEscU | InEscU1 | InEscU12 | InEscU123
  | Neg | Int1 | Int0 | Dot | Dot0 | Exp | ExpSign | Exp0
  | T1 | T2 | T3 | F1 | F2 | F3 | F4 | N1 | N2 | N3

datatype parse_state = ObjectKey | ObjectValue | ArrayValue

datatype scan_code = Keep | SkipSpace | ScanEnd | ScanError json_error

text \<open>A state of the scanner: phase, stack, \<open>endTop\<close>. An error that is remembered but reported later
  (a byte after the top-level value) is \<open>Trailing\<close>.\<close>

datatype scanner = Scan phase "parse_state list" bool | Trailing json_error

definition json_space :: "char \<Rightarrow> bool" where
  "json_space c \<longleftrightarrow> code c \<le> 32 \<and>
     (c = CHR '' '' \<or> c = CHR 0x09 \<or> c = CHR 0x0D \<or> c = CHR 0x0A)"

definition is_hex :: "char \<Rightarrow> bool" where
  "is_hex c \<longleftrightarrow> is_digit c \<or> (97 \<le> code c \<and> code c \<le> 102) \<or> (65 \<le> code c \<and> code c \<le> 70)"

definition max_nesting :: nat where
  "max_nesting = 10000"

definition scan_error :: "char \<Rightarrow> string \<Rightarrow> scan_code \<times> scanner" where
  "scan_error c ctx = (ScanError (InvalidChar c ctx), Trailing (InvalidChar c ctx))"

definition push_state ::
  "phase \<Rightarrow> parse_state \<Rightarrow> parse_state list \<Rightarrow> bool \<Rightarrow> scan_code \<times> scanner" where
  "push_state ph p ps e =
     (if length ps < max_nesting then (Keep, Scan ph (p # ps) e)
      else (ScanError DepthExceeded, Trailing DepthExceeded))"

definition pop_state :: "parse_state list \<Rightarrow> bool \<Rightarrow> scanner" where
  "pop_state ps e = (if ps = [] then Scan EndTop [] True else Scan EndValue ps e)"

definition step_end_top :: "char \<Rightarrow> scan_code \<times> scanner" where
  "step_end_top c =
     (ScanEnd, if json_space c then Scan EndTop [] True
               else Trailing (InvalidChar c ''after top-level value''))"

definition step_end_value :: "parse_state list \<Rightarrow> bool \<Rightarrow> char \<Rightarrow> scan_code \<times> scanner" where
  "step_end_value ps e c =
     (case ps of
        [] \<Rightarrow> step_end_top c
      | p # r \<Rightarrow>
          (if json_space c then (SkipSpace, Scan EndValue ps e)
           else (case p of
                   ObjectKey \<Rightarrow>
                     (if c = CHR '':'' then (Keep, Scan BeginValue (ObjectValue # r) e)
                      else scan_error c ''after object key'')
                 | ObjectValue \<Rightarrow>
                     (if c = CHR '','' then (Keep, Scan BeginString (ObjectKey # r) e)
                      else if c = CHR ''}'' then (Keep, pop_state r e)
                      else scan_error c ''after object key:value pair'')
                 | ArrayValue \<Rightarrow>
                     (if c = CHR '','' then (Keep, Scan BeginValue (ArrayValue # r) e)
                      else if c = CHR '']'' then (Keep, pop_state r e)
                      else scan_error c ''after array element''))))"

definition step_begin_value :: "parse_state list \<Rightarrow> bool \<Rightarrow> char \<Rightarrow> scan_code \<times> scanner" where
  "step_begin_value ps e c =
     (if json_space c then (SkipSpace, Scan BeginValue ps e)
      else if c = CHR ''{'' then push_state BeginStringOrEmpty ObjectKey ps e
      else if c = CHR ''['' then push_state BeginValueOrEmpty ArrayValue ps e
      else if c = CHR 0x22 then (Keep, Scan InString ps e)
      else if c = CHR ''-'' then (Keep, Scan Neg ps e)
      else if c = CHR ''0'' then (Keep, Scan Int0 ps e)
      else if c = CHR ''t'' then (Keep, Scan T1 ps e)
      else if c = CHR ''f'' then (Keep, Scan F1 ps e)
      else if c = CHR ''n'' then (Keep, Scan N1 ps e)
      else if is_digit c then (Keep, Scan Int1 ps e)
      else scan_error c ''looking for beginning of value'')"

definition step_begin_string :: "parse_state list \<Rightarrow> bool \<Rightarrow> char \<Rightarrow> scan_code \<times> scanner" where
  "step_begin_string ps e c =
     (if json_space c then (SkipSpace, Scan BeginString ps e)
      else if c = CHR 0x22 then (Keep, Scan InString ps e)
      else scan_error c ''looking for beginning of object key string'')"

definition literal_step :: "char \<Rightarrow> phase \<Rightarrow> string \<Rightarrow> parse_state list \<Rightarrow> bool \<Rightarrow> char \<Rightarrow> scan_code \<times> scanner" where
  "literal_step want ph ctx ps e c = (if c = want then (Keep, Scan ph ps e) else scan_error c ctx)"

definition hex_step :: "phase \<Rightarrow> parse_state list \<Rightarrow> bool \<Rightarrow> char \<Rightarrow> scan_code \<times> scanner" where
  "hex_step ph ps e c =
     (if is_hex c then (Keep, Scan ph ps e)
      else scan_error c (''in '' @ [CHR 92] @ ''u hexadecimal character escape''))"

definition step_exp_sign :: "parse_state list \<Rightarrow> bool \<Rightarrow> char \<Rightarrow> scan_code \<times> scanner" where
  "step_exp_sign ps e c =
     (if is_digit c then (Keep, Scan Exp0 ps e) else scan_error c ''in exponent of numeric literal'')"

definition step_int0 :: "parse_state list \<Rightarrow> bool \<Rightarrow> char \<Rightarrow> scan_code \<times> scanner" where
  "step_int0 ps e c =
     (if c = CHR ''.'' then (Keep, Scan Dot ps e)
      else if c = CHR ''e'' \<or> c = CHR ''E'' then (Keep, Scan Exp ps e)
      else step_end_value ps e c)"

fun json_step :: "phase \<Rightarrow> parse_state list \<Rightarrow> bool \<Rightarrow> char \<Rightarrow> scan_code \<times> scanner" where
  "json_step BeginValueOrEmpty ps e c =
     (if json_space c then (SkipSpace, Scan BeginValueOrEmpty ps e)
      else if c = CHR '']'' then step_end_value ps e c
      else step_begin_value ps e c)"
| "json_step BeginValue ps e c = step_begin_value ps e c"
| "json_step BeginStringOrEmpty ps e c =
     (if json_space c then (SkipSpace, Scan BeginStringOrEmpty ps e)
      else if c = CHR ''}'' then step_end_value (ObjectValue # tl ps) e c
      else step_begin_string ps e c)"
| "json_step BeginString ps e c = step_begin_string ps e c"
| "json_step EndValue ps e c = step_end_value ps e c"
| "json_step EndTop ps e c = step_end_top c"
| "json_step InString ps e c =
     (if c = CHR 0x22 then (Keep, Scan EndValue ps e)
      else if c = CHR 92 then (Keep, Scan InEsc ps e)
      else if code c < 32 then scan_error c ''in string literal''
      else (Keep, Scan InString ps e))"
| "json_step InEsc ps e c =
     (if c \<in> {CHR ''b'', CHR ''f'', CHR ''n'', CHR ''r'', CHR ''t'', CHR 92, CHR ''/'', CHR 0x22}
      then (Keep, Scan InString ps e)
      else if c = CHR ''u'' then (Keep, Scan InEscU ps e)
      else scan_error c ''in string escape code'')"
| "json_step InEscU ps e c = hex_step InEscU1 ps e c"
| "json_step InEscU1 ps e c = hex_step InEscU12 ps e c"
| "json_step InEscU12 ps e c = hex_step InEscU123 ps e c"
| "json_step InEscU123 ps e c = hex_step InString ps e c"
| "json_step Neg ps e c =
     (if c = CHR ''0'' then (Keep, Scan Int0 ps e)
      else if is_digit c then (Keep, Scan Int1 ps e)
      else scan_error c ''in numeric literal'')"
| "json_step Int1 ps e c = (if is_digit c then (Keep, Scan Int1 ps e) else step_int0 ps e c)"
| "json_step Int0 ps e c = step_int0 ps e c"
| "json_step Dot ps e c =
     (if is_digit c then (Keep, Scan Dot0 ps e)
      else scan_error c ''after decimal point in numeric literal'')"
| "json_step Dot0 ps e c =
     (if is_digit c then (Keep, Scan Dot0 ps e)
      else if c = CHR ''e'' \<or> c = CHR ''E'' then (Keep, Scan Exp ps e)
      else step_end_value ps e c)"
| "json_step Exp ps e c =
     (if c = CHR ''+'' \<or> c = CHR ''-'' then (Keep, Scan ExpSign ps e) else step_exp_sign ps e c)"
| "json_step ExpSign ps e c = step_exp_sign ps e c"
| "json_step Exp0 ps e c = (if is_digit c then (Keep, Scan Exp0 ps e) else step_end_value ps e c)"
| "json_step T1 ps e c = literal_step (CHR ''r'') T2 ''in literal true (expecting 'r')'' ps e c"
| "json_step T2 ps e c = literal_step (CHR ''u'') T3 ''in literal true (expecting 'u')'' ps e c"
| "json_step T3 ps e c = literal_step (CHR ''e'') EndValue ''in literal true (expecting 'e')'' ps e c"
| "json_step F1 ps e c = literal_step (CHR ''a'') F2 ''in literal false (expecting 'a')'' ps e c"
| "json_step F2 ps e c = literal_step (CHR ''l'') F3 ''in literal false (expecting 'l')'' ps e c"
| "json_step F3 ps e c = literal_step (CHR ''s'') F4 ''in literal false (expecting 's')'' ps e c"
| "json_step F4 ps e c = literal_step (CHR ''e'') EndValue ''in literal false (expecting 'e')'' ps e c"
| "json_step N1 ps e c = literal_step (CHR ''u'') N2 ''in literal null (expecting 'u')'' ps e c"
| "json_step N2 ps e c = literal_step (CHR ''l'') N3 ''in literal null (expecting 'l')'' ps e c"
| "json_step N3 ps e c = literal_step (CHR ''l'') EndValue ''in literal null (expecting 'l')'' ps e c"

text \<open>End of input: one more space, then the scanner must be past a top-level value.\<close>

fun json_eof :: "scanner \<Rightarrow> json_error option" where
  "json_eof (Trailing err) = Some err"
| "json_eof (Scan ph ps e) =
     (if e then None
      else (case json_step ph ps e (CHR '' '') of
              (ScanError err, _) \<Rightarrow> Some err
            | (_, Scan _ _ True) \<Rightarrow> None
            | _ \<Rightarrow> Some UnexpectedEnd))"

fun compact_from :: "scanner \<Rightarrow> string \<Rightarrow> json_error + string" where
  "compact_from st [] = (case json_eof st of Some err \<Rightarrow> Inl err | None \<Rightarrow> Inr [])"
| "compact_from (Trailing err) (c # s) = Inl err"
| "compact_from (Scan ph ps e) (c # s) =
     (case json_step ph ps e c of
        (ScanError err, _) \<Rightarrow> Inl err
      | (Keep, st) \<Rightarrow> (case compact_from st s of Inl err \<Rightarrow> Inl err | Inr t \<Rightarrow> Inr (c # t))
      | (_, st) \<Rightarrow> compact_from st s)"

definition json_compact :: "string \<Rightarrow> json_error + string" where
  "json_compact = compact_from (Scan BeginValue [] False)"

subsection \<open>Compact is idempotent\<close>

lemma compact_length: "compact_from st s = Inr t \<Longrightarrow> length t \<le> length s"
proof (induction st s arbitrary: t rule: compact_from.induct)
  case (3 ph ps e c s)
  obtain k st where st: "json_step ph ps e c = (k, st)" by (cases "json_step ph ps e c")
  with 3 show ?case by (cases k; fastforce split: sum.splits)
qed (auto split: option.splits)

text \<open>The phases in which a value may end, and in which the scanner then does what \<open>EndValue\<close> does.\<close>

definition may_end :: "phase \<Rightarrow> bool" where
  "may_end ph \<longleftrightarrow> ph \<in> {Int1, Int0, Dot0, Exp0, EndValue}"

lemma may_end_step:
  assumes "may_end ph" and "fst (json_step EndValue ps e c) = Keep \<or> json_space c"
  shows "json_step ph ps e c = json_step EndValue ps e c"
proof -
  have "\<not> is_digit c \<and> c \<noteq> CHR ''.'' \<and> c \<noteq> CHR ''e'' \<and> c \<noteq> CHR ''E''"
    using assms(2)
    by (auto simp: step_end_value_def step_end_top_def scan_error_def json_space_def is_digit_def
        split: list.splits parse_state.splits if_splits)
  with assms(1) show ?thesis by (auto simp: may_end_def step_int0_def)
qed

lemma end_top_no_keep: "compact_from (Scan EndTop [] True) s = Inr t \<Longrightarrow> t = []"
proof (induction s arbitrary: t)
  case (Cons c s)
  then show ?case by (cases "json_space c"; cases s) (simp_all add: step_end_top_def)
qed simp

lemma compact_may_end:
  assumes "may_end ph" and "compact_from (Scan EndValue ps e) t = Inr t"
  shows "compact_from (Scan ph ps e) t = Inr t"
proof (cases t)
  case Nil
  have "json_space (CHR '' '')" by (simp add: json_space_def)
  then have "json_step ph ps e (CHR '' '') = json_step EndValue ps e (CHR '' '')"
    by (intro may_end_step [OF assms(1)]) simp
  then have "json_eof (Scan ph ps e) = json_eof (Scan EndValue ps e)" by (cases e) simp_all
  with assms(2) Nil show ?thesis by simp
next
  case (Cons c s)
  obtain k st where st: "json_step EndValue ps e c = (k, st)" by (cases "json_step EndValue ps e c")
  have "k = Keep"
  proof (rule ccontr)
    assume "k \<noteq> Keep"
    with assms(2) st Cons have "compact_from st s = Inr (c # s)"
      by (cases k) (auto split: sum.splits)
    then show False using compact_length by fastforce
  qed
  with st have "json_step ph ps e c = json_step EndValue ps e c"
    by (intro may_end_step [OF assms(1)]) simp
  with assms(2) Cons show ?thesis by simp
qed

text \<open>A step that is not copied leaves the scanner where it is, at the end of a value or at the end.\<close>

definition not_kept :: "scan_code \<Rightarrow> bool" where
  "not_kept k \<longleftrightarrow> k = SkipSpace \<or> k = ScanEnd"

lemma not_kept_simps [simp]:
  "not_kept SkipSpace" "not_kept ScanEnd" "\<not> not_kept Keep" "\<not> not_kept (ScanError err)"
  by (simp_all add: not_kept_def)

lemma skip_end_value:
  assumes "step_end_value ps e c = (k, st)" and "not_kept k"
  shows "st = Scan EndValue ps e \<or> (ps = [] \<and> st = Scan EndTop [] True) \<or> (\<exists>err. st = Trailing err)"
proof (cases ps)
  case Nil
  with assms show ?thesis by (auto simp: step_end_value_def step_end_top_def split: if_splits)
next
  case (Cons p r)
  with assms show ?thesis
    by (cases p) (auto simp: step_end_value_def scan_error_def split: if_splits)
qed

lemma skip_begin_value: "step_begin_value ps e c = (k, st) \<Longrightarrow> not_kept k \<Longrightarrow> st = Scan BeginValue ps e"
  by (auto simp: step_begin_value_def scan_error_def push_state_def split: if_splits)

lemma skip_begin_string: "step_begin_string ps e c = (k, st) \<Longrightarrow> not_kept k \<Longrightarrow> st = Scan BeginString ps e"
  by (auto simp: step_begin_string_def scan_error_def split: if_splits)

lemma skip_literal: "literal_step w ph' ctx ps e c = (k, st) \<Longrightarrow> \<not> not_kept k"
  by (auto simp: literal_step_def scan_error_def split: if_splits)

lemma skip_hex: "hex_step ph' ps e c = (k, st) \<Longrightarrow> \<not> not_kept k"
  by (auto simp: hex_step_def scan_error_def split: if_splits)

lemma skip_exp_sign: "step_exp_sign ps e c = (k, st) \<Longrightarrow> \<not> not_kept k"
  by (auto simp: step_exp_sign_def scan_error_def split: if_splits)

lemma skip_int0:
  "step_int0 ps e c = (k, st) \<Longrightarrow> not_kept k \<Longrightarrow> step_end_value ps e c = (k, st)"
  by (auto simp: step_int0_def split: if_splits)

lemma begin_value_space: "step_begin_value ps e c = (k, st) \<Longrightarrow> not_kept k \<Longrightarrow> json_space c"
  by (auto simp: step_begin_value_def scan_error_def push_state_def split: if_splits)

lemma begin_string_space: "step_begin_string ps e c = (k, st) \<Longrightarrow> not_kept k \<Longrightarrow> json_space c"
  by (auto simp: step_begin_string_def scan_error_def split: if_splits)

lemma close_value_kept:
  "step_end_value ps e (CHR '']'') = (k, st) \<Longrightarrow> not_kept k \<Longrightarrow> \<exists>err. st = Trailing err"
  by (cases ps; cases "hd ps")
    (auto simp: step_end_value_def step_end_top_def scan_error_def json_space_def split: if_splits)

lemma close_object_kept:
  "step_end_value (ObjectValue # r) e (CHR ''}'') = (k, st) \<Longrightarrow> not_kept k \<Longrightarrow> False"
  by (auto simp: step_end_value_def json_space_def)

lemma skip_value_or_empty:
  "json_step BeginValueOrEmpty ps e c = (k, st) \<Longrightarrow> not_kept k \<Longrightarrow>
   st = Scan BeginValueOrEmpty ps e \<or> (\<exists>err. st = Trailing err)"
  using close_value_kept [of ps e k st] begin_value_space [of ps e c k st] by (auto split: if_splits)

lemma skip_string_or_empty:
  "json_step BeginStringOrEmpty ps e c = (k, st) \<Longrightarrow> not_kept k \<Longrightarrow> st = Scan BeginStringOrEmpty ps e"
  using close_object_kept [of "tl ps" e k st] begin_string_space [of ps e c k st] by (auto split: if_splits)

lemma skip_inside:
  "ph \<in> {InString, InEsc, Neg, Dot} \<Longrightarrow> json_step ph ps e c = (k, st) \<Longrightarrow> \<not> not_kept k"
  by (auto simp: scan_error_def split: if_splits)

lemma skip_hexes:
  "ph \<in> {InEscU, InEscU1, InEscU12, InEscU123} \<Longrightarrow> json_step ph ps e c = (k, st) \<Longrightarrow> \<not> not_kept k"
  by (auto dest: skip_hex)

lemma skip_words:
  "ph \<in> {T1, T2, T3, F1, F2, F3, F4, N1, N2, N3} \<Longrightarrow> json_step ph ps e c = (k, st) \<Longrightarrow> \<not> not_kept k"
  by (auto dest: skip_literal)

lemma skip_exp: "json_step Exp ps e c = (k, st) \<Longrightarrow> \<not> not_kept k"
  using skip_exp_sign [of ps e c k st] by (auto split: if_splits)

lemma skip_end:
  assumes "may_end ph" and "json_step ph ps e c = (k, st)" and "not_kept k"
  shows "step_end_value ps e c = (k, st)"
  using assms skip_int0 [of ps e c k st] by (auto simp: may_end_def split: if_splits)

lemma skip_step:
  assumes "json_step ph ps e c = (k, st)" and "not_kept k"
  shows "st = Scan ph ps e \<or> (may_end ph \<and> st = Scan EndValue ps e) \<or>
    ((may_end ph \<and> ps = [] \<or> ph = EndTop) \<and> st = Scan EndTop [] True) \<or> (\<exists>err. st = Trailing err)"
proof (cases "may_end ph")
  case True
  from skip_end_value [OF skip_end [OF True assms] assms(2)] True show ?thesis by blast
next
  case False
  have rest: "ph \<notin> {InString, InEsc, Neg, Dot} \<and> ph \<notin> {InEscU, InEscU1, InEscU12, InEscU123} \<and>
      ph \<notin> {T1, T2, T3, F1, F2, F3, F4, N1, N2, N3}"
    using skip_inside skip_hexes skip_words assms by metis
  show ?thesis
  proof (cases ph)
    case BeginValueOrEmpty
    with skip_value_or_empty assms show ?thesis by blast
  next
    case BeginStringOrEmpty
    with skip_string_or_empty assms show ?thesis by blast
  next
    case BeginValue
    with assms skip_begin_value show ?thesis by simp
  next
    case BeginString
    with assms skip_begin_string show ?thesis by simp
  next
    case EndTop
    with assms show ?thesis by (auto simp: step_end_top_def split: if_splits)
  next
    case ExpSign
    with assms skip_exp_sign show ?thesis by simp
  next
    case Exp
    with assms skip_exp show ?thesis by blast
  qed (use False rest in \<open>simp_all add: may_end_def\<close>)
qed

lemma compact_from_kept:
  "json_step ph ps e c = (Keep, st) \<Longrightarrow> compact_from (Scan ph ps e) (c # s) = Inr t \<longleftrightarrow>
   (\<exists>t'. compact_from st s = Inr t' \<and> t = c # t')"
  by (auto simp del: json_step.simps split: sum.splits)

lemma compact_from_skipped:
  "json_step ph ps e c = (k, st) \<Longrightarrow> not_kept k \<Longrightarrow> compact_from (Scan ph ps e) (c # s) = compact_from st s"
  by (auto simp: not_kept_def simp del: json_step.simps)

text \<open>What is accepted after a skipped byte is accepted without it.\<close>

lemma compact_unskip:
  assumes "json_step ph ps e c = (k, st)" and "not_kept k"
    and "compact_from st s = Inr t" and "compact_from st t = Inr t"
  shows "compact_from (Scan ph ps e) t = Inr t"
proof -
  have "\<And>err. st \<noteq> Trailing err" using assms(3) by (cases s) auto
  with skip_step [OF assms(1,2)] consider "st = Scan ph ps e" | "may_end ph" "st = Scan EndValue ps e"
    | "may_end ph \<and> ps = [] \<or> ph = EndTop" "st = Scan EndTop [] True" by blast
  then show ?thesis
  proof cases
    case 1
    with assms(4) show ?thesis by simp
  next
    case 2
    with assms(4) compact_may_end show ?thesis by blast
  next
    case 3
    then have "t = []" using assms(3) end_top_no_keep by blast
    have "json_space (CHR '' '')" by (simp add: json_space_def)
    with 3(1) have "json_eof (Scan ph ps e) = None"
      using may_end_step [of ph ps e "CHR '' ''"]
      by (cases e) (auto simp: step_end_value_def step_end_top_def)
    with \<open>t = []\<close> show ?thesis by simp
  qed
qed

lemma compact_idem: "compact_from st s = Inr t \<Longrightarrow> compact_from st t = Inr t"
proof (induction s arbitrary: st t)
  case Nil
  then show ?case by (auto split: option.splits)
next
  case (Cons c s)
  obtain ph ps e where sc: "st = Scan ph ps e" using Cons.prems by (cases st) auto
  obtain k st' where st': "json_step ph ps e c = (k, st')" by (cases "json_step ph ps e c")
  show ?case
  proof (cases "not_kept k")
    case True
    from Cons.prems have "compact_from st' s = Inr t"
      unfolding sc compact_from_skipped [OF st' True] .
    with Cons.IH compact_unskip [OF st' True] show ?thesis unfolding sc by blast
  next
    case False
    show ?thesis
    proof (cases k)
      case Keep
      with st' have kp: "json_step ph ps e c = (Keep, st')" by simp
      from Cons.prems obtain t' where "compact_from st' s = Inr t'" "t = c # t'"
        unfolding sc compact_from_kept [OF kp] by blast
      with Cons.IH show ?thesis unfolding sc by (simp add: compact_from_kept [OF kp] del: compact_from.simps)
    next
      case (ScanError err)
      with Cons.prems sc st' show ?thesis by simp
    qed (use False in simp_all)
  qed
qed

lemma json_compact_idem: "json_compact s = Inr t \<Longrightarrow> json_compact t = Inr t"
  by (simp add: json_compact_def compact_idem)

end
