(* ===== verification/HttpHelpers.thy ===== *)
theory HttpHelpers
  imports GoJson AppGlobals
begin

section \<open>helpers.go, response.go, headers.go, validator.go\<close>

text \<open>
  What the HTTP middlewares share: JSON minification, the API response record, the request id, the
  header validation rules. The validator library \<^verbatim>\<open>govalidator\<close> is a parameter that is given the
  fields with their rules; the two custom rules are the code's own.
\<close>

subsection \<open>helpers.go: JsonMinify\<close>

text \<open>The text of a scanner error, with \<open>quoteChar\<close> of \<^verbatim>\<open>encoding/json\<close>.\<close>

definition hex_digit :: "nat \<Rightarrow> char" where
  "hex_digit n = (if n < 10 then char_of (48 + n) else char_of (87 + n))"

definition quote_char :: "char \<Rightarrow> string" where
  "quote_char c =
     (let q = [CHR 39]; bs = [CHR 92]; n = code c
      in if c = CHR 39 then q @ bs @ q @ q
         else if c = CHR 34 then q @ [CHR 34] @ q
         else if c = CHR 92 then q @ bs @ bs @ q
         else if 32 \<le> n \<and> n < 127 then q @ [c] @ q
         else if n = 7 then q @ bs @ ''a'' @ q
         else if n = 8 then q @ bs @ ''b'' @ q
         else if n = 12 then q @ bs @ ''f'' @ q
         else if n = 10 then q @ bs @ ''n'' @ q
         else if n = 13 then q @ bs @ ''r'' @ q
         else if n = 9 then q @ bs @ ''t'' @ q
         else if n = 11 then q @ bs @ ''v'' @ q
         else if n < 128 then q @ bs @ ''x'' @ [hex_digit (n div 16), hex_digit (n mod 16)] @ q
         else if n \<le> 160 \<or> n = 173 then q @ bs @ ''u00'' @ [hex_digit (n div 16), hex_digit (n mod 16)] @ q
         else q @ [char_of (192 + n div 64), char_of (128 + n mod 64)] @ q)"

fun json_error_text :: "json_error \<Rightarrow> err" where
  "json_error_text (InvalidChar c ctx) = ''invalid character '' @ quote_char c @ '' '' @ ctx"
| "json_error_text DepthExceeded = ''exceeded max depth''"
| "json_error_text UnexpectedEnd = ''unexpected end of JSON input''"

definition JsonMinify :: "string \<Rightarrow> err + string" where
  "JsonMinify jsonB =
     (case json_compact jsonB of
        Inl e \<Rightarrow> Inl (''failure encountered compacting json := '' @ json_error_text e)
      | Inr buff \<Rightarrow> Inr buff)"

lemma JsonMinify_Inr: "JsonMinify s = Inr t \<longleftrightarrow> json_compact s = Inr t"
  by (simp add: JsonMinify_def split: sum.split)

lemma JsonMinify_empty: "\<exists>e. JsonMinify [] = Inl e"
  by (simp add: JsonMinify_def json_compact_def step_begin_value_def json_space_def)

subsection \<open>helpers.go and phhelper: the encoders\<close>

text \<open>
  The encoders of \<^verbatim>\<open>encoding/json\<close> over a Go value are parameters: what \<open>Marshal\<close> and \<open>MarshalIndent\<close> (with
  prefix and indent) return, and the bytes an \<open>Encoder\<close> that does not escape HTML has written when its
  \<open>Encode\<close> returns, with the error. A failed \<open>Marshal\<close> returns a nil slice. \<^verbatim>\<open>phhelper\<close> has copies of the
  functions.
\<close>

record 'v json_lib =
  jl_marshal :: "'v \<Rightarrow> err + string"
  jl_marshal_indent :: "'v \<Rightarrow> string \<Rightarrow> string \<Rightarrow> err + string"
  jl_encode_no_escape :: "'v \<Rightarrow> string \<times> err option"

definition text_or_empty :: "err + string \<Rightarrow> string" where
  "text_or_empty r = (case r of Inl e \<Rightarrow> [] | Inr b \<Rightarrow> b)"

definition JSONEncode :: "'v json_lib \<Rightarrow> 'v \<Rightarrow> string" where
  "JSONEncode jl obj = text_or_empty (jl_marshal_indent jl obj [] ''  '')"

definition ToJson :: "'v json_lib \<Rightarrow> 'v \<Rightarrow> string" where
  "ToJson jl data = text_or_empty (jl_marshal jl data)"

definition ToJsonIndent :: "'v json_lib \<Rightarrow> 'v \<Rightarrow> string" where
  "ToJsonIndent jl data = text_or_empty (jl_marshal_indent jl data [] '' '')"

definition ph_JsonMinify :: "string \<Rightarrow> err + string" where
  "ph_JsonMinify jsonB =
     (case json_compact jsonB of
        Inl e \<Rightarrow> Inl (''failure encountered compacting json := '' @ json_error_text e)
      | Inr buff \<Rightarrow> Inr buff)"

definition ph_JsonMarshalNoEsc :: "'v json_lib \<Rightarrow> 'v \<Rightarrow> string \<times> err option" where
  "ph_JsonMarshalNoEsc jl t = jl_encode_no_escape jl t"

definition ph_JSONEncode :: "'v json_lib \<Rightarrow> 'v \<Rightarrow> string" where
  "ph_JSONEncode jl obj = text_or_empty (jl_marshal_indent jl obj [] ''  '')"

definition ph_ToJson :: "'v json_lib \<Rightarrow> 'v \<Rightarrow> string" where
  "ph_ToJson jl data = text_or_empty (jl_marshal jl data)"

definition ph_ToJsonIndent :: "'v json_lib \<Rightarrow> 'v \<Rightarrow> string" where
  "ph_ToJsonIndent jl data = text_or_empty (jl_marshal_indent jl data [] '' '')"

text \<open>
  The two copies agree, and minifying what \<open>ToJsonIndent\<close> printed gives what \<open>ToJson\<close> prints whenever the
  two encoders print the same document up to spaces.
\<close>

lemma helper_copies_agree:
  "ph_JsonMinify = JsonMinify" "ph_JSONEncode = JSONEncode" "ph_ToJson = ToJson" "ph_ToJsonIndent = ToJsonIndent"
  by (simp_all add: fun_eq_iff ph_JsonMinify_def JsonMinify_def ph_JSONEncode_def JSONEncode_def ph_ToJson_def
      ToJson_def ph_ToJsonIndent_def ToJsonIndent_def)

lemma minify_pretty_print:
  assumes "\<And>v p i t. jl_marshal_indent jl v p i = Inr t \<Longrightarrow>
      \<exists>c. jl_marshal jl v = Inr c \<and> json_compact t = json_compact c \<and> json_compact c = Inr c"
    and "jl_marshal_indent jl v [] '' '' = Inr t"
  shows "ph_JsonMinify (ToJsonIndent jl v) = Inr (ToJson jl v)"
proof -
  obtain c where "jl_marshal jl v = Inr c" "json_compact t = json_compact c" "json_compact c = Inr c"
    using assms by blast
  with assms(2) show ?thesis
    by (simp add: ph_JsonMinify_def ToJsonIndent_def ToJson_def text_or_empty_def)
qed

subsection \<open>response.go\<close>

datatype 'j payload = NoData | TextData string | JsonData 'j

record 'j response_api =
  resp_code :: int
  resp_status :: string
  resp_message :: string
  resp_internal_code :: string
  resp_data :: "'j payload"

definition Out ::
  "int \<Rightarrow> string \<Rightarrow> string \<Rightarrow> string \<Rightarrow> 'j payload \<Rightarrow> 'j response_api \<Rightarrow> 'j response_api" where
  "Out c message internalCode status data r =
     r\<lparr>resp_code := c, resp_internal_code := internalCode, resp_status := status,
       resp_message := message, resp_data := data\<rparr>"

definition InternalServerError :: "err \<Rightarrow> 'j response_api \<Rightarrow> 'j response_api" where
  "InternalServerError e = Out 500 e [] ''internal server error'' NoData"

definition BadRequest :: "string \<Rightarrow> string \<Rightarrow> 'j response_api \<Rightarrow> 'j response_api" where
  "BadRequest message internalCode = Out 400 message internalCode ''bad request'' (TextData message)"

definition Unauthorized :: "string \<Rightarrow> string \<Rightarrow> 'j response_api \<Rightarrow> 'j response_api" where
  "Unauthorized message internalCode = Out 401 message internalCode ''unauthorized'' NoData"

definition Accepted :: "'j \<Rightarrow> 'j response_api \<Rightarrow> 'j response_api" where
  "Accepted data = Out 202 ''your request in process'' [] ''accepted'' (JsonData data)"

definition Success :: "string \<Rightarrow> 'j payload \<Rightarrow> 'j response_api \<Rightarrow> 'j response_api" where
  "Success message data = Out 200 message [] ''success'' data"

definition empty_response :: "'j response_api" where
  "empty_response = \<lparr>resp_code = 0, resp_status = [], resp_message = [], resp_internal_code = [],
     resp_data = NoData\<rparr>"

lemma response_codes [simp]:
  "resp_code (InternalServerError e r) = 500" "resp_code (BadRequest m i r) = 400"
  "resp_code (Unauthorized m i r) = 401" "resp_code (Accepted d r) = 202"
  by (simp_all add: InternalServerError_def BadRequest_def Unauthorized_def Accepted_def Out_def)

text \<open>A middleware either answers or calls the next handler.\<close>

datatype 'j verdict = Answer "'j response_api" | CallNext

subsection \<open>headers.go\<close>

record headers =
  hd_idempotency_key :: string
  hd_session :: string
  hd_csrf :: string
  hd_request_id :: string

text \<open>\<open>rand_hex\<close> is what \<^verbatim>\<open>crypto/rand\<close> gave, in hexadecimal (or its error), \<open>now\<close> the clock in nanoseconds.\<close>

definition generate_request_id :: "string option \<Rightarrow> int \<Rightarrow> string" where
  "generate_request_id rand_hex now = (case rand_hex of Some h \<Rightarrow> h | None \<Rightarrow> itoa now)"

definition GetOrGenerateRequestID :: "string option \<Rightarrow> int \<Rightarrow> string \<Rightarrow> string" where
  "GetOrGenerateRequestID rand_hex now headerValue =
     (if headerValue \<noteq> [] then headerValue else generate_request_id rand_hex now)"

text \<open>The validator gets fields, rules and values, and returns the problems (the empty text for none).\<close>

type_synonym gov = "(string \<times> string list \<times> string) list \<Rightarrow> string"

definition ValidateHeaderIdem :: "gov \<Rightarrow> headers \<Rightarrow> string option" where
  "ValidateHeaderIdem gov h =
     (let problems = gov [(''idem_key'', [''required'', ''char_libs'', ''max:50''], hd_idempotency_key h),
                          (''session'', [''numeric_null_libs'', ''max:60''], hd_session h)]
      in if problems \<noteq> [] then Some problems else None)"

definition ValidateHeaderCsrf :: "gov \<Rightarrow> headers \<Rightarrow> string option" where
  "ValidateHeaderCsrf gov h =
     (let problems = gov [(''csrf'', [''required'', ''char_libs'', ''max:50''], hd_csrf h)]
      in if problems \<noteq> [] then Some problems else None)"

subsection \<open>validator.go\<close>

text \<open>The regular expressions \<^verbatim>\<open>^-?[0-9]+$\<close> and \<^verbatim>\<open>^[-a-zA-Z0-9_-]+$\<close>.\<close>

definition is_numeric :: "string \<Rightarrow> bool" where
  "is_numeric s =
     (let ds = (case s of [] \<Rightarrow> [] | c # r \<Rightarrow> if c = CHR ''-'' then r else s)
      in ds \<noteq> [] \<and> list_all is_digit ds)"

definition is_idem_key :: "string \<Rightarrow> bool" where
  "is_idem_key s \<longleftrightarrow> s \<noteq> [] \<and>
     list_all (\<lambda>c. c = CHR ''-'' \<or> c = CHR ''_'' \<or> is_lower c \<or> is_upper c \<or> is_digit c) s"

text \<open>The custom rules: field, message and value; \<open>None\<close> accepts.\<close>

definition numeric_null_rule :: "string \<Rightarrow> string \<Rightarrow> string \<Rightarrow> err option" where
  "numeric_null_rule field message str =
     (if str = [] then None
      else let e = (if message \<noteq> [] then message else ''the '' @ field @ '' field must be a valid numeric'')
           in if \<not> is_numeric str then Some e else None)"

definition char_libs_rule :: "string \<Rightarrow> string \<Rightarrow> string \<Rightarrow> err option" where
  "char_libs_rule field message str =
     (if str = [] then None
      else let e = (if message \<noteq> [] then message
                    else ''the '' @ field @ '' field must be a contains alpha numeric, space, dot, comma, '' @
                         ''underscore, dash, slash and brackets'')
           in if \<not> is_idem_key str then Some e else None)"

text \<open>
  The rules get a value of interface type: a string is used as it is, anything else is printed (\<open>show_value\<close>).
  \<open>AddValidatorLibs\<close> puts both into the validator's table of rules.
\<close>

datatype 'v rule_value = TextValue string | OtherValue 'v

definition to_string :: "('v \<Rightarrow> string) \<Rightarrow> 'v rule_value \<Rightarrow> string" where
  "to_string show_value v = (case v of TextValue s \<Rightarrow> s | OtherValue x \<Rightarrow> show_value x)"

definition AddValidatorLibs ::
  "('v \<Rightarrow> string) \<Rightarrow> (string \<rightharpoonup> (string \<Rightarrow> string \<Rightarrow> 'v rule_value \<Rightarrow> err option)) \<Rightarrow>
     (string \<rightharpoonup> (string \<Rightarrow> string \<Rightarrow> 'v rule_value \<Rightarrow> err option))" where
  "AddValidatorLibs show_value rules =
     rules(''numeric_null_libs'' \<mapsto> \<lambda>field message v. numeric_null_rule field message (to_string show_value v),
           ''char_libs'' \<mapsto> \<lambda>field message v. char_libs_rule field message (to_string show_value v))"

lemma AddValidatorLibs_twice: "AddValidatorLibs sv (AddValidatorLibs sv rules) = AddValidatorLibs sv rules"
  by (simp add: AddValidatorLibs_def fun_upd_twist)

text \<open>What the numeric rule lets through, \<open>strconv.Atoi\<close> reads unless it does not fit 64 bits.\<close>

lemma digits_acc_digits: "list_all is_digit s \<Longrightarrow> \<exists>n. digits_acc acc s = Some n"
  by (induction acc s rule: digits_acc.induct) auto

end
