(* ===== verification/Idempotency.thy ===== *)
theory Idempotency
  imports RedisOps HttpHelpers
begin

section \<open>idempotency-key.go: the duplicate-request middleware\<close>

text \<open>
  \<open>VerifIdemKey\<close> over the Redis operations of \<open>RedisOps\<close>. A Go map decoded from JSON is \<open>'j option\<close>
  (\<open>None\<close> is the nil map). The JSON codecs of \<^verbatim>\<open>jsoniter\<close>, the form binding of \<^verbatim>\<open>echo\<close>, \<^verbatim>\<open>crypto/md5\<close> and
  the validator are fields of \<open>idem_libs\<close>. The body is \<open>None\<close> when the request has none (nil) and else
  what reading it gives. Besides its verdict the middleware returns the package state, whose
  \<open>redis_sent\<close> shows the commands it sent before it answered or called the next handler.
\<close>

record 'j idem_libs =
  lib_gov :: gov
  lib_unmarshal :: "'j option \<Rightarrow> string \<Rightarrow> err + 'j option"
  lib_bind_form :: "err + 'j option"
  lib_json_marshal :: "'j option \<Rightarrow> err + string"
  lib_md5 :: "string \<Rightarrow> string"
  lib_empty_map :: 'j

record idem_request =
  rq_request_id :: string
  rq_idempotency_key :: string
  rq_session :: string
  rq_content_type :: string
  rq_body :: "(err + string) option"

text \<open>What is stored under the key: the headers, or the decoded body.\<close>

datatype 'j idem_value = StoredHeaders headers | StoredBody 'j

definition VerifyMD5 :: "(string \<Rightarrow> string) \<Rightarrow> string \<Rightarrow> string \<Rightarrow> err + string" where
  "VerifyMD5 md5 idemKey request =
     (let md5Generated = md5 request
      in if idemKey \<noteq> md5Generated then Inr ''key not valid'' else Inr [])"

text \<open>The decoded request, the status of the key check, or an error.\<close>

definition ReadBody ::
  "'j idem_libs \<Rightarrow> string \<Rightarrow> err + string \<Rightarrow> string \<Rightarrow> err + ('j option \<times> string)" where
  "ReadBody libs content read idem =
     (let decoded =
        (if content = ''application/json'' then
           (case read of
              Inl e \<Rightarrow> Inl e
            | Inr body \<Rightarrow>
                (case lib_unmarshal libs (Some (lib_empty_map libs)) body of
                   Inl e \<Rightarrow> Inl e
                 | Inr request \<Rightarrow> Inr (request, body)))
         else if contains content ''multipart/form-data'' then
           (case lib_bind_form libs of
              Inl e \<Rightarrow> Inl e
            | Inr request \<Rightarrow>
                (case lib_json_marshal libs request of
                   Inl e \<Rightarrow> Inl e
                 | Inr body \<Rightarrow> Inr (request, body)))
         else Inr (Some (lib_empty_map libs), []))
      in case decoded of
           Inl e \<Rightarrow> Inl e
         | Inr (request, body) \<Rightarrow>
             (case JsonMinify body of
                Inl e \<Rightarrow> Inl e
              | Inr jsonMinify \<Rightarrow>
                  (case VerifyMD5 (lib_md5 libs) idem jsonMinify of
                     Inl e \<Rightarrow> Inl e
                   | Inr status \<Rightarrow> if status \<noteq> [] then Inr (None, status) else Inr (request, []))))"

text \<open>The window in seconds: unset or 0 is 9, anything below 4 is 9.\<close>

definition session_seconds :: "string \<Rightarrow> int option" where
  "session_seconds s =
     (case atoi (if s = [] \<or> s = ''0'' then ''9'' else s) of
        None \<Rightarrow> None
      | Some session \<Rightarrow> Some (if session < 4 then 9 else session))"

text \<open>The store of a new key, with the answer when it fails.\<close>

definition idem_store ::
  "globals \<Rightarrow> env \<Rightarrow> conn_reply \<Rightarrow> ('j idem_value \<Rightarrow> err + string) \<Rightarrow> err option \<Rightarrow> headers \<Rightarrow> 'j option \<Rightarrow>
     int \<Rightarrow> redis_state \<Rightarrow> 'j option verdict outcome \<times> redis_state" where
  "idem_store g ev reply marshal set_reply header request session st =
     (case StoreRedis g ev reply marshal set_reply (hd_idempotency_key header)
         (case request of None \<Rightarrow> StoredHeaders header | Some r \<Rightarrow> StoredBody r)
         (dur_mul Second session) st of
        (Hangs, st1) \<Rightarrow> (Hangs, st1)
      | (Panicked p, st1) \<Rightarrow> (Panicked p, st1)
      | (Returned (Some e), st1) \<Rightarrow> (Returned (Answer (InternalServerError e empty_response)), st1)
      | (Returned None, st1) \<Rightarrow> (Returned CallNext, st1))"

text \<open>The checks before Redis is asked: the rejection, or the headers, the window and the request.\<close>

definition idem_admit ::
  "'j idem_libs \<Rightarrow> string option \<Rightarrow> int \<Rightarrow> idem_request \<Rightarrow>
     'j option response_api + (headers \<times> int \<times> 'j option)" where
  "idem_admit libs rand_hex now rq =
     (let header0 = \<lparr>hd_idempotency_key = rq_idempotency_key rq, hd_session = rq_session rq, hd_csrf = [],
            hd_request_id = GetOrGenerateRequestID rand_hex now (rq_request_id rq)\<rparr>
      in if ValidateHeaderIdem (lib_gov libs) header0 \<noteq> None
         then Inl (BadRequest ''invalid idempotency key format'' ''IDEM_INVALID_FORMAT'' empty_response)
         else
           (case session_seconds (rq_session rq) of
              None \<Rightarrow> Inl (BadRequest ''invalid session header format'' ''IDEM_INVALID_SESSION'' empty_response)
            | Some session \<Rightarrow>
                (case (case rq_body rq of
                         None \<Rightarrow> Inr (None, [])
                       | Some read \<Rightarrow> ReadBody libs (rq_content_type rq) read (rq_idempotency_key rq)) of
                   Inl e \<Rightarrow> Inl (InternalServerError e empty_response)
                 | Inr (request, status) \<Rightarrow>
                     (if status \<noteq> []
                      then Inl (BadRequest ''idempotency key does not match request body''
                             ''IDEM_KEY_MISMATCH'' empty_response)
                      else Inr (if rq_session rq = [] \<or> rq_session rq = ''0''
                                then header0\<lparr>hd_session := ''9''\<rparr> else header0, session, request)))))"

text \<open>The lookup of the key, the answer to a duplicate, and the store of a new key.\<close>

definition idem_lookup ::
  "globals \<Rightarrow> env \<Rightarrow> 'j idem_libs \<Rightarrow> conn_reply \<Rightarrow> (err + string) option \<Rightarrow>
     ('j idem_value \<Rightarrow> err + string) \<Rightarrow> err option \<Rightarrow> headers \<Rightarrow> int \<Rightarrow> 'j option \<Rightarrow> redis_state \<Rightarrow>
     'j option verdict outcome \<times> redis_state" where
  "idem_lookup g ev libs reply get_reply marshal set_reply header session request st =
     (case GetRedis g reply get_reply (hd_idempotency_key header) st of
        (Hangs, st1) \<Rightarrow> (Hangs, st1)
      | (Panicked p, st1) \<Rightarrow> (Panicked p, st1)
      | (Returned (data, gerr), st1) \<Rightarrow>
          (if data \<noteq> [] then
             (case lib_unmarshal libs request data of
                Inl e \<Rightarrow> (Returned (Answer (InternalServerError e empty_response)), st1)
              | Inr cached \<Rightarrow> (Returned (Answer (Accepted cached empty_response)), st1))
           else (case gerr of
                   None \<Rightarrow> (Returned CallNext, st1)
                 | Some e \<Rightarrow>
                     (if contains e ''redis: nil''
                      then idem_store g ev reply marshal set_reply header request session st1
                      else (Returned (Answer (InternalServerError e empty_response)), st1)))))"

definition VerifIdemKey ::
  "globals \<Rightarrow> env \<Rightarrow> 'j idem_libs \<Rightarrow> conn_reply \<Rightarrow> (err + string) option \<Rightarrow>
     ('j idem_value \<Rightarrow> err + string) \<Rightarrow> err option \<Rightarrow> string option \<Rightarrow> int \<Rightarrow> idem_request \<Rightarrow> redis_state \<Rightarrow>
     'j option verdict outcome \<times> redis_state" where
  "VerifIdemKey g ev libs reply get_reply marshal set_reply rand_hex now rq st =
     (case idem_admit libs rand_hex now rq of
        Inl response \<Rightarrow> (Returned (Answer response), st)
      | Inr (header, session, request) \<Rightarrow>
          idem_lookup g ev libs reply get_reply marshal set_reply header session request st)"

subsection \<open>What the middleware guarantees\<close>

lemma GetRedis_unset:
  "redis_opts st = None \<Longrightarrow>
   GetRedis g reply get_reply k st = (Returned ([], Some ''nil redis options''), st)"
  by (simp add: GetRedis_def GetRedisWithContext_def with_pool_client_def GetRedisPoolClient_unset)

lemma StoreRedis_marshal_error:
  assumes "redis_opts st = Some ro" and "pool_client st = Some c" and "marshal data = Inl e"
  shows "StoreRedis g ev reply marshal set_reply k data duration st = (Returned (Some e), st)"
  using assms
  by (simp add: StoreRedis_def StoreRedisWithContext_def with_pool_client_def GetRedisPoolClient_alive)

lemma idem_store_keeps:
  assumes "idem_store g ev reply marshal set_reply header request session st = (Returned CallNext, st')"
    and "redis_opts st = Some ro" and "pool_client st = Some c"
  shows "set_reply = None \<and> redis_opts st' = Some ro \<and> pool_client st' = Some c \<and>
    (\<exists>json. marshal (case request of None \<Rightarrow> StoredHeaders header | Some r \<Rightarrow> StoredBody r) = Inr json \<and>
      redis_sent st' = redis_sent st @
        [SetKey c (hd_idempotency_key header) json (clamp_store_ttl ev (dur_mul Second session))])"
proof -
  let ?v = "case request of None \<Rightarrow> StoredHeaders header | Some r \<Rightarrow> StoredBody r"
  show ?thesis
  proof (cases "marshal ?v")
    case (Inl e)
    from StoreRedis_marshal_error [where marshal = marshal, OF assms(2,3) Inl] assms(1) show ?thesis
      by (simp add: idem_store_def)
  next
    case (Inr json)
    from StoreRedis_alive [where marshal = marshal, OF assms(2,3) Inr] assms(1) show ?thesis
      using assms(2,3) Inr by (auto simp: idem_store_def split: option.splits)
  qed
qed

lemma ReadBody_accepts:
  assumes "ReadBody libs content read idem = Inr (request, [])"
  shows "\<exists>body minified. JsonMinify body = Inr minified \<and> lib_md5 libs minified = idem \<and>
    (content = ''application/json'' \<longrightarrow> read = Inr body)"
  using assms
  by (auto simp: ReadBody_def VerifyMD5_def Let_def split: sum.splits if_splits prod.splits)

lemma ReadBody_other_content:
  assumes "content \<noteq> ''application/json''" and "\<not> contains content ''multipart/form-data''"
  shows "\<exists>e. ReadBody libs content read idem = Inl e"
  using assms JsonMinify_empty by (auto simp: ReadBody_def)

lemma idem_admit_Inr:
  assumes "idem_admit libs rand_hex now rq = Inr (header, session, request)"
  shows "session_seconds (rq_session rq) = Some session" and "hd_idempotency_key header = rq_idempotency_key rq"
    and "case rq_body rq of None \<Rightarrow> request = None
         | Some read \<Rightarrow> ReadBody libs (rq_content_type rq) read (rq_idempotency_key rq) = Inr (request, [])"
  using assms by (auto simp: idem_admit_def Let_def split: if_splits option.splits sum.splits prod.splits)

lemma idem_admit_clock:
  "idem_admit libs rand_hex now rq = Inr (header, session, request) \<Longrightarrow>
   \<exists>header'. idem_admit libs rand_hex' now' rq = Inr (header', session, request) \<and>
     hd_idempotency_key header' = hd_idempotency_key header"
  by (auto simp: idem_admit_def ValidateHeaderIdem_def Let_def
      split: if_splits option.splits sum.splits prod.splits)

lemma idem_admit_code: "idem_admit libs rand_hex now rq = Inl resp \<Longrightarrow> resp_code resp \<in> {400, 500}"
  by (auto simp: idem_admit_def Let_def split: if_splits option.splits sum.splits prod.splits)

text \<open>
  C3. A request is only handed to the next handler after its key has been claimed, with one exception. With a
  live Redis client, whatever \<open>GET\<close> and \<open>SET\<close> answer: if \<open>VerifIdemKey\<close> calls the next handler, then \<open>GET\<close> said that
  the key is missing and exactly a \<open>GET\<close> and a successful \<open>SET\<close> of that key were sent before, with the session
  window (clamped) as time-to-live; or \<open>GET\<close> answered the empty value (or no value and no error), and
  nothing was stored. Either way the key of a JSON body is the MD5 of the minified body.
\<close>

theorem idem_next_claims_key:
  assumes "VerifIdemKey g ev libs reply get_reply marshal set_reply rand_hex now rq st = (Returned CallNext, st')"
    and "redis_opts st = Some ro" and "pool_client st = Some c"
  shows "((\<exists>e session json. get_reply = Some (Inl e) \<and> contains e ''redis: nil'' \<and> set_reply = None \<and>
        session_seconds (rq_session rq) = Some session \<and>
        redis_sent st' = redis_sent st @ [GetKey c (rq_idempotency_key rq),
          SetKey c (rq_idempotency_key rq) json (clamp_store_ttl ev (dur_mul Second session))]) \<or>
      (get_reply = Some (Inr []) \<or> get_reply = None) \<and>
        redis_sent st' = redis_sent st @ [GetKey c (rq_idempotency_key rq)]) \<and>
    (rq_content_type rq = ''application/json'' \<longrightarrow> rq_body rq = None \<or>
       (\<exists>body minified. rq_body rq = Some (Inr body) \<and> JsonMinify body = Inr minified \<and>
          rq_idempotency_key rq = lib_md5 libs minified))"
proof -
  obtain header session request where ad: "idem_admit libs rand_hex now rq = Inr (header, session, request)"
    using assms(1) by (auto simp: VerifIdemKey_def split: sum.splits)
  note a = idem_admit_Inr [OF ad]
  let ?st1 = "send_cmd (GetKey c (rq_idempotency_key rq)) st"
  have l: "idem_lookup g ev libs reply get_reply marshal set_reply header session request st = (Returned CallNext, st')"
    using assms(1) by (simp add: VerifIdemKey_def ad)
  have body: "rq_content_type rq = ''application/json'' \<longrightarrow> rq_body rq = None \<or>
       (\<exists>body minified. rq_body rq = Some (Inr body) \<and> JsonMinify body = Inr minified \<and>
          rq_idempotency_key rq = lib_md5 libs minified)"
    using a(3) by (cases "rq_body rq") (auto dest!: ReadBody_accepts)
  consider e where "get_reply = Some (Inl e)" | v where "get_reply = Some (Inr v)" | "get_reply = None"
    by (metis not_Some_eq sum.exhaust)
  then show ?thesis
  proof cases
    case 1
    with l have e: "contains e ''redis: nil''"
        "idem_store g ev reply marshal set_reply header request session ?st1 = (Returned CallNext, st')"
      by (auto simp: idem_lookup_def GetRedis_alive [OF assms(2,3)] a(2) split: if_splits)
    from idem_store_keeps [OF e(2), of ro c] assms(2,3) a(1,2) 1 e(1) body show ?thesis by auto
  next
    case 2
    with l body show ?thesis
      by (auto simp: idem_lookup_def GetRedis_alive [OF assms(2,3)] a(2) split: if_splits sum.splits)
  next
    case 3
    with l body show ?thesis by (auto simp: idem_lookup_def GetRedis_alive [OF assms(2,3)] a(2))
  qed
qed

text \<open>A small instance: JSON is its own text, the digest of any text is its reversal.\<close>

definition demo_libs :: "string idem_libs" where
  "demo_libs = \<lparr>lib_gov = \<lambda>_. [], lib_unmarshal = \<lambda>_ s. Inr (Some s), lib_bind_form = Inl ''no form'',
     lib_json_marshal = \<lambda>_. Inl ''no form'', lib_md5 = rev, lib_empty_map = ''{}''\<rparr>"

definition demo_marshal :: "string idem_value \<Rightarrow> err + string" where
  "demo_marshal v = (case v of StoredHeaders h \<Rightarrow> Inr ''headers'' | StoredBody j \<Rightarrow> if j = [] then Inl ''empty'' else Inr j)"

definition demo_idem_request :: idem_request where
  "demo_idem_request = \<lparr>rq_request_id = ''r1'', rq_idempotency_key = ''}{'', rq_session = ''60'',
     rq_content_type = ''application/json'', rq_body = Some (Inr ''{}'')\<rparr>"

lemmas demo_json = JsonMinify_def json_compact_def step_begin_value_def json_space_def push_state_def
  max_nesting_def step_end_value_def pop_state_def step_end_top_def

lemma demo_admit: "\<exists>header. idem_admit demo_libs None 0 demo_idem_request = Inr (header, 60, Some ''{}'') \<and>
    hd_idempotency_key header = ''}{''"
  by (simp add: idem_admit_def demo_libs_def demo_idem_request_def ValidateHeaderIdem_def ReadBody_def
      VerifyMD5_def session_seconds_def atoi_def unsigned_digits_def is_digit_def digit_val_def in_i64_def
      demo_json)

definition demo_service :: globals where
  "demo_service = \<lparr>glob_app_name = ''svc'', glob_app_env = ''dev''\<rparr>"

lemma demo_first_request:
  "\<exists>st'. VerifIdemKey demo_service (\<lambda>_. []) demo_libs (9, None) (Some (Inl ''redis: nil'')) demo_marshal None
      None 0 demo_idem_request alive_redis_state = (Returned CallNext, st') \<and>
    redis_sent st' = [GetKey 1 ''}{'', SetKey 1 ''}{'' ''{}'' (clamp_store_ttl (\<lambda>_. []) (dur_mul Second 60))]"
proof -
  obtain header where h: "idem_admit demo_libs None 0 demo_idem_request = Inr (header, 60, Some ''{}'')"
      "hd_idempotency_key header = ''}{''" using demo_admit by blast
  have al: "redis_opts alive_redis_state = Some blank_redis_options" "pool_client alive_redis_state = Some 1"
      "redis_sent alive_redis_state = []"
    by (simp_all add: alive_redis_state_def initial_redis_state_def)
  have "contains ''redis: nil'' ''redis: nil''" by simp
  then show ?thesis
    using h al by (simp add: VerifIdemKey_def idem_lookup_def GetRedis_alive [OF al(1,2)] idem_store_def
        StoreRedis_alive [where marshal = demo_marshal and json = "''{}''"] demo_marshal_def)
qed

theorem idem_next_claims_key_witness:
  "\<exists>st'. VerifIdemKey demo_service (\<lambda>_. []) demo_libs (9, None) (Some (Inl ''redis: nil'')) demo_marshal None None 0
      demo_idem_request alive_redis_state = (Returned CallNext, st') \<and> length (redis_sent st') = 2"
proof -
  have al: "redis_opts alive_redis_state = Some blank_redis_options" "pool_client alive_redis_state = Some 1"
      "redis_sent alive_redis_state = []"
    by (simp_all add: alive_redis_state_def initial_redis_state_def)
  obtain st' where st': "VerifIdemKey demo_service (\<lambda>_. []) demo_libs (9, None) (Some (Inl ''redis: nil''))
      demo_marshal None None 0 demo_idem_request alive_redis_state = (Returned CallNext, st')"
    using demo_first_request by blast
  from idem_next_claims_key [OF st' al(1,2)] al(3) show ?thesis using st' by auto
qed

text \<open>
  A duplicate never reaches the next handler: with a live client, a key that has a value stops the
  request (202 with the stored request, 400 or 500), and no \<open>SET\<close> is sent.
\<close>

theorem idem_duplicate_stops:
  assumes "redis_opts st = Some ro" and "pool_client st = Some c" and "v \<noteq> []"
  shows "\<exists>resp st'. VerifIdemKey g ev libs reply (Some (Inr v)) marshal set_reply rand_hex now rq st =
      (Returned (Answer resp), st') \<and> resp_code resp \<in> {202, 400, 500} \<and>
    (redis_sent st' = redis_sent st \<or> redis_sent st' = redis_sent st @ [GetKey c (rq_idempotency_key rq)]) \<and>
    (resp_code resp = 202 \<longrightarrow> redis_sent st' \<noteq> redis_sent st)"
proof (cases "idem_admit libs rand_hex now rq")
  case (Inl resp)
  then have "resp_code resp \<in> {400, 500}" by (rule idem_admit_code)
  with Inl show ?thesis by (auto simp: VerifIdemKey_def)
next
  case (Inr a)
  then obtain header session request where ad: "idem_admit libs rand_hex now rq = Inr (header, session, request)"
    by (metis prod.exhaust)
  with assms idem_admit_Inr(2) [OF ad] show ?thesis
    by (cases "lib_unmarshal libs request v")
      (simp_all add: VerifIdemKey_def idem_lookup_def GetRedis_alive [OF assms(1,2)])
qed

theorem idem_duplicate_stops_witness:
  "\<exists>resp st'. VerifIdemKey \<lparr>glob_app_name = ''svc'', glob_app_env = ''dev''\<rparr> (\<lambda>_. []) demo_libs (9, None)
      (Some (Inr ''{}'')) demo_marshal None None 0 demo_idem_request alive_redis_state =
      (Returned (Answer resp), st') \<and> resp_code resp \<in> {202, 400, 500}"
  using idem_duplicate_stops [of alive_redis_state blank_redis_options 1 "''{}''"
      "\<lparr>glob_app_name = ''svc'', glob_app_env = ''dev''\<rparr>" "\<lambda>_. []" demo_libs "(9, None)" demo_marshal None None 0
      demo_idem_request]
  by (auto simp: alive_redis_state_def)

text \<open>
  The window of the \<open>Session\<close> header is not bounded: from 9223372037 to 18446744073 seconds the
  duration overflows to a negative one, the store clamps it to 0, and the claimed key never expires:
  every later request with that key is a duplicate for ever.
\<close>

theorem idem_session_overflow:
  assumes "session_seconds (rq_session rq) = Some session" and "9223372037 \<le> session" and "session \<le> 18446744073"
    and "VerifIdemKey g ev libs reply (Some (Inl e)) marshal set_reply rand_hex now rq st = (Returned CallNext, st')"
    and "redis_opts st = Some ro" and "pool_client st = Some c"
  shows "\<exists>json. redis_sent st' = redis_sent st @ [GetKey c (rq_idempotency_key rq),
    SetKey c (rq_idempotency_key rq) json 0]"
proof -
  obtain header request sess where ad: "idem_admit libs rand_hex now rq = Inr (header, sess, request)"
    using assms(4) by (auto simp: VerifIdemKey_def split: sum.splits)
  note a = idem_admit_Inr [OF ad]
  with assms(1) have [simp]: "sess = session" by simp
  let ?st1 = "send_cmd (GetKey c (rq_idempotency_key rq)) st"
  have "idem_store g ev reply marshal set_reply header request session ?st1 = (Returned CallNext, st')"
    using assms(4) by (auto simp: VerifIdemKey_def ad idem_lookup_def GetRedis_alive [OF assms(5,6)] a(2)
        split: if_splits)
  from idem_store_keeps [OF this, of ro c] assms(5,6) a(2) obtain json where
    s: "redis_sent st' = redis_sent st @ [GetKey c (rq_idempotency_key rq),
      SetKey c (rq_idempotency_key rq) json (clamp_store_ttl ev (dur_mul Second session))]" by auto
  have "(Second * session + 2 ^ 63) mod 2 ^ 64 = (Second * session - 2 ^ 63 + 2 ^ 64) mod 2 ^ 64"
    by (simp add: add.commute)
  also have "\<dots> = (Second * session - 2 ^ 63) mod 2 ^ 64" by (rule mod_add_self2)
  also have "\<dots> = Second * session - 2 ^ 63" by (rule mod_pos_pos_trivial) (use assms in simp_all)
  finally have "dur_mul Second session = Second * session - 2 ^ 64"
    by (simp add: dur_mul_def wrap64_def)
  with assms(3) have "clamp_store_ttl ev (dur_mul Second session) = 0" by (simp add: clamp_store_ttl_def)
  with s show ?thesis by auto
qed

theorem idem_session_overflow_witness:
  "\<exists>st' json. VerifIdemKey \<lparr>glob_app_name = ''svc'', glob_app_env = ''dev''\<rparr> (\<lambda>_. []) demo_libs (9, None)
      (Some (Inl ''redis: nil'')) demo_marshal None None 0 (demo_idem_request\<lparr>rq_session := ''9999999999''\<rparr>)
      alive_redis_state = (Returned CallNext, st') \<and>
    redis_sent st' = [GetKey 1 ''}{'', SetKey 1 ''}{'' json 0]"
proof -
  let ?rq = "demo_idem_request\<lparr>rq_session := ''9999999999''\<rparr>"
  have s: "session_seconds (rq_session ?rq) = Some 9999999999"
    by (simp add: session_seconds_def atoi_def unsigned_digits_def is_digit_def digit_val_def in_i64_def)
  have "\<exists>header. idem_admit demo_libs None 0 ?rq = Inr (header, 9999999999, Some ''{}'') \<and>
      hd_idempotency_key header = ''}{''"
    using s by (simp add: idem_admit_def demo_libs_def demo_idem_request_def ValidateHeaderIdem_def ReadBody_def
      VerifyMD5_def demo_json)
  then obtain header where h: "idem_admit demo_libs None 0 ?rq = Inr (header, 9999999999, Some ''{}'')"
      "hd_idempotency_key header = ''}{''" by blast
  have al: "redis_opts alive_redis_state = Some blank_redis_options" "pool_client alive_redis_state = Some 1"
      "redis_sent alive_redis_state = []"
    by (simp_all add: alive_redis_state_def initial_redis_state_def)
  have "contains ''redis: nil'' ''redis: nil''" by simp
  then obtain st' where st': "VerifIdemKey \<lparr>glob_app_name = ''svc'', glob_app_env = ''dev''\<rparr> (\<lambda>_. []) demo_libs (9, None)
      (Some (Inl ''redis: nil'')) demo_marshal None None 0 ?rq alive_redis_state = (Returned CallNext, st')"
    using h(1) al by (simp add: VerifIdemKey_def idem_lookup_def GetRedis_alive [OF al(1,2)] idem_store_def
        StoreRedis_alive [where marshal = demo_marshal and json = "''{}''"] demo_marshal_def)
  from idem_session_overflow [OF s _ _ st' al(1,2)] al(3) show ?thesis
    using st' by (simp add: demo_idem_request_def)
qed

text \<open>
  Only two content types get through: for a request with a body whose \<open>Content-Type\<close> is not exactly
  \<open>application/json\<close> and does not mention \<open>multipart/form-data\<close> (\<open>application/json; charset=utf-8\<close>, or no
  content type at all) the middleware answers 500 when headers are valid, and never calls the next
  handler or Redis.
\<close>

theorem idem_other_content_types_fail:
  assumes "rq_content_type rq \<noteq> ''application/json''"
    and "\<not> contains (rq_content_type rq) ''multipart/form-data''" and "rq_body rq = Some read"
  shows "\<exists>resp. VerifIdemKey g ev libs reply get_reply marshal set_reply rand_hex now rq st =
      (Returned (Answer resp), st) \<and>
    resp_code resp = (if resp_internal_code resp \<noteq> [] then 400 else 500)"
proof -
  obtain e where "ReadBody libs (rq_content_type rq) read (rq_idempotency_key rq) = Inl e"
    using ReadBody_other_content [OF assms(1,2)] by blast
  with assms(3) show ?thesis
    by (auto simp: VerifIdemKey_def idem_admit_def Let_def BadRequest_def InternalServerError_def Out_def
        split: option.splits)
qed

theorem idem_other_content_types_fail_witness:
  "\<exists>resp. VerifIdemKey \<lparr>glob_app_name = ''svc'', glob_app_env = ''dev''\<rparr> (\<lambda>_. []) demo_libs (9, None)
      (Some (Inl ''redis: nil'')) demo_marshal None None 0
      (demo_idem_request\<lparr>rq_content_type := ''application/json; charset=utf-8''\<rparr>) alive_redis_state =
      (Returned (Answer resp), alive_redis_state)"
  using idem_other_content_types_fail [of "demo_idem_request\<lparr>rq_content_type := ''application/json; charset=utf-8''\<rparr>"]
  by (simp add: demo_idem_request_def) blast

end
