(* ===== verification/TokenChecks.thy ===== *)
theory TokenChecks
  imports Complex_Main Idempotency GoTime
begin

section \<open>csrf.go and revoke-token.go: token middlewares\<close>

text \<open>
  The CSRF middleware and the middleware that turns away revoked, expired or malformed bearer
  tokens. \<^verbatim>\<open>golang-jwt\<close> (parsing and signature check, given the key function), PEM and PKIX decoding
  and the JSON codec are parameters; a claim is a string, a number (already truncated to \<open>int\<close>) or
  something else.
\<close>

subsection \<open>csrf.go\<close>

definition VerifCsrf ::
  "globals \<Rightarrow> gov \<Rightarrow> conn_reply \<Rightarrow> (err + string) option \<Rightarrow> string option \<Rightarrow> int \<Rightarrow> string \<Rightarrow> string \<Rightarrow>
     redis_state \<Rightarrow> 'j verdict outcome \<times> redis_state" where
  "VerifCsrf g gov reply get_reply rand_hex now request_id token st =
     (let requestID = GetOrGenerateRequestID rand_hex now request_id;
          header = \<lparr>hd_idempotency_key = [], hd_session = [], hd_csrf = token, hd_request_id = requestID\<rparr>
      in if ValidateHeaderCsrf gov header \<noteq> None
         then (Returned (Answer (BadRequest ''invalid validation'' [] empty_response)), st)
         else
           (case GetRedis g reply get_reply (''csrf-'' @ hd_csrf header) st of
              (Hangs, st1) \<Rightarrow> (Hangs, st1)
            | (Panicked p, st1) \<Rightarrow> (Panicked p, st1)
            | (Returned (data, None), st1) \<Rightarrow> (Returned CallNext, st1)
            | (Returned (data, Some e), st1) \<Rightarrow>
                (if contains e ''redis: nil''
                 then (Returned (Answer (Unauthorized ''token invalid'' [] empty_response)), st1)
                 else (Returned (Answer (InternalServerError e empty_response)), st1))))"

subsection \<open>revoke-token.go\<close>

definition list_status_revoke :: "int \<Rightarrow> string option" where
  "list_status_revoke n =
     (if n = 3 then Some ''blacklist'' else if n = 4 then Some ''suspend''
      else if n = 7 then Some ''closed'' else None)"

text \<open>
  A claim that is a number is a \<open>float64\<close>, here the rational it stands for. \<open>int(x)\<close> drops the fraction; out of
  the range of 64 bits Go leaves the result to the platform, here it is the one of amd64.
\<close>

datatype claim = ClaimText string | ClaimNumber rat | ClaimOther

definition int_of_float :: "rat \<Rightarrow> int" where
  "int_of_float x = (let n = (if 0 \<le> x then \<lfloor>x\<rfloor> else \<lceil>x\<rceil>) in if in_i64 n then n else - (2 ^ 63))"

datatype signing_method = RSAMethod | OtherMethod string

record jwt_token =
  jt_valid :: bool
  jt_claims :: "(string \<Rightarrow> claim option) option"

datatype 'k public_key = RSAKey 'k | OtherKey string

text \<open>\<open>pem_decode\<close> gives the block type and its bytes, \<open>parse_pkix\<close> the key in them.\<close>

definition parse_public_key ::
  "(string \<Rightarrow> (string \<times> string) option) \<Rightarrow> (string \<Rightarrow> err + 'k public_key) \<Rightarrow> string \<Rightarrow> err + 'k" where
  "parse_public_key pem_decode parse_pkix pemBytes =
     (case pem_decode pemBytes of
        None \<Rightarrow> Inl ''ssh: no key found''
      | Some (ty, bytes) \<Rightarrow>
          (if ty = ''PUBLIC KEY'' then
             (case parse_pkix bytes of
                Inl e \<Rightarrow> Inl e
              | Inr (RSAKey k) \<Rightarrow> Inr k
              | Inr (OtherKey t) \<Rightarrow> Inl (''ssh: unsupported key type '' @ t))
           else Inl (''ssh: unsupported key type '' @ [CHR 34] @ ty @ [CHR 34])))"

definition revoke_key_func :: "env \<Rightarrow> (string \<Rightarrow> err + 'k) \<Rightarrow> signing_method \<Rightarrow> err + 'k" where
  "revoke_key_func ev parse_key alg =
     (case alg of
        RSAMethod \<Rightarrow> parse_key (ev ''APP_PUBLIC_KEY'')
      | OtherMethod _ \<Rightarrow> Inl ''invalid signing method'')"

text \<open>The checks on the claims and on the token itself: the rejection, or the merchant.\<close>

definition check_claims :: "int \<Rightarrow> (string \<Rightarrow> claim option) \<Rightarrow> 'j response_api + int" where
  "check_claims now tokenClaim =
     (let reject = (\<lambda>m. Inl (Unauthorized m [] empty_response))
      in case tokenClaim ''Expired'' of
           Some (ClaimText expiredStr) \<Rightarrow>
             (if trim_space expiredStr = [] then reject ''invalid authorization token credentials''
              else
                (case parse_datetime expiredStr of
                   None \<Rightarrow> reject ''invalid authorization token credentials''
                 | Some timeData \<Rightarrow>
                     (if now > timeData then reject ''authorization token has expired''
                      else
                        (case tokenClaim ''MerchantId'' of
                           Some (ClaimNumber merchantId) \<Rightarrow> Inr (int_of_float merchantId)
                         | _ \<Rightarrow> reject ''invalid authorization token merchant''))))
         | _ \<Rightarrow> reject ''invalid authorization token credentials'')"

definition check_bearer ::
  "env \<Rightarrow> (string \<Rightarrow> err + 'k) \<Rightarrow> ((signing_method \<Rightarrow> err + 'k) \<Rightarrow> string \<Rightarrow> err + jwt_token) \<Rightarrow> int \<Rightarrow> string \<Rightarrow>
     'j response_api + int" where
  "check_bearer ev parse_key jwt_parse now tokenStr =
     (let tokens = split_on (CHR '' '') tokenStr;
          reject = (\<lambda>m. Inl (Unauthorized m [] empty_response))
      in if length tokens \<noteq> 2 then reject ''invalid authorization token''
         else if tokens ! 0 \<noteq> ''Bearer'' then reject ''authorization token type does not match''
         else
           (case jwt_parse (revoke_key_func ev parse_key) (tokens ! 1) of
              Inl e \<Rightarrow> reject ''authorization token credentials do not match''
            | Inr token \<Rightarrow>
                (if \<not> jt_valid token then reject ''invalid authorization token credentials''
                 else
                   (case jt_claims token of
                      None \<Rightarrow> reject ''token claims is not valid''
                    | Some tokenClaim \<Rightarrow> check_claims now tokenClaim))))"

text \<open>\<open>unmarshal_status\<close> reads the \<open>status\<close> field of the stored JSON.\<close>

definition RevokeToken ::
  "globals \<Rightarrow> env \<Rightarrow> (string \<Rightarrow> err + 'k) \<Rightarrow> ((signing_method \<Rightarrow> err + 'k) \<Rightarrow> string \<Rightarrow> err + jwt_token) \<Rightarrow>
     (string \<Rightarrow> err + int) \<Rightarrow> conn_reply \<Rightarrow> (err + string) option \<Rightarrow> int \<Rightarrow> string \<Rightarrow> redis_state \<Rightarrow>
     'j verdict outcome \<times> redis_state" where
  "RevokeToken g ev parse_key jwt_parse unmarshal_status reply get_reply now authorization st =
     (case check_bearer ev parse_key jwt_parse now authorization of
        Inl response \<Rightarrow> (Returned (Answer response), st)
      | Inr merchantId \<Rightarrow>
          (case GetRedis g reply get_reply (''revoke_token_'' @ itoa merchantId) st of
             (Hangs, st1) \<Rightarrow> (Hangs, st1)
           | (Panicked p, st1) \<Rightarrow> (Panicked p, st1)
           | (Returned (data, Some e), st1) \<Rightarrow>
               (if contains e ''redis: nil'' then (Returned CallNext, st1)
                else (Returned (Answer (InternalServerError e empty_response)), st1))
           | (Returned (data, None), st1) \<Rightarrow>
               (case unmarshal_status data of
                  Inl e \<Rightarrow> (Returned (Answer (InternalServerError e empty_response)), st1)
                | Inr status \<Rightarrow>
                    (if list_status_revoke status \<noteq> None
                     then (Returned (Answer (Unauthorized ''revoke jwt token'' (itoa status)
                             empty_response)), st1)
                     else (Returned CallNext, st1)))))"

subsection \<open>What the checks guarantee\<close>

text \<open>
  The CSRF check with a live client, on every input: the next handler runs exactly when the header
  passes the validator and Redis has the key \<open>csrf-<token>\<close> (any value will do, nothing is consumed, so
  a token can be used again until it expires); otherwise the answer is 400, 401 or 500.
\<close>

theorem csrf_decision:
  assumes "redis_opts st = Some ro" and "pool_client st = Some c"
  shows "case VerifCsrf g gov reply (Some r) rand_hex now request_id token st of
      (Returned CallNext, st') \<Rightarrow> gov [(''csrf'', [''required'', ''char_libs'', ''max:50''], token)] = [] \<and>
        (\<exists>v. r = Inr v) \<and> st' = send_cmd (GetKey c (''csrf-'' @ token)) st
    | (Returned (Answer resp), st') \<Rightarrow>
        (if gov [(''csrf'', [''required'', ''char_libs'', ''max:50''], token)] \<noteq> []
         then resp_code resp = 400 \<and> st' = st
         else (\<exists>e. r = Inl e \<and> resp_code resp = (if contains e ''redis: nil'' then 401 else 500)))
    | _ \<Rightarrow> False"
  using assms
  by (cases r)
    (simp_all add: VerifCsrf_def ValidateHeaderCsrf_def Let_def GetRedis_alive)

theorem csrf_decision_witness:
  "case VerifCsrf \<lparr>glob_app_name = ''svc'', glob_app_env = ''dev''\<rparr> (\<lambda>_. []) (9, None) (Some (Inr ''1'')) None 0
      ''r'' ''tok'' alive_redis_state of
      (Returned CallNext, st') \<Rightarrow> ([] :: string) = [] \<and>
        (\<exists>v. (Inr ''1'' :: err + string) = Inr v) \<and> st' = send_cmd (GetKey 1 (''csrf-'' @ ''tok'')) alive_redis_state
    | (Returned (Answer resp), st') \<Rightarrow>
        (if ([] :: string) \<noteq> [] then resp_code resp = 400 \<and> st' = alive_redis_state
         else (\<exists>e. (Inr ''1'' :: err + string) = Inl e \<and>
           resp_code resp = (if contains e ''redis: nil'' then 401 else 500)))
    | _ \<Rightarrow> False"
  by (rule csrf_decision [where gov = "\<lambda>_. []"]) (simp_all add: alive_redis_state_def)

lemma check_claims_Inr:
  "check_claims now claims = Inr merchant \<Longrightarrow>
   \<exists>expired t x. claims ''Expired'' = Some (ClaimText expired) \<and> parse_datetime expired = Some t \<and> now \<le> t \<and>
     claims ''MerchantId'' = Some (ClaimNumber x) \<and> merchant = int_of_float x"
  by (auto simp: check_claims_def Let_def split: option.splits claim.splits if_splits)

lemma check_bearer_code: "check_bearer ev parse_key jwt_parse now auth = Inl resp \<Longrightarrow> resp_code resp = 401"
  by (auto simp: check_bearer_def check_claims_def Let_def
      split: if_splits sum.splits option.splits claim.splits)

lemma check_bearer_Inr:
  assumes "(check_bearer ev parse_key jwt_parse now auth :: 'j response_api + int) = Inr merchant"
  shows "\<exists>tok claims expired t x. split_on (CHR '' '') auth = [''Bearer'', tok] \<and>
    jwt_parse (revoke_key_func ev parse_key) tok = Inr \<lparr>jt_valid = True, jt_claims = Some claims\<rparr> \<and>
    claims ''Expired'' = Some (ClaimText expired) \<and> parse_datetime expired = Some t \<and> now \<le> t \<and>
    claims ''MerchantId'' = Some (ClaimNumber x) \<and> merchant = int_of_float x"
proof -
  let ?ts = "split_on (CHR '' '') auth"
  have "length ?ts = 2" "?ts ! 0 = ''Bearer''"
    using assms by (auto simp: check_bearer_def Let_def split: if_splits)
  then obtain tok where ts: "?ts = [''Bearer'', tok]" by (cases ?ts; cases "tl ?ts") auto
  with assms have b: "(case jwt_parse (revoke_key_func ev parse_key) tok of
      Inl e \<Rightarrow> Inl (Unauthorized ''authorization token credentials do not match'' []
                (empty_response :: 'j response_api))
    | Inr token \<Rightarrow>
        (if \<not> jt_valid token then Inl (Unauthorized ''invalid authorization token credentials'' [] empty_response)
         else
           (case jt_claims token of
              None \<Rightarrow> Inl (Unauthorized ''token claims is not valid'' [] empty_response)
            | Some claims \<Rightarrow> check_claims now claims))) = Inr merchant"
    by (simp add: check_bearer_def)
  then obtain token where tk: "jwt_parse (revoke_key_func ev parse_key) tok = Inr token"
    by (cases "jwt_parse (revoke_key_func ev parse_key) tok") simp_all
  with b have v: "jt_valid token" by (auto split: if_splits)
  with b tk obtain claims where cl: "jt_claims token = Some claims" by (cases "jt_claims token") simp_all
  have "token = \<lparr>jt_valid = True, jt_claims = Some claims\<rparr>" using v cl by (cases token) simp
  moreover have "(check_claims now claims :: 'j response_api + int) = Inr merchant" using b tk v cl by simp
  ultimately show ?thesis using ts tk check_claims_Inr by blast
qed

text \<open>
  C7. Who gets past \<open>RevokeToken\<close>, when \<^verbatim>\<open>jwt.Parse\<close> only accepts a token for whose signing method the key
  function gave a key: a bearer token with an RSA method, verified with the configured public key,
  with an \<open>Expired\<close> claim that parses and is not in the past and a numeric merchant, and that
  merchant's stored status (looked up under the number without its fraction), if there is one, is none of 3, 4
  and 7. The token of a blocked merchant is
  never let through.
\<close>

theorem revoke_token_admits:
  assumes jwt: "\<forall>kf tok t. jwt_parse kf tok = Inr t \<longrightarrow> (\<exists>k. kf (method_of tok) = Inr k)"
    and "redis_opts st = Some ro" and "pool_client st = Some c"
    and "RevokeToken g ev parse_key jwt_parse unmarshal_status reply (Some r) now auth st = (Returned (CallNext :: 'j verdict), st')"
  shows "\<exists>tok claims expired t merchant x k. split_on (CHR '' '') auth = [''Bearer'', tok] \<and>
    method_of tok = RSAMethod \<and> parse_key (ev ''APP_PUBLIC_KEY'') = Inr k \<and>
    jwt_parse (revoke_key_func ev parse_key) tok = Inr \<lparr>jt_valid = True, jt_claims = Some claims\<rparr> \<and>
    claims ''Expired'' = Some (ClaimText expired) \<and> parse_datetime expired = Some t \<and> now \<le> t \<and>
    claims ''MerchantId'' = Some (ClaimNumber x) \<and> merchant = int_of_float x \<and>
    redis_sent st' = redis_sent st @ [GetKey c (''revoke_token_'' @ itoa merchant)] \<and>
    (case r of Inl e \<Rightarrow> contains e ''redis: nil''
             | Inr v \<Rightarrow> (\<exists>status. unmarshal_status v = Inr status \<and> status \<notin> {3, 4, 7}))"
proof -
  obtain merchant where m: "(check_bearer ev parse_key jwt_parse now auth :: 'j response_api + int) = Inr merchant"
    using assms(4)
    by (cases "check_bearer ev parse_key jwt_parse now auth :: 'j response_api + int") (auto simp: RevokeToken_def)
  from check_bearer_Inr [OF m] obtain tok claims expired t x where
    tok: "split_on (CHR '' '') auth = [''Bearer'', tok]"
      "jwt_parse (revoke_key_func ev parse_key) tok = Inr \<lparr>jt_valid = True, jt_claims = Some claims\<rparr>"
      "claims ''Expired'' = Some (ClaimText expired)" "parse_datetime expired = Some t" "now \<le> t"
      "claims ''MerchantId'' = Some (ClaimNumber x)" "merchant = int_of_float x" by blast
  from jwt tok(2) obtain k where "revoke_key_func ev parse_key (method_of tok) = Inr k" by blast
  then have k: "method_of tok = RSAMethod" "parse_key (ev ''APP_PUBLIC_KEY'') = Inr k"
    by (simp_all add: revoke_key_func_def split: signing_method.splits)
  have "redis_sent st' = redis_sent st @ [GetKey c (''revoke_token_'' @ itoa merchant)] \<and>
    (case r of Inl e \<Rightarrow> contains e ''redis: nil''
             | Inr v \<Rightarrow> (\<exists>status. unmarshal_status v = Inr status \<and> status \<notin> {3, 4, 7}))"
    using assms(4) m
    by (auto simp: RevokeToken_def GetRedis_alive [OF assms(2,3)] list_status_revoke_def
        split: sum.splits if_splits)
  with tok k show ?thesis by blast
qed

definition demo_jwt :: "(signing_method \<Rightarrow> err + nat) \<Rightarrow> string \<Rightarrow> err + jwt_token" where
  "demo_jwt kf tok = (case kf RSAMethod of
     Inl e \<Rightarrow> Inl e
   | Inr k \<Rightarrow> Inr \<lparr>jt_valid = True, jt_claims = Some (\<lambda>n. if n = ''Expired'' then Some (ClaimText (format_datetime 2030 1 1 0 0 0))
       else if n = ''MerchantId'' then Some (ClaimNumber 42) else None)\<rparr>)"

theorem revoke_token_admits_witness:
  "\<exists>st' t. RevokeToken \<lparr>glob_app_name = ''svc'', glob_app_env = ''dev''\<rparr> (\<lambda>_. ''pem'') (\<lambda>_. Inr (7::nat)) demo_jwt
      (\<lambda>_. Inr 1) (9, None) (Some (Inr ''{status:1}'')) 0 ''Bearer x'' alive_redis_state =
      (Returned (CallNext :: string verdict), st') \<and> redis_sent st' = [GetKey 1 (''revoke_token_'' @ itoa 42)] \<and>
      parse_datetime (format_datetime 2030 1 1 0 0 0) = Some t \<and> 0 \<le> t"
proof -
  have al: "redis_opts alive_redis_state = Some blank_redis_options" "pool_client alive_redis_state = Some 1"
      "redis_sent alive_redis_state = []"
    by (simp_all add: alive_redis_state_def initial_redis_state_def)
  have p: "parse_datetime (format_datetime 2030 1 1 0 0 0) = Some (epoch_nanos 2030 1 1 0 0 0 0)"
    by (rule parse_format_datetime) (simp_all add: days_in_def)
  have e: "0 \<le> epoch_nanos 2030 1 1 0 0 0 0"
    by (simp add: epoch_nanos_def days_before_year_def days_before_month_def)
  have nb: "trim_space (format_datetime 2030 1 1 0 0 0) \<noteq> []" by code_simp
  have b: "check_bearer (\<lambda>_. ''pem'') (\<lambda>_. Inr (7::nat)) demo_jwt 0 ''Bearer x'' = Inr 42"
    using p e nb by (simp add: check_bearer_def check_claims_def demo_jwt_def revoke_key_func_def int_of_float_def in_i64_def)
  have ex: "\<exists>st'. RevokeToken \<lparr>glob_app_name = ''svc'', glob_app_env = ''dev''\<rparr> (\<lambda>_. ''pem'') (\<lambda>_. Inr (7::nat)) demo_jwt
      (\<lambda>_. Inr 1) (9, None) (Some (Inr ''{status:1}'')) 0 ''Bearer x'' alive_redis_state =
      (Returned (CallNext :: string verdict), st')"
    by (simp add: RevokeToken_def b GetRedis_alive [OF al(1,2)] list_status_revoke_def)
  then obtain st' where st': "RevokeToken \<lparr>glob_app_name = ''svc'', glob_app_env = ''dev''\<rparr> (\<lambda>_. ''pem'') (\<lambda>_. Inr (7::nat)) demo_jwt
      (\<lambda>_. Inr 1) (9, None) (Some (Inr ''{status:1}'')) 0 ''Bearer x'' alive_redis_state = (Returned (CallNext :: string verdict), st')" ..
  have law: "\<forall>kf tok t. demo_jwt kf tok = Inr t \<longrightarrow> (\<exists>k. kf ((\<lambda>_. RSAMethod) tok) = Inr k)"
    by (auto simp: demo_jwt_def split: sum.splits)
  from revoke_token_admits [where method_of = "\<lambda>_. RSAMethod" and jwt_parse = demo_jwt
      and g = "\<lparr>glob_app_name = ''svc'', glob_app_env = ''dev''\<rparr>" and ev = "\<lambda>_. ''pem''"
      and parse_key = "\<lambda>_. Inr (7::nat)" and unmarshal_status = "\<lambda>_. Inr 1" and reply = "(9, None)"
      and r = "Inr ''{status:1}''" and now = 0 and auth = "''Bearer x''", OF law al(1,2) st'] obtain tok claims merchant x where
    "split_on (CHR '' '') ''Bearer x'' = [''Bearer'', tok]"
    "demo_jwt (revoke_key_func (\<lambda>_. ''pem'') (\<lambda>_. Inr (7::nat))) tok = Inr \<lparr>jt_valid = True, jt_claims = Some claims\<rparr>"
    "claims ''MerchantId'' = Some (ClaimNumber x)" "merchant = int_of_float x"
    "redis_sent st' = redis_sent alive_redis_state @ [GetKey 1 (''revoke_token_'' @ itoa merchant)]"
    by blast
  then have "redis_sent st' = [GetKey 1 (''revoke_token_'' @ itoa 42)]"
    using al(3) by (auto simp: demo_jwt_def revoke_key_func_def int_of_float_def in_i64_def)
  with st' p e show ?thesis by blast
qed

end
