(* ===== verification/MiddlewareLog.thy ===== *)
theory MiddlewareLog
  imports TokenChecks LogForward
begin

section \<open>The log lines of the middlewares\<close>

text \<open>
  The three handlers once more, with the log calls they make on each branch, in order. A handler returns
  its verdict and the Redis state, which are those of the models without lines, and the list of its
  calls; \<open>perform\<close> carries them out on a logger. The constructors of \<open>ResponseApi\<close> for refusals log too.
  The line that the key function of \<open>RevokeToken\<close> writes when \<^verbatim>\<open>jwt.Parse\<close> calls it is not part of the
  lists, nor are the lines of \<^verbatim>\<open>redis.go\<close>, which are in \<open>RedisLog\<close>.
\<close>

subsection \<open>Log calls\<close>

text \<open>\<open>LoggerErrorHub\<close> of \<^verbatim>\<open>response.go\<close>, for an error or a text and at most one further value that matters.\<close>

definition LoggerErrorHub :: "goarg \<Rightarrow> goarg list \<Rightarrow> int \<Rightarrow> logger \<Rightarrow> logger" where
  "LoggerErrorHub e args now st =
     (let head = sprintf ''%s ERR : %v'' [AStr (build_log_prefix ''LoggerErrorHub''), e];
          logData = (if args \<noteq> [] then head @ sprintf '' %v '' [hd args] else head)
      in LogE ''%s'' [AStr logData] now st)"

lemma LoggerErrorHub_line:
  "lg_events (LoggerErrorHub e [] now st) =
    lg_events st @ line_events ''error''
      (sprintf ''%s ERR : %v'' [AStr (build_log_prefix ''LoggerErrorHub''), e]) st"
  by (simp add: LoggerErrorHub_def LogE_def directive_def)

datatype log_call =
    LineD string "goarg list"
  | LineI string "goarg list"
  | LineW string "goarg list"
  | LineE string "goarg list"
  | Hub goarg

fun perform :: "int \<Rightarrow> log_call \<Rightarrow> logger \<Rightarrow> logger" where
  "perform now (LineD f args) lg = LogD f args now lg"
| "perform now (LineI f args) lg = LogI f args now lg"
| "perform now (LineW f args) lg = LogW f args now lg"
| "perform now (LineE f args) lg = LogE f args now lg"
| "perform now (Hub e) lg = LoggerErrorHub e [] now lg"

fun is_error_line :: "log_event \<Rightarrow> bool" where
  "is_error_line (GologLine level text) = (level = ''error'')"
| "is_error_line _ = False"

fun is_error_call :: "log_call \<Rightarrow> bool" where
  "is_error_call (LineE f args) = True"
| "is_error_call (Hub e) = True"
| "is_error_call _ = False"

definition error_lines :: "logger \<Rightarrow> nat" where
  "error_lines lg = length (filter is_error_line (lg_events lg))"

lemma no_error_in_hooks [simp]: "filter is_error_line (map (\<lambda>h. HookCall h level text) hs) = []"
  by (induction hs) simp_all

lemma error_lines_add: "error_lines (add_events (line_events level text lg') lg) =
    error_lines lg + (if level = ''error'' then 1 else 0)"
  by (simp add: error_lines_def line_events_def)

lemma error_lines_sampler [simp]: "error_lines (lg\<lparr>lg_sampler := s\<rparr>) = error_lines lg"
  by (simp add: error_lines_def)

lemma sampled_no_error:
  assumes "\<And>f args lg. error_lines (emit f args lg) = error_lines lg"
  shows "error_lines (log_sampled key emit f args now lg) = error_lines lg"
  by (simp add: log_sampled_def with_suppressed_def assms Let_def split: prod.split)

lemma perform_errors: "error_lines (perform now c lg) = error_lines lg + (if is_error_call c then 1 else 0)"
  by (cases c)
    (simp_all add: LogD_def LogI_def LogW_def LogE_def LoggerErrorHub_def sampled_no_error error_lines_add
      del: sprintf.simps)

lemma fold_perform_errors:
  "error_lines (fold (perform now) calls lg) = error_lines lg + length (filter is_error_call calls)"
  by (induction calls arbitrary: lg) (simp_all add: perform_errors)

text \<open>A refusal with its log call: \<open>InternalServerError\<close>, \<open>BadRequest\<close> and \<open>Unauthorized\<close> call \<open>LoggerErrorHub\<close>.\<close>

definition refuse_500 :: "err \<Rightarrow> 'j verdict outcome \<times> log_call list" where
  "refuse_500 e = (Returned (Answer (InternalServerError e empty_response)), [Hub (AErr e)])"

definition refuse_400 :: "string \<Rightarrow> string \<Rightarrow> 'j verdict outcome \<times> log_call list" where
  "refuse_400 m c = (Returned (Answer (BadRequest m c empty_response)), [Hub (AStr m)])"

definition refuse_401 :: "string \<Rightarrow> string \<Rightarrow> 'j verdict outcome \<times> log_call list" where
  "refuse_401 m c = (Returned (Answer (Unauthorized m c empty_response)), [Hub (AStr m)])"

text \<open>Calls made before those of a result.\<close>

definition after_lines :: "log_call list \<Rightarrow> 'a \<times> log_call list \<Rightarrow> 'a \<times> log_call list" where
  "after_lines calls r = (fst r, calls @ snd r)"

definition with_state :: "'a \<times> log_call list \<Rightarrow> 's \<Rightarrow> ('a \<times> 's) \<times> log_call list" where
  "with_state r st = ((fst r, st), snd r)"

lemmas writer_defs = refuse_500_def refuse_400_def refuse_401_def after_lines_def with_state_def

subsection \<open>csrf.go\<close>

text \<open>\<open>encode\<close> is \<open>JSONEncode\<close> of the validator's problems.\<close>

definition logged_VerifCsrf ::
  "globals \<Rightarrow> gov \<Rightarrow> (string \<Rightarrow> string) \<Rightarrow> conn_reply \<Rightarrow> (err + string) option \<Rightarrow> string option \<Rightarrow> int \<Rightarrow>
     string \<Rightarrow> string \<Rightarrow> redis_state \<Rightarrow> ('j verdict outcome \<times> redis_state) \<times> log_call list" where
  "logged_VerifCsrf g gov encode reply get_reply rand_hex now request_id token st =
     (let requestID = GetOrGenerateRequestID rand_hex now request_id;
          header = \<lparr>hd_idempotency_key = [], hd_session = [], hd_csrf = token, hd_request_id = requestID\<rparr>;
          prefix = AStr (build_log_prefix ''VerifCsrf'')
      in case ValidateHeaderCsrf gov header of
           Some problems \<Rightarrow>
             with_state (after_lines
               [Hub (AStr ''invalid validation''),
                LineI ''%s [%s] validation failed validation=%s'' [prefix, AStr requestID, AStr (encode problems)]]
               (refuse_400 ''invalid validation'' [])) st
         | None \<Rightarrow>
           (case GetRedis g reply get_reply (''csrf-'' @ hd_csrf header) st of
              (Hangs, st1) \<Rightarrow> ((Hangs, st1), [])
            | (Panicked p, st1) \<Rightarrow> ((Panicked p, st1), [])
            | (Returned (data, None), st1) \<Rightarrow>
                ((Returned CallNext, st1),
                 [LineD ''%s [%s] token validated token=%s'' [prefix, AStr requestID, AStr token]])
            | (Returned (data, Some e), st1) \<Rightarrow>
                (if contains e ''redis: nil''
                 then with_state (after_lines
                   [Hub (AStr ''token csrf not found''),
                    LineI ''%s [%s] token not found token=%s'' [prefix, AStr requestID, AStr token]]
                   (refuse_401 ''token invalid'' [])) st1
                 else with_state (after_lines
                   [Hub (AErr e),
                    LineE ''%s [%s] redis error token=%s err=%v'' [prefix, AStr requestID, AStr token, AErr e]]
                   (refuse_500 e)) st1)))"

lemma logged_VerifCsrf_erase:
  "fst (logged_VerifCsrf g gov encode reply get_reply rand_hex now request_id token st) =
    VerifCsrf g gov reply get_reply rand_hex now request_id token st"
  by (simp add: logged_VerifCsrf_def VerifCsrf_def writer_defs Let_def
      split: option.split prod.split outcome.split)

subsection \<open>revoke-token.go\<close>

text \<open>\<open>logVerifyTokenErr\<close>, for a request with the address \<open>uri\<close>.\<close>

definition log_verify_token_err :: "string \<Rightarrow> string \<Rightarrow> string \<Rightarrow> log_call" where
  "log_verify_token_err uri requestID info =
     LineE ''%s [%s] uri=%s info=%s''
       [AStr (build_log_prefix ''logVerifyTokenErr''), AStr requestID, AStr uri, AStr info]"

text \<open>A rejection of the bearer token: what is logged about it, and the message of the answer.\<close>

definition logged_claims :: "int \<Rightarrow> (string \<Rightarrow> claim option) \<Rightarrow> (string \<times> string) + int" where
  "logged_claims now tokenClaim =
     (case tokenClaim ''Expired'' of
        None \<Rightarrow> Inl (''error : token missing Expired claim'', ''invalid authorization token credentials'')
      | Some (ClaimText expiredStr) \<Rightarrow>
          (if trim_space expiredStr = []
           then Inl (''error : invalid Expired claim type or value'', ''invalid authorization token credentials'')
           else
             (case parse_datetime expiredStr of
                None \<Rightarrow> Inl (''error : invalid Expired claim format'', ''invalid authorization token credentials'')
              | Some timeData \<Rightarrow>
                  (if now > timeData
                   then Inl (''error : authorization token has expired'', ''authorization token has expired'')
                   else
                     (case tokenClaim ''MerchantId'' of
                        Some (ClaimNumber merchantId) \<Rightarrow> Inr (int_of_float merchantId)
                      | _ \<Rightarrow> Inl (''error : invalid authorization token merchant'',
                                  ''invalid authorization token merchant'')))))
      | Some _ \<Rightarrow> Inl (''error : invalid Expired claim type or value'', ''invalid authorization token credentials''))"

definition logged_bearer ::
  "env \<Rightarrow> (string \<Rightarrow> err + 'k) \<Rightarrow> ((signing_method \<Rightarrow> err + 'k) \<Rightarrow> string \<Rightarrow> err + jwt_token) \<Rightarrow> int \<Rightarrow> string \<Rightarrow>
     (string \<times> string) + int" where
  "logged_bearer ev parse_key jwt_parse now tokenStr =
     (let tokens = split_on (CHR '' '') tokenStr
      in if length tokens \<noteq> 2
         then Inl (''error : invalid authorization token'', ''invalid authorization token'')
         else if tokens ! 0 \<noteq> ''Bearer''
         then Inl (''error : authorization token type does not match'', ''authorization token type does not match'')
         else
           (case jwt_parse (revoke_key_func ev parse_key) (tokens ! 1) of
              Inl e \<Rightarrow> Inl (''error : authorization token credentials do not match'',
                           ''authorization token credentials do not match'')
            | Inr token \<Rightarrow>
                (if \<not> jt_valid token
                 then Inl (''error : invalid authorization token credentials'', ''invalid authorization token credentials'')
                 else
                   (case jt_claims token of
                      None \<Rightarrow> Inl (''error : token claims is not valid'', ''token claims is not valid'')
                    | Some tokenClaim \<Rightarrow> logged_claims now tokenClaim))))"

lemma logged_claims_erase:
  "check_claims now c = (case logged_claims now c of
      Inl (info, m) \<Rightarrow> Inl (Unauthorized m [] empty_response) | Inr merchantId \<Rightarrow> Inr merchantId)"
  by (auto simp: check_claims_def logged_claims_def Let_def split: option.split claim.split)

lemma logged_bearer_erase:
  "check_bearer ev parse_key jwt_parse now tokenStr =
     (case logged_bearer ev parse_key jwt_parse now tokenStr of
        Inl (info, m) \<Rightarrow> Inl (Unauthorized m [] empty_response) | Inr merchantId \<Rightarrow> Inr merchantId)"
  by (simp add: check_bearer_def logged_bearer_def logged_claims_erase Let_def split: sum.split option.split)

definition logged_RevokeToken ::
  "globals \<Rightarrow> env \<Rightarrow> (string \<Rightarrow> err + 'k) \<Rightarrow> ((signing_method \<Rightarrow> err + 'k) \<Rightarrow> string \<Rightarrow> err + jwt_token) \<Rightarrow>
     (string \<Rightarrow> err + int) \<Rightarrow> conn_reply \<Rightarrow> (err + string) option \<Rightarrow> string option \<Rightarrow> int \<Rightarrow> string \<Rightarrow> string \<Rightarrow>
     string \<Rightarrow> redis_state \<Rightarrow> ('j verdict outcome \<times> redis_state) \<times> log_call list" where
  "logged_RevokeToken g ev parse_key jwt_parse unmarshal_status reply get_reply rand_hex now request_id uri
     authorization st =
     (let requestID = GetOrGenerateRequestID rand_hex now request_id;
          prefix = AStr (build_log_prefix ''RevokeToken'')
      in case logged_bearer ev parse_key jwt_parse now authorization of
           Inl (info, m) \<Rightarrow> with_state (after_lines [log_verify_token_err uri requestID info] (refuse_401 m [])) st
         | Inr merchantId \<Rightarrow>
             (case GetRedis g reply get_reply (''revoke_token_'' @ itoa merchantId) st of
                (Hangs, st1) \<Rightarrow> ((Hangs, st1), [])
              | (Panicked p, st1) \<Rightarrow> ((Panicked p, st1), [])
              | (Returned (data, Some e), st1) \<Rightarrow>
                  (if contains e ''redis: nil''
                   then ((Returned CallNext, st1),
                     [LineD ''%s [%s] no revoke token found merchant=%d'' [prefix, AStr requestID, AInt merchantId]])
                   else with_state (after_lines
                     [Hub (AErr e),
                      LineE ''%s [%s] redis error merchant=%d err=%v'' [prefix, AStr requestID, AInt merchantId, AErr e]]
                     (refuse_500 e)) st1)
              | (Returned (data, None), st1) \<Rightarrow>
                  (case unmarshal_status data of
                     Inl e \<Rightarrow> with_state (after_lines
                       [Hub (AErr e),
                        LineE ''%s [%s] failed to unmarshal revoke data merchant=%d err=%v''
                          [prefix, AStr requestID, AInt merchantId, AErr e]]
                       (refuse_500 e)) st1
                   | Inr status \<Rightarrow>
                       (case list_status_revoke status of
                          Some name \<Rightarrow> with_state (after_lines
                            [LineW ''%s [%s] merchant has been %s merchant=%d status=%d''
                               [prefix, AStr requestID, AStr name, AInt merchantId, AInt status]]
                            (refuse_401 ''revoke jwt token'' (itoa status))) st1
                        | None \<Rightarrow> ((Returned CallNext, st1),
                            [LineD ''%s [%s] token validated merchant=%d'' [prefix, AStr requestID, AInt merchantId]])))))"

lemma logged_RevokeToken_erase:
  "fst (logged_RevokeToken g ev parse_key jwt_parse unmarshal_status reply get_reply rand_hex now request_id uri
      authorization st) =
    RevokeToken g ev parse_key jwt_parse unmarshal_status reply get_reply now authorization st"
  by (auto simp: logged_RevokeToken_def RevokeToken_def logged_bearer_erase writer_defs Let_def
      split: sum.split option.split prod.split outcome.split)

subsection \<open>idempotency-key.go\<close>

definition logged_VerifyMD5 :: "(string \<Rightarrow> string) \<Rightarrow> string \<Rightarrow> string \<Rightarrow> (err + string) \<times> log_call list" where
  "logged_VerifyMD5 md5 idemKey request =
     (let md5Generated = md5 request;
          prefix = AStr (build_log_prefix ''VerifyMD5'');
          submitted = LineD ''%s submitted_key=%s generated_key=%s'' [prefix, AStr idemKey, AStr md5Generated]
      in if idemKey \<noteq> md5Generated
         then (Inr ''key not valid'',
           [submitted, LineW ''%s key mismatch submitted=%s expected=%s'' [prefix, AStr idemKey, AStr md5Generated]])
         else (Inr [], [submitted]))"

definition logged_ReadBody ::
  "'j idem_libs \<Rightarrow> string \<Rightarrow> err + string \<Rightarrow> string \<Rightarrow> (err + ('j option \<times> string)) \<times> log_call list" where
  "logged_ReadBody libs content read idem =
     (let decoded =
        (if content = ''application/json'' then
           (case read of
              Inl e \<Rightarrow> Inl e
            | Inr body \<Rightarrow>
                (case lib_unmarshal libs (Some (lib_empty_map libs)) body of
                   Inl e \<Rightarrow> Inl e
                 | Inr request \<Rightarrow> Inr (request, body)))
         else if contains content ''multipart/form-data'' then
           (case lib_bind_form libs of
              Inl e \<Rightarrow> Inl e
            | Inr request \<Rightarrow>
                (case lib_json_marshal libs request of
                   Inl e \<Rightarrow> Inl e
                 | Inr body \<Rightarrow> Inr (request, body)))
         else Inr (Some (lib_empty_map libs), []))
      in case decoded of
           Inl e \<Rightarrow> (Inl e, [])
         | Inr (request, body) \<Rightarrow>
             (case JsonMinify body of
                Inl e \<Rightarrow> (Inl e, [])
              | Inr jsonMinify \<Rightarrow>
                  (case logged_VerifyMD5 (lib_md5 libs) idem jsonMinify of
                     (Inl e, calls) \<Rightarrow> (Inl e, calls)
                   | (Inr status, calls) \<Rightarrow>
                       (if status \<noteq> [] then Inr (None, status) else Inr (request, []), calls))))"

lemma logged_ReadBody_erase: "fst (logged_ReadBody libs content read idem) = ReadBody libs content read idem"
  by (simp add: logged_ReadBody_def ReadBody_def logged_VerifyMD5_def VerifyMD5_def Let_def
      split: sum.split prod.split)

text \<open>The JSON of the validator's problems and the error text of \<^verbatim>\<open>strconv.Atoi\<close>, which quotes its input.\<close>

record line_texts =
  text_problems :: "string \<Rightarrow> string"
  text_atoi_error :: "string \<Rightarrow> err"

text \<open>What every line of \<open>VerifIdemKey\<close> starts with, and what it says of the request.\<close>

definition idem_args :: "string \<Rightarrow> string \<Rightarrow> string \<Rightarrow> goarg list" where
  "idem_args requestID verb path = [AStr (build_log_prefix ''VerifIdemKey''), AStr requestID, AStr verb, AStr path]"

definition logged_idem_admit ::
  "'j idem_libs \<Rightarrow> line_texts \<Rightarrow> string \<Rightarrow> string \<Rightarrow> string \<Rightarrow> idem_request \<Rightarrow>
     ('j option response_api + (headers \<times> int \<times> 'j option)) \<times> log_call list" where
  "logged_idem_admit libs tx requestID verb path rq =
     (let header0 = \<lparr>hd_idempotency_key = rq_idempotency_key rq, hd_session = rq_session rq, hd_csrf = [],
            hd_request_id = requestID\<rparr>;
          args = idem_args requestID verb path;
          key = AStr (rq_idempotency_key rq);
          session_text = (if rq_session rq = [] \<or> rq_session rq = ''0'' then ''9'' else rq_session rq)
      in case ValidateHeaderIdem (lib_gov libs) header0 of
           Some problems \<Rightarrow>
             (Inl (BadRequest ''invalid idempotency key format'' ''IDEM_INVALID_FORMAT'' empty_response),
              [LineE ''%s [%s] validation failed method=%s path=%s validation=%s'' (args @ [AStr (text_problems tx problems)]),
               Hub (AStr ''invalid idempotency key format'')])
         | None \<Rightarrow>
           (case session_seconds (rq_session rq) of
              None \<Rightarrow>
                (Inl (BadRequest ''invalid session header format'' ''IDEM_INVALID_SESSION'' empty_response),
                 [LineE ''%s [%s] invalid session header method=%s path=%s session=%s err=%v''
                    (args @ [AStr session_text, AErr (text_atoi_error tx session_text)]),
                  Hub (AStr ''invalid session header format'')])
            | Some session \<Rightarrow>
                (case (case rq_body rq of
                         None \<Rightarrow> (Inr (None, []), [])
                       | Some read \<Rightarrow> logged_ReadBody libs (rq_content_type rq) read (rq_idempotency_key rq)) of
                   (Inl e, calls) \<Rightarrow>
                     (Inl (InternalServerError e empty_response),
                      calls @ [LineE ''%s [%s] failed to read body method=%s path=%s key=%s err=%v''
                                 (args @ [key, AErr e]), Hub (AErr e)])
                 | (Inr (request, status), calls) \<Rightarrow>
                     (if status \<noteq> []
                      then (Inl (BadRequest ''idempotency key does not match request body''
                              ''IDEM_KEY_MISMATCH'' empty_response),
                            calls @ [LineE ''%s [%s] MD5 validation failed method=%s path=%s key=%s status=%s''
                                       (args @ [key, AStr status]),
                                     Hub (AStr ''idempotency key does not match request body'')])
                      else (Inr (header0\<lparr>hd_session := session_text\<rparr>, session, request), calls)))))"

definition logged_idem_store ::
  "globals \<Rightarrow> env \<Rightarrow> conn_reply \<Rightarrow> ('j idem_value \<Rightarrow> err + string) \<Rightarrow> err option \<Rightarrow> goarg list \<Rightarrow> headers \<Rightarrow>
     'j option \<Rightarrow> int \<Rightarrow> redis_state \<Rightarrow> ('j option verdict outcome \<times> redis_state) \<times> log_call list" where
  "logged_idem_store g ev reply marshal set_reply args header request session st =
     (let key = AStr (hd_idempotency_key header)
      in case request of
           None \<Rightarrow>
             (case StoreRedis g ev reply marshal set_reply (hd_idempotency_key header) (StoredHeaders header)
                 (dur_mul Second session) st of
                (Hangs, st1) \<Rightarrow> ((Hangs, st1), [])
              | (Panicked p, st1) \<Rightarrow> ((Panicked p, st1), [])
              | (Returned (Some e), st1) \<Rightarrow>
                  with_state (after_lines
                    [LineE ''%s [%s] failed to store header in redis method=%s path=%s key=%s err=%v''
                       (args @ [key, AErr e])] (refuse_500 e)) st1
              | (Returned None, st1) \<Rightarrow>
                  ((Returned CallNext, st1),
                   [LineD ''%s [%s] stored new request method=%s path=%s key=%s ttl=%ds'' (args @ [key, AInt session])]))
         | Some r \<Rightarrow>
             (case StoreRedis g ev reply marshal set_reply (hd_idempotency_key header) (StoredBody r)
                 (dur_mul Second session) st of
                (Hangs, st1) \<Rightarrow> ((Hangs, st1), [])
              | (Panicked p, st1) \<Rightarrow> ((Panicked p, st1), [])
              | (Returned (Some e), st1) \<Rightarrow>
                  with_state (after_lines
                    [LineE ''%s [%s] failed to store request in redis method=%s path=%s key=%s err=%v''
                       (args @ [key, AErr e])] (refuse_500 e)) st1
              | (Returned None, st1) \<Rightarrow>
                  ((Returned CallNext, st1),
                   [LineD ''%s [%s] stored new request method=%s path=%s key=%s ttl=%ds'' (args @ [key, AInt session])])))"

definition logged_idem_lookup ::
  "globals \<Rightarrow> env \<Rightarrow> 'j idem_libs \<Rightarrow> conn_reply \<Rightarrow> (err + string) option \<Rightarrow>
     ('j idem_value \<Rightarrow> err + string) \<Rightarrow> err option \<Rightarrow> goarg list \<Rightarrow> headers \<Rightarrow> int \<Rightarrow> 'j option \<Rightarrow> redis_state \<Rightarrow>
     ('j option verdict outcome \<times> redis_state) \<times> log_call list" where
  "logged_idem_lookup g ev libs reply get_reply marshal set_reply args header session request st =
     (let key = AStr (hd_idempotency_key header)
      in case GetRedis g reply get_reply (hd_idempotency_key header) st of
        (Hangs, st1) \<Rightarrow> ((Hangs, st1), [])
      | (Panicked p, st1) \<Rightarrow> ((Panicked p, st1), [])
      | (Returned (data, gerr), st1) \<Rightarrow>
          (if data \<noteq> [] then
             (let duplicate = LineI ''%s [%s] duplicate request detected method=%s path=%s key=%s'' (args @ [key])
              in case lib_unmarshal libs request data of
                   Inl e \<Rightarrow> with_state (after_lines
                     [duplicate, LineE ''%s [%s] failed to unmarshal cached data method=%s path=%s key=%s err=%v''
                        (args @ [key, AErr e])] (refuse_500 e)) st1
                 | Inr cached \<Rightarrow> ((Returned (Answer (Accepted cached empty_response)), st1), [duplicate]))
           else (case gerr of
                   None \<Rightarrow> ((Returned CallNext, st1), [])
                 | Some e \<Rightarrow>
                     (if contains e ''redis: nil''
                      then logged_idem_store g ev reply marshal set_reply args header request session st1
                      else with_state (after_lines
                        [LineE ''%s [%s] redis error method=%s path=%s key=%s err=%v'' (args @ [key, AErr e])]
                        (refuse_500 e)) st1))))"

definition logged_VerifIdemKey ::
  "globals \<Rightarrow> env \<Rightarrow> 'j idem_libs \<Rightarrow> line_texts \<Rightarrow> conn_reply \<Rightarrow> (err + string) option \<Rightarrow>
     ('j idem_value \<Rightarrow> err + string) \<Rightarrow> err option \<Rightarrow> string option \<Rightarrow> int \<Rightarrow> string \<Rightarrow> string \<Rightarrow> idem_request \<Rightarrow>
     redis_state \<Rightarrow> ('j option verdict outcome \<times> redis_state) \<times> log_call list" where
  "logged_VerifIdemKey g ev libs tx reply get_reply marshal set_reply rand_hex now verb path rq st =
     (let requestID = GetOrGenerateRequestID rand_hex now (rq_request_id rq)
      in case logged_idem_admit libs tx requestID verb path rq of
           (Inl response, calls) \<Rightarrow> ((Returned (Answer response), st), calls)
         | (Inr (header, session, request), calls) \<Rightarrow>
             after_lines calls (logged_idem_lookup g ev libs reply get_reply marshal set_reply
               (idem_args requestID verb path) header session request st))"

lemma logged_idem_admit_erase:
  "fst (logged_idem_admit libs tx (GetOrGenerateRequestID rand_hex now (rq_request_id rq)) verb path rq) =
    idem_admit libs rand_hex now rq"
proof (cases "session_seconds (rq_session rq)")
  case None
  then show ?thesis
    by (simp add: logged_idem_admit_def idem_admit_def Let_def split: option.split)
next
  case (Some session)
  show ?thesis
  proof (cases "rq_body rq")
    case None
    with Some show ?thesis
      by (simp add: logged_idem_admit_def idem_admit_def Let_def split: option.split)
  next
    case body: (Some read)
    obtain r calls where l: "logged_ReadBody libs (rq_content_type rq) read (rq_idempotency_key rq) = (r, calls)"
      by (cases "logged_ReadBody libs (rq_content_type rq) read (rq_idempotency_key rq)")
    then have "ReadBody libs (rq_content_type rq) read (rq_idempotency_key rq) = r"
      using logged_ReadBody_erase [of libs "rq_content_type rq" read "rq_idempotency_key rq"] by simp
    with Some body l show ?thesis
      by (cases r) (simp_all add: logged_idem_admit_def idem_admit_def Let_def split: option.split prod.split)
  qed
qed

lemma logged_idem_store_erase:
  "fst (logged_idem_store g ev reply marshal set_reply args header request session st) =
    idem_store g ev reply marshal set_reply header request session st"
  by (cases request)
    (auto simp: logged_idem_store_def idem_store_def writer_defs Let_def
      split: option.split prod.split outcome.split)

lemma logged_idem_lookup_erase:
  "fst (logged_idem_lookup g ev libs reply get_reply marshal set_reply args header session request st) =
    idem_lookup g ev libs reply get_reply marshal set_reply header session request st"
  by (auto simp: logged_idem_lookup_def idem_lookup_def logged_idem_store_erase writer_defs Let_def
      split: sum.split option.split prod.split outcome.split)

lemma logged_VerifIdemKey_erase:
  "fst (logged_VerifIdemKey g ev libs tx reply get_reply marshal set_reply rand_hex now verb path rq st) =
    VerifIdemKey g ev libs reply get_reply marshal set_reply rand_hex now rq st"
proof -
  have "idem_admit libs rand_hex now rq = fst (logged_idem_admit libs tx
      (GetOrGenerateRequestID rand_hex now (rq_request_id rq)) verb path rq)"
    by (simp add: logged_idem_admit_erase)
  then show ?thesis
    by (simp add: logged_VerifIdemKey_def VerifIdemKey_def logged_idem_lookup_erase after_lines_def Let_def
        split: sum.split prod.split)
qed

subsection \<open>Refusals and error lines\<close>

text \<open>What a middleware answers when it turns a request away.\<close>

definition refused :: "'j verdict outcome \<Rightarrow> bool" where
  "refused v \<longleftrightarrow> (\<exists>resp. v = Returned (Answer resp) \<and> resp_code resp \<in> {400, 401, 500})"

lemma refused_simps [simp]:
  "refused (Returned (Answer resp)) \<longleftrightarrow> resp_code resp \<in> {400, 401, 500}" "\<not> refused (Returned CallNext)"
  "\<not> refused Hangs" "\<not> refused (Panicked p)"
  by (simp_all add: refused_def)

text \<open>A result whose calls contain an error call exactly when it is a refusal.\<close>

definition lines_fit :: "('j verdict outcome \<times> 's) \<times> log_call list \<Rightarrow> bool" where
  "lines_fit r \<longleftrightarrow> (list_ex is_error_call (snd r) \<longleftrightarrow> refused (fst (fst r)))"

lemma accepted_code [simp]: "\<not> refused (Returned (Answer (Accepted d r)))"
  by simp

lemma lines_fit_simps [simp]:
  "lines_fit ((Hangs, st), [])" "lines_fit ((Panicked p, st), [])" "lines_fit ((Returned CallNext, st), [])"
  "lines_fit ((Returned CallNext, st), [LineD f args])"
  "lines_fit ((Returned (Answer (Accepted d r)), st), [LineI f args])"
  "lines_fit (with_state (after_lines calls (refuse_500 e)) st)"
  "lines_fit (with_state (after_lines calls (refuse_400 m c)) st)"
  "lines_fit (with_state (after_lines calls (refuse_401 m c)) st)"
  by (simp_all add: lines_fit_def writer_defs)

lemma lines_fit_after:
  "lines_fit r \<Longrightarrow> \<not> list_ex is_error_call calls \<Longrightarrow> lines_fit (after_lines calls r)"
  by (auto simp: lines_fit_def after_lines_def)

lemma csrf_lines_fit:
  "lines_fit (logged_VerifCsrf g gov encode reply get_reply rand_hex now request_id token st)"
  by (simp add: logged_VerifCsrf_def Let_def split: option.split prod.split outcome.split)

lemma revoke_lines_fit:
  "lines_fit (logged_RevokeToken g ev parse_key jwt_parse unmarshal_status reply get_reply rand_hex now request_id
     uri authorization st)"
  by (simp add: logged_RevokeToken_def Let_def split: sum.split option.split prod.split outcome.split)

lemma ReadBody_lines: "\<not> list_ex is_error_call (snd (logged_ReadBody libs content read idem))"
  by (auto simp: logged_ReadBody_def logged_VerifyMD5_def Let_def split: sum.splits prod.splits)

lemma idem_admit_lines:
  assumes "logged_idem_admit libs tx requestID verb path rq = (r, calls)"
  shows "case r of Inl resp \<Rightarrow> list_ex is_error_call calls \<and> resp_code resp \<in> {400, 500}
    | Inr _ \<Rightarrow> \<not> list_ex is_error_call calls"
proof -
  have rb: "logged_ReadBody libs ct read k = (x, cs) \<Longrightarrow> \<not> list_ex is_error_call cs" for ct read k x cs
    using ReadBody_lines [of libs ct read k] by simp
  show ?thesis
    using assms
    by (auto simp: logged_idem_admit_def Let_def dest: rb split: option.splits sum.splits prod.splits if_splits)
qed

lemma idem_store_lines_fit:
  "lines_fit (logged_idem_store g ev reply marshal set_reply args header request session st)"
  by (simp add: logged_idem_store_def Let_def split: option.split prod.split outcome.split)

lemma idem_lookup_lines_fit:
  "lines_fit (logged_idem_lookup g ev libs reply get_reply marshal set_reply args header session request st)"
  by (simp add: logged_idem_lookup_def idem_store_lines_fit Let_def
      split: sum.split option.split prod.split outcome.split)

lemma idem_lines_fit:
  "lines_fit (logged_VerifIdemKey g ev libs tx reply get_reply marshal set_reply rand_hex now verb path rq st)"
proof -
  obtain r calls where a: "logged_idem_admit libs tx (GetOrGenerateRequestID rand_hex now (rq_request_id rq))
      verb path rq = (r, calls)" by fastforce
  show ?thesis
  proof (cases r)
    case (Inl resp)
    with idem_admit_lines [OF a] show ?thesis by (auto simp: logged_VerifIdemKey_def a lines_fit_def)
  next
    case (Inr x)
    with idem_admit_lines [OF a] show ?thesis
      by (simp add: logged_VerifIdemKey_def a lines_fit_after idem_lookup_lines_fit split: prod.split)
  qed
qed

lemma fit_error_lines:
  "lines_fit r \<Longrightarrow> error_lines lg < error_lines (fold (perform t) (snd r) lg) \<longleftrightarrow> refused (fst (fst r))"
  by (simp add: lines_fit_def fold_perform_errors list_ex_iff filter_empty_conv)

text \<open>
  C25. Every refusal leaves a trace. Each of the three handlers, with its log calls, behaves as the handler
  without them; and on any logger it writes a line at error level, which no sampler holds back, exactly when
  it refuses the request (400, 401 or 500): never when the request passes, when it is answered as a
  duplicate, or when the handler hangs.
\<close>

theorem refusals_are_logged:
  "(let r = logged_VerifCsrf g gov encode reply get_reply rand_hex now request_id token st
    in fst r = VerifCsrf g gov reply get_reply rand_hex now request_id token st \<and>
      (error_lines lg < error_lines (fold (perform t) (snd r) lg) \<longleftrightarrow> refused (fst (fst r)))) \<and>
   (let r = logged_VerifIdemKey g ev libs tx reply get_reply marshal set_reply rand_hex now verb path rq st
    in fst r = VerifIdemKey g ev libs reply get_reply marshal set_reply rand_hex now rq st \<and>
      (error_lines lg < error_lines (fold (perform t) (snd r) lg) \<longleftrightarrow> refused (fst (fst r)))) \<and>
   (let r = logged_RevokeToken g ev parse_key jwt_parse unmarshal_status reply get_reply rand_hex now request_id
        uri authorization st
    in fst r = RevokeToken g ev parse_key jwt_parse unmarshal_status reply get_reply now authorization st \<and>
      (error_lines lg < error_lines (fold (perform t) (snd r) lg) \<longleftrightarrow> refused (fst (fst r))))"
  by (simp add: Let_def fit_error_lines csrf_lines_fit idem_lines_fit revoke_lines_fit
      logged_VerifCsrf_erase logged_VerifIdemKey_erase logged_RevokeToken_erase)

end
