(* ===== verification/RedisLog.thy ===== *)
theory RedisLog
  imports RedisOps MiddlewareLog GoTime
begin

section \<open>The log lines of redis.go\<close>

text \<open>
  The operations of \<^verbatim>\<open>redis.go\<close> once more, each with the log calls it makes, in order. Leaving the calls
  out gives the operations of \<open>RedisConfig\<close> and \<open>RedisOps\<close> again. \<open>texts\<close> are the two texts the server
  supplies when a client connects (what \<open>ClientGetName\<close> prints as, and the answer to \<open>PING\<close>). The two
  warnings of \<open>clampStoreTTL\<close> and the one on \<open>REDIS_DB\<close> use \<open>%q\<close>, which the model of \<open>Sprintf\<close> does not render;
  the calls carry the text to be quoted.
\<close>

definition redis_prefix :: "string \<Rightarrow> goarg" where
  "redis_prefix f = AStr (build_log_prefix f)"

definition silent :: "'a \<Rightarrow> 'a \<times> log_call list" where
  "silent r = (r, [])"

subsection \<open>Connecting\<close>

definition log_client_name :: "globals \<Rightarrow> string \<Rightarrow> log_call list" where
  "log_client_name g text =
     (if get_app_name g \<noteq> [] then [LineI ''%s client name=%v'' [redis_prefix ''initRedisClient'', AStr text]] else [])"

definition log_redsync_warning :: "err option \<Rightarrow> log_call list" where
  "log_redsync_warning r =
     (case r of None \<Rightarrow> []
      | Some e \<Rightarrow> [LineW ''%s failed to initialize redsync err=%s'' [redis_prefix ''initRedisClient'', AStr e]])"

function logged_init_redis_client ::
    "globals \<Rightarrow> conn_reply \<Rightarrow> string \<times> string \<Rightarrow> redis_options option \<Rightarrow> redis_state \<Rightarrow>
       (err option outcome \<times> redis_state) \<times> log_call list"
  and logged_GetRedisPoolClient ::
    "globals \<Rightarrow> conn_reply \<Rightarrow> string \<times> string \<Rightarrow> redis_state \<Rightarrow>
       ((err + nat option) outcome \<times> redis_state) \<times> log_call list"
  and logged_InitRedSyncOnce ::
    "globals \<Rightarrow> conn_reply \<Rightarrow> string \<times> string \<Rightarrow> redis_state \<Rightarrow>
       (err option outcome \<times> redis_state) \<times> log_call list" where
  "logged_init_redis_client g reply texts opt st =
     (case opt of
        None \<Rightarrow> silent (Returned (Some ''nil redis options''), st)
      | Some ro \<Rightarrow>
          after_lines [LineI ''%s starting redis client initialization'' [redis_prefix ''initRedisClient'']]
          (let c = fst reply; st0 = send_cmd (Ping ro) st in
           case snd reply of
             Some e \<Rightarrow>
               ((Returned (Some e), send_cmd (CloseClient c) (st0\<lparr>pool_client := None\<rparr>)),
                [Hub (AErr e), LineE ''%s open redis pool connection failed'' [redis_prefix ''initRedisClient'']])
           | None \<Rightarrow>
               (let st1 = st0\<lparr>pool_client := Some c\<rparr>;
                    st2 = (if get_app_name g \<noteq> []
                           then send_cmd (GetName c) (send_cmd (SetName c (get_app_name g)) st1)
                           else st1)
                in after_lines (log_client_name g (fst texts) @
                     [LineI ''%s open redis pool connection successful status=%s''
                        [redis_prefix ''initRedisClient'', AStr (snd texts)]])
                   (case logged_InitRedSyncOnce g reply texts st2 of
                      ((Hangs, st3), calls) \<Rightarrow> ((Hangs, st3), calls)
                    | ((Panicked p, st3), calls) \<Rightarrow> ((Panicked p, st3), calls)
                    | ((Returned r, st3), calls) \<Rightarrow> ((Returned None, st3), calls @ log_redsync_warning r)))))"
| "logged_GetRedisPoolClient g reply texts st =
     (case redis_opts st of
        None \<Rightarrow> silent (Returned (Inl ''nil redis options''), st)
      | Some ro \<Rightarrow>
          (case pool_client st of
             Some c \<Rightarrow> silent (Returned (Inr (Some c)), st)
           | None \<Rightarrow>
               (if reconnect_mu st then silent (Hangs, st)
                else case logged_init_redis_client g reply texts (Some ro) (st\<lparr>reconnect_mu := True\<rparr>) of
                       ((Hangs, st1), calls) \<Rightarrow> ((Hangs, st1), calls)
                     | ((Panicked p, st1), calls) \<Rightarrow> ((Panicked p, st1\<lparr>reconnect_mu := False\<rparr>), calls)
                     | ((Returned (Some e), st1), calls) \<Rightarrow>
                         ((Returned (Inl e), st1\<lparr>reconnect_mu := False\<rparr>), calls)
                     | ((Returned None, st1), calls) \<Rightarrow>
                         ((Returned (Inr (pool_client st1)), st1\<lparr>reconnect_mu := False\<rparr>), calls))))"
| "logged_InitRedSyncOnce g reply texts st =
     (case red_sync_once st of
        OnceDone \<Rightarrow> silent (Returned (red_sync_err st), st)
      | OnceRunning \<Rightarrow> silent (Hangs, st)
      | OnceNew \<Rightarrow>
          (case logged_GetRedisPoolClient g reply texts (st\<lparr>red_sync_once := OnceRunning\<rparr>) of
             ((Hangs, st1), calls) \<Rightarrow> ((Hangs, st1), calls)
           | ((Panicked p, st1), calls) \<Rightarrow> ((Panicked p, st1\<lparr>red_sync_once := OnceDone\<rparr>), calls)
           | ((Returned (Inl e), st1), calls) \<Rightarrow>
               ((Returned (Some e), st1\<lparr>red_sync_once := OnceDone, red_sync_err := Some e\<rparr>),
                calls @ [LineE ''%s failed to initialize redsync err=%s'' [redis_prefix ''InitRedSyncOnce'', AStr e]])
           | ((Returned (Inr c), st1), calls) \<Rightarrow>
               ((Returned None, st1\<lparr>red_sync_once := OnceDone, red_sync_err := None, red_sync := c\<rparr>),
                calls @ [LineI ''%s redsync initialized successfully'' [redis_prefix ''InitRedSyncOnce'']])))"
  by pat_completeness auto

termination
  by (relation "measure (case_sum (\<lambda>(g, r, x, opt, st). once_weight st + 1)
        (case_sum (\<lambda>(g, r, x, st). once_weight st + 2) (\<lambda>(g, r, x, st). once_weight st)))")
    (auto simp: once_weight_def send_cmd_def)

declare logged_init_redis_client.simps [simp del] logged_GetRedisPoolClient.simps [simp del]
  logged_InitRedSyncOnce.simps [simp del]

lemma fst_silent [simp]: "fst (silent r) = r" and snd_silent [simp]: "snd (silent r) = []"
  by (simp_all add: silent_def)

lemma after_lines_simps [simp]: "fst (after_lines calls r) = fst r" "snd (after_lines calls r) = calls @ snd r"
  by (simp_all add: after_lines_def)

lemma connecting_erase:
  "fst (logged_init_redis_client g reply texts opt st) = init_redis_client g reply opt st"
  "fst (logged_GetRedisPoolClient g reply texts st) = GetRedisPoolClient g reply st"
  "fst (logged_InitRedSyncOnce g reply texts st) = InitRedSyncOnce g reply st"
proof (induction g reply texts opt st and g reply texts st and g reply texts st
    rule: logged_init_redis_client_logged_GetRedisPoolClient_logged_InitRedSyncOnce.induct)
  case (1 g reply texts opt st)
  show ?case
  proof (cases "opt = None \<or> snd reply \<noteq> None")
    case True
    then show ?thesis
      unfolding logged_init_redis_client.simps [of g reply texts opt st] init_redis_client.simps [of g reply opt st]
      by (auto simp: Let_def split: option.splits)
  next
    case False
    with 1 [OF _ refl refl _ refl refl] show ?thesis
      unfolding logged_init_redis_client.simps [of g reply texts opt st] init_redis_client.simps [of g reply opt st]
      by (auto simp: Let_def split_beta split: outcome.split)
  qed
next
  case (2 g reply texts st)
  show ?case
  proof (cases "redis_opts st = None \<or> pool_client st \<noteq> None \<or> reconnect_mu st")
    case True
    then show ?thesis
      unfolding logged_GetRedisPoolClient.simps [of g reply texts st] GetRedisPoolClient.simps [of g reply st]
      by (auto split: option.splits)
  next
    case False
    with 2 show ?thesis
      unfolding logged_GetRedisPoolClient.simps [of g reply texts st] GetRedisPoolClient.simps [of g reply st]
      by (auto simp: split_beta split: outcome.split option.split)
  qed
next
  case (3 g reply texts st)
  show ?case
  proof (cases "red_sync_once st")
    case OnceNew
    with 3 [OF this] show ?thesis
      unfolding logged_InitRedSyncOnce.simps [of g reply texts st] InitRedSyncOnce.simps [of g reply st]
      by (auto simp: split_beta split: outcome.split sum.split)
  qed (simp_all add: logged_InitRedSyncOnce.simps [of g reply texts st] InitRedSyncOnce.simps [of g reply st])
qed

subsection \<open>Configuration and start\<close>

definition logged_InitRedisOptions ::
  "redis_options \<Rightarrow> redis_state \<Rightarrow> (redis_options outcome \<times> redis_state) \<times> log_call list" where
  "logged_InitRedisOptions rawOpt st =
     (case InitRedisOptions rawOpt st of
        (Returned ro, st1) \<Rightarrow>
          ((Returned ro, st1),
           if ro_read_timeout ro > 0
           then [LineI ''%s custom redis timeout set=%v''
                   [redis_prefix ''InitRedisOptions'', AStr (duration_text (effective_timeout st1))]]
           else [])
      | r \<Rightarrow> silent r)"

definition logged_GetRedisClient ::
  "globals \<Rightarrow> conn_reply \<Rightarrow> string \<times> string \<Rightarrow> string \<Rightarrow> string \<Rightarrow> string \<Rightarrow> int \<Rightarrow> redis_state \<Rightarrow>
     (err option outcome \<times> redis_state) \<times> log_call list" where
  "logged_GetRedisClient g reply texts host port password db st =
     after_lines [LineI ''%s host=%s port=%s db=%v'' [redis_prefix ''GetRedisClient'', AStr host, AStr port, AInt db]]
     (case GetRedisOptions st of
        None \<Rightarrow>
          (case logged_InitRedisOptions \<lparr>ro_addr = host @ '':'' @ port, ro_username = [],
                  ro_password = password, ro_db = db, ro_max_retries = 0, ro_min_retry_backoff = 0,
                  ro_max_retry_backoff = 0, ro_read_timeout = 0, ro_conn_max_idle_time = 0\<rparr> st of
             ((Returned _, st1), calls) \<Rightarrow>
               after_lines calls (logged_init_redis_client g reply texts (GetRedisOptions st1) st1)
           | ((Panicked p, st1), calls) \<Rightarrow> ((Panicked p, st1), calls)
           | ((Hangs, st1), calls) \<Rightarrow> ((Hangs, st1), calls))
      | Some ro \<Rightarrow> logged_init_redis_client g reply texts (GetRedisOptions st) st)"

definition log_attempt_failed :: "int \<Rightarrow> int \<Rightarrow> int \<Rightarrow> err \<Rightarrow> log_call list" where
  "log_attempt_failed attempt maxRetries delay e =
     LineW ''%s attempt failed attempt=%d/%d err=%v''
       [redis_prefix ''InitializeRedisWithRetry'', AInt attempt, AInt maxRetries, AErr e] #
     (if attempt < maxRetries
      then [LineI ''%s retrying delay=%v''
              [redis_prefix ''InitializeRedisWithRetry'', AStr (duration_text (dur_mul delay attempt))]]
      else [])"

fun logged_connect_loop ::
  "globals \<Rightarrow> (int \<Rightarrow> conn_reply) \<Rightarrow> string \<times> string \<Rightarrow> int \<Rightarrow> int \<Rightarrow> nat \<Rightarrow> int \<Rightarrow> err option \<Rightarrow> redis_state \<Rightarrow>
     ((err option + unit) outcome \<times> int list \<times> redis_state) \<times> log_call list" where
  "logged_connect_loop g replies texts maxRetries delay 0 attempt lastErr st =
     silent (Returned (Inl lastErr), [], st)"
| "logged_connect_loop g replies texts maxRetries delay (Suc remaining) attempt lastErr st =
     (case logged_init_redis_client g (replies attempt) texts (GetRedisOptions st) st of
        ((Returned None, st1), calls) \<Rightarrow>
          ((Returned (Inr ()), [], st1),
           calls @ [LineI ''%s connected successfully attempt=%d/%d''
             [redis_prefix ''InitializeRedisWithRetry'', AInt attempt, AInt maxRetries]])
      | ((Returned (Some e), st1), calls) \<Rightarrow>
          (let ((r, sleeps, st2), later) =
             logged_connect_loop g replies texts maxRetries delay remaining (attempt + 1) (Some e) st1
           in ((r, (if attempt < maxRetries then [dur_mul delay attempt] else []) @ sleeps, st2),
               calls @ log_attempt_failed attempt maxRetries delay e @ later))
      | ((Hangs, st1), calls) \<Rightarrow> ((Hangs, [], st1), calls)
      | ((Panicked p, st1), calls) \<Rightarrow> ((Panicked p, [], st1), calls))"

definition logged_InitializeRedisWithRetry ::
  "globals \<Rightarrow> (int \<Rightarrow> conn_reply) \<Rightarrow> string \<times> string \<Rightarrow> redis_init_options \<Rightarrow> redis_state \<Rightarrow>
     (err option outcome \<times> int list \<times> redis_state) \<times> log_call list" where
  "logged_InitializeRedisWithRetry g replies texts opts st =
     (let maxRetries = (if rio_max_retries opts = 0 then 3 else rio_max_retries opts);
          delay = (if rio_retry_delay opts = 0 then Second else rio_retry_delay opts);
          prefix = redis_prefix ''InitializeRedisWithRetry'';
          st1 = set_redis_lock_key (''redis_lock:'' @ get_app_name g @ '':'') st
      in after_lines [LineI ''%s starting retry logic max_retries=%d base_delay=%v''
             [prefix, AInt maxRetries, AStr (duration_text delay)]]
         (case logged_InitRedisOptions (rio_options opts) st1 of
            ((Hangs, st2), calls) \<Rightarrow> ((Hangs, [], st2), calls)
          | ((Panicked p, st2), calls) \<Rightarrow> ((Panicked p, [], st2), calls)
          | ((Returned _, st2), calls) \<Rightarrow> after_lines calls
              (case logged_connect_loop g replies texts maxRetries delay (nat maxRetries) 1 None st2 of
                 ((Returned (Inr _), sleeps, st3), tried) \<Rightarrow> ((Returned None, sleeps, st3), tried)
               | ((Returned (Inl lastErr), sleeps, st3), tried) \<Rightarrow>
                   (if rio_fail_fast opts
                    then ((Returned (Some (''failed to initialize Redis after '' @ itoa maxRetries @
                            '' attempts: '' @ (case lastErr of Some e \<Rightarrow> e | None \<Rightarrow> ''%!w(<nil>)''))),
                          sleeps, st3), tried)
                    else (case lastErr of
                            Some e \<Rightarrow> ((Returned None, sleeps, st3), tried @
                              [LineE ''%s failed to initialize redis after attempts=%d err=%s''
                                 [prefix, AInt maxRetries, AStr e]])
                          | None \<Rightarrow> ((Panicked NilDereference, sleeps, st3), tried)))
               | ((Hangs, sleeps, st3), tried) \<Rightarrow> ((Hangs, sleeps, st3), tried)
               | ((Panicked p, sleeps, st3), tried) \<Rightarrow> ((Panicked p, sleeps, st3), tried))))"

definition logged_InitRedisFromEnv ::
  "globals \<Rightarrow> env \<Rightarrow> (int \<Rightarrow> conn_reply) \<Rightarrow> string \<times> string \<Rightarrow> redis_state \<Rightarrow>
     (err option outcome \<times> int list \<times> redis_state) \<times> log_call list" where
  "logged_InitRedisFromEnv g ev replies texts st =
     (let prefix = redis_prefix ''InitRedisFromEnv''
      in if ev ''REDIS_HOST'' = []
         then ((Returned None, [], st), [LineI ''%s REDIS_HOST not set, skipping Redis init'' [prefix]])
         else after_lines
           (if ev ''REDIS_DB'' \<noteq> [] \<and> atoi (ev ''REDIS_DB'') = None
            then [LineW ''%s invalid REDIS_DB=%q using db=0'' [prefix, AStr (ev ''REDIS_DB'')]] else [])
           (logged_InitializeRedisWithRetry g replies texts \<lparr>rio_options = redis_env_options ev,
              rio_max_retries = 3, rio_retry_delay = Second, rio_fail_fast = True\<rparr> st))"

lemma logged_InitRedisOptions_erase: "fst (logged_InitRedisOptions raw st) = InitRedisOptions raw st"
  by (simp add: logged_InitRedisOptions_def split: prod.split outcome.split)

lemma logged_GetRedisClient_erase:
  "fst (logged_GetRedisClient g reply texts host port pw db st) = GetRedisClient g reply host port pw db st"
  by (simp add: logged_GetRedisClient_def GetRedisClient_def split_beta connecting_erase
      logged_InitRedisOptions_erase split: option.split outcome.split)

lemma logged_connect_loop_erase:
  "fst (logged_connect_loop g replies texts n d m a e st) = connect_loop g replies n d m a e st"
  by (induction m arbitrary: a e st)
    (simp_all add: split_beta connecting_erase Let_def split: option.split outcome.split)

lemma logged_InitializeRedisWithRetry_erase:
  "fst (logged_InitializeRedisWithRetry g replies texts opts st) = InitializeRedisWithRetry g replies opts st"
proof -
  let ?st1 = "set_redis_lock_key (''redis_lock:'' @ get_app_name g @ '':'') st"
  obtain ro st2 calls where i: "logged_InitRedisOptions (rio_options opts) ?st1 = ((ro, st2), calls)"
    by (metis prod.collapse)
  then have i': "InitRedisOptions (rio_options opts) ?st1 = (ro, st2)" by (metis logged_InitRedisOptions_erase fst_conv)
  let ?n = "if rio_max_retries opts = 0 then 3 else rio_max_retries opts"
  let ?d = "if rio_retry_delay opts = 0 then Second else rio_retry_delay opts"
  obtain r sleeps st3 tried where
    l: "logged_connect_loop g replies texts ?n ?d (nat ?n) 1 None st2 = ((r, sleeps, st3), tried)"
    by (metis prod.collapse)
  then have l': "connect_loop g replies ?n ?d (nat ?n) 1 None st2 = (r, sleeps, st3)"
    by (metis logged_connect_loop_erase fst_conv)
  note defs = logged_InitializeRedisWithRetry_def InitializeRedisWithRetry_def Let_def
  show ?thesis
  proof (cases ro)
    case (Returned x)
    show ?thesis
    proof (cases r)
      case r: (Returned y)
      show ?thesis
        by (cases y) (use Returned r i i' l l' in \<open>simp_all add: defs split: option.split\<close>)
    qed (use Returned i i' l l' in \<open>simp_all add: defs\<close>)
  qed (use i i' in \<open>simp_all add: defs\<close>)
qed

lemma logged_InitRedisFromEnv_erase:
  "fst (logged_InitRedisFromEnv g ev replies texts st) = InitRedisFromEnv g ev replies st"
  by (simp add: logged_InitRedisFromEnv_def InitRedisFromEnv_def Let_def logged_InitializeRedisWithRetry_erase)

subsection \<open>Keys\<close>

definition log_clamp :: "env \<Rightarrow> string \<Rightarrow> int \<Rightarrow> log_call list" where
  "log_clamp ev key ttl =
     (if ttl < 0
      then [LineW ''[StoreRedis] negative TTL %v for key=%q, clamping to 0 (no-expiry)''
              [AStr (duration_text ttl), AStr key]]
      else if ttl > MaxTTL ev
      then [LineW ''[StoreRedis] TTL %v exceeds max %v for key=%q, clamping (possible overflow bug)''
              [AStr (duration_text ttl), AStr (duration_text (MaxTTL ev)), AStr key]]
      else [])"

definition logged_with_pool_client ::
  "globals \<Rightarrow> conn_reply \<Rightarrow> string \<times> string \<Rightarrow> (nat \<Rightarrow> redis_state \<Rightarrow> ('a outcome \<times> redis_state) \<times> log_call list) \<Rightarrow>
     (err \<Rightarrow> 'a) \<Rightarrow> redis_state \<Rightarrow> ('a outcome \<times> redis_state) \<times> log_call list" where
  "logged_with_pool_client g reply texts k fail st =
     (case logged_GetRedisPoolClient g reply texts st of
        ((Hangs, st1), calls) \<Rightarrow> ((Hangs, st1), calls)
      | ((Panicked p, st1), calls) \<Rightarrow> ((Panicked p, st1), calls)
      | ((Returned (Inl e), st1), calls) \<Rightarrow> ((Returned (fail e), st1), calls)
      | ((Returned (Inr None), st1), calls) \<Rightarrow> ((Panicked NilDereference, st1), calls)
      | ((Returned (Inr (Some c)), st1), calls) \<Rightarrow> after_lines calls (k c st1))"

definition logged_StoreRedis ::
  "globals \<Rightarrow> env \<Rightarrow> conn_reply \<Rightarrow> string \<times> string \<Rightarrow> ('d \<Rightarrow> err + string) \<Rightarrow> err option \<Rightarrow> string \<Rightarrow> 'd \<Rightarrow> int \<Rightarrow>
     redis_state \<Rightarrow> (err option outcome \<times> redis_state) \<times> log_call list" where
  "logged_StoreRedis g ev reply texts marshal set_reply k data duration =
     logged_with_pool_client g reply texts
       (\<lambda>c st. case marshal data of
                 Inl e \<Rightarrow> silent (Returned (Some e), st)
               | Inr json \<Rightarrow>
                   ((Returned set_reply, send_cmd (SetKey c k json (clamp_store_ttl ev duration)) st),
                    log_clamp ev k duration))
       Some"

definition logged_GetRedis ::
  "globals \<Rightarrow> conn_reply \<Rightarrow> string \<times> string \<Rightarrow> (err + string) option \<Rightarrow> string \<Rightarrow> redis_state \<Rightarrow>
     ((string \<times> err option) outcome \<times> redis_state) \<times> log_call list" where
  "logged_GetRedis g reply texts get_reply k =
     logged_with_pool_client g reply texts
       (\<lambda>c st. silent (Returned (case get_reply of
                  None \<Rightarrow> ([], None)
                | Some (Inl e) \<Rightarrow> ([], Some e)
                | Some (Inr v) \<Rightarrow> (v, None)),
                send_cmd (GetKey c k) st))
       (\<lambda>e. ([], Some e))"

definition logged_DeleteRedis ::
  "globals \<Rightarrow> conn_reply \<Rightarrow> string \<times> string \<Rightarrow> err option option \<Rightarrow> string \<Rightarrow> redis_state \<Rightarrow>
     (err option outcome \<times> redis_state) \<times> log_call list" where
  "logged_DeleteRedis g reply texts del_reply k =
     logged_with_pool_client g reply texts
       (\<lambda>c st. silent (Returned (case del_reply of None \<Rightarrow> None | Some r \<Rightarrow> r), send_cmd (DelKey c k) st))
       Some"

definition logged_StoreRedisNoExpiry ::
  "globals \<Rightarrow> conn_reply \<Rightarrow> string \<times> string \<Rightarrow> ('d \<Rightarrow> err + string) \<Rightarrow> err option \<Rightarrow> string \<Rightarrow> 'd \<Rightarrow>
     redis_state \<Rightarrow> (err option outcome \<times> redis_state) \<times> log_call list" where
  "logged_StoreRedisNoExpiry g reply texts marshal set_reply k data =
     logged_with_pool_client g reply texts
       (\<lambda>c st. case marshal data of
                 Inl e \<Rightarrow> silent (Returned (Some e), st)
               | Inr json \<Rightarrow> silent (Returned set_reply, send_cmd (SetKey c k json 0) st))
       Some"

lemma logged_with_pool_client_erase:
  assumes "\<And>c st. fst (k' c st) = k c st"
  shows "fst (logged_with_pool_client g reply texts k' fail st) = with_pool_client g reply k fail st"
  by (simp add: logged_with_pool_client_def with_pool_client_def split_beta connecting_erase assms
      split: outcome.split sum.split option.split)

lemma logged_keys_erase:
  "fst (logged_StoreRedis g ev reply texts marshal set_reply k data duration st) =
    StoreRedis g ev reply marshal set_reply k data duration st"
  "fst (logged_StoreRedisNoExpiry g reply texts marshal set_reply k data st) =
    StoreRedisNoExpiry g reply marshal set_reply k data st"
  "fst (logged_GetRedis g reply texts get_reply k st) = GetRedis g reply get_reply k st"
  "fst (logged_DeleteRedis g reply texts del_reply k st) = DeleteRedis g reply del_reply k st"
  unfolding logged_StoreRedis_def StoreRedis_def StoreRedisWithContext_def
    logged_StoreRedisNoExpiry_def StoreRedisNoExpiry_def logged_GetRedis_def GetRedis_def
    GetRedisWithContext_def logged_DeleteRedis_def DeleteRedis_def DeleteRedisWithContext_def
  by (rule logged_with_pool_client_erase, simp split: sum.split)+

subsection \<open>Locks\<close>

definition logged_AcquireLock ::
  "globals \<Rightarrow> conn_reply \<Rightarrow> string \<times> string \<Rightarrow> nat \<Rightarrow> lock_reply \<Rightarrow> string \<Rightarrow> int \<Rightarrow> redis_state \<Rightarrow>
     ((bool \<times> lock_error option) outcome \<times> redis_state) \<times> log_call list" where
  "logged_AcquireLock g reply texts ident lock_reply key ttl st =
     (let prefix = redis_prefix ''AcquireLock''
      in case logged_InitRedSyncOnce g reply texts st of
        ((Hangs, st1), calls) \<Rightarrow> ((Hangs, st1), calls)
      | ((Panicked p, st1), calls) \<Rightarrow> ((Panicked p, st1), calls)
      | ((Returned (Some e), st1), calls) \<Rightarrow>
          ((Returned (False, Some \<lparr>le_key = key, le_op = ''acquire'',
             le_reason = ''redsync initialization failed'', le_err = Some e\<rparr>), st1), calls)
      | ((Returned None, st1), calls) \<Rightarrow>
          (case red_sync st1 of
             None \<Rightarrow> ((Panicked NilDereference, st1), calls)
           | Some pool \<Rightarrow>
               (let mutex = \<lparr>mx_id = ident, mx_name = key, mx_expiry = ttl, mx_tries = None,
                      mx_retry_delay = None\<rparr>;
                    st2 = send_cmd (LockMutex mutex) st1
                in case lock_reply of
                     LockContended \<Rightarrow>
                       ((Returned (False, None), st2),
                        calls @ [LineD ''%s lock already held key=%s'' [prefix, AStr key]])
                   | LockBroken e \<Rightarrow>
                       ((Returned (False, Some \<lparr>le_key = key, le_op = ''acquire'',
                          le_reason = ''mutex lock operation failed'', le_err = Some e\<rparr>), st2), calls)
                   | LockGranted \<Rightarrow>
                       ((Returned (True, None),
                         st2\<lparr>mutexes := StoreMutex key (Some mutex) (mutexes st2)\<rparr>),
                        calls @ [LineD ''%s lock acquired key=%s ttl=%s''
                          [prefix, AStr key, AStr (duration_text ttl)]]))))"

definition logged_ReleaseLock ::
  "err + bool \<Rightarrow> string \<Rightarrow> redis_state \<Rightarrow> (lock_error option \<times> redis_state) \<times> log_call list" where
  "logged_ReleaseLock unlock_reply key st =
     (case ReleaseLock unlock_reply key st of
        (None, st1) \<Rightarrow> ((None, st1), [LineD ''%s lock released key=%s'' [redis_prefix ''ReleaseLock'', AStr key]])
      | (Some e, st1) \<Rightarrow> silent (Some e, st1))"

text \<open>The deferred release of \<open>StoreRedisWithLock\<close>.\<close>

definition logged_deferred_release :: "err + bool \<Rightarrow> string \<Rightarrow> redis_state \<Rightarrow> redis_state \<times> log_call list" where
  "logged_deferred_release unlock_reply lockKey st =
     (case logged_ReleaseLock unlock_reply lockKey st of
        ((None, st1), calls) \<Rightarrow> (st1, calls)
      | ((Some e, st1), calls) \<Rightarrow>
          (st1, calls @ [LineD ''%s release lock failed err=%s''
             [redis_prefix ''StoreRedisWithLock'', AStr (lock_error_text e)]]))"

definition logged_StoreRedisWithLock ::
  "globals \<Rightarrow> env \<Rightarrow> conn_reply \<Rightarrow> string \<times> string \<Rightarrow> nat \<Rightarrow> lock_reply \<Rightarrow> err + bool \<Rightarrow> ('d \<Rightarrow> err + string) \<Rightarrow>
     err option \<Rightarrow> string \<Rightarrow> 'd \<Rightarrow> int \<Rightarrow> redis_state \<Rightarrow> (err option outcome \<times> redis_state) \<times> log_call list" where
  "logged_StoreRedisWithLock g ev reply texts ident lock_reply unlock_reply marshal set_reply k data duration st =
     (let lockKey = get_redis_lock_key st @ k;
          (lockTTL, st0) = GetTrxRedisLockTimeout ev st;
          prefix = redis_prefix ''StoreRedisWithLock''
      in after_lines [LineI ''%s lock_ttl=%s lock_key=%s'' [prefix, AStr (duration_text lockTTL), AStr lockKey]]
         (case logged_AcquireLock g reply texts ident lock_reply lockKey lockTTL st0 of
           ((Hangs, st1), calls) \<Rightarrow> ((Hangs, st1), calls)
         | ((Panicked p, st1), calls) \<Rightarrow> ((Panicked p, st1), calls)
         | ((Returned (locked, Some e), st1), calls) \<Rightarrow> ((Returned (Some (lock_error_text e)), st1), calls)
         | ((Returned (locked, None), st1), calls) \<Rightarrow> after_lines calls
             (if \<not> locked then silent (Returned (Some ''already being updated by another process''), st1)
              else after_lines
                [LineI ''%s lock acquired key=%v ttl=%v'' [prefix, AStr lockKey, AStr (duration_text lockTTL)]]
                (case logged_StoreRedis g ev reply texts marshal set_reply k data duration st1 of
                   ((Hangs, st2), stored) \<Rightarrow> ((Hangs, st2), stored)
                 | ((Panicked p, st2), stored) \<Rightarrow>
                     (let (st3, released) = logged_deferred_release unlock_reply lockKey st2
                      in ((Panicked p, st3), stored @ released))
                 | ((Returned e, st2), stored) \<Rightarrow>
                     (let (st3, released) = logged_deferred_release unlock_reply lockKey st2
                      in ((Returned e, st3), stored @ released))))))"

lemma logged_AcquireLock_erase:
  "fst (logged_AcquireLock g reply texts ident lr key ttl st) = AcquireLock g reply ident lr key ttl st"
  by (simp add: logged_AcquireLock_def AcquireLock_def split_beta Let_def connecting_erase
      split: outcome.split option.split lock_reply.split)

lemma logged_ReleaseLock_erase: "fst (logged_ReleaseLock ur key st) = ReleaseLock ur key st"
  by (simp add: logged_ReleaseLock_def split: prod.split option.split)

lemma logged_deferred_release_erase: "fst (logged_deferred_release ur key st) = snd (ReleaseLock ur key st)"
  by (cases "ReleaseLock ur key st"; cases "fst (ReleaseLock ur key st)")
    (simp_all add: logged_deferred_release_def logged_ReleaseLock_def silent_def)

lemma logged_StoreRedisWithLock_erase:
  "fst (logged_StoreRedisWithLock g ev reply texts ident lr ur marshal set_reply k data duration st) =
    StoreRedisWithLock g ev reply ident lr ur marshal set_reply k data duration st"
proof -
  obtain v st0 where t: "GetTrxRedisLockTimeout ev st = (v, st0)" by fastforce
  let ?key = "get_redis_lock_key st @ k"
  obtain r st1 calls where a: "logged_AcquireLock g reply texts ident lr ?key v st0 = ((r, st1), calls)"
    by (metis prod.collapse)
  then have a': "AcquireLock g reply ident lr ?key v st0 = (r, st1)" by (metis logged_AcquireLock_erase fst_conv)
  obtain x st2 stored where
    l: "logged_StoreRedis g ev reply texts marshal set_reply k data duration st1 = ((x, st2), stored)"
    by (metis prod.collapse)
  then have l': "StoreRedis g ev reply marshal set_reply k data duration st1 = (x, st2)"
    by (metis logged_keys_erase(1) fst_conv)
  note defs = logged_StoreRedisWithLock_def StoreRedisWithLock_def Let_def
  show ?thesis
  proof (cases r)
    case (Returned y)
    obtain locked e where y: "y = (locked, e)" by fastforce
    show ?thesis
    proof (cases e)
      case None
      show ?thesis
        by (cases x) (use t Returned y None a a' l l' in
          \<open>simp_all add: defs split_beta logged_deferred_release_erase\<close>)
    qed (use t Returned y a a' in \<open>simp_all add: defs\<close>)
  qed (use t a a' in \<open>simp_all add: defs\<close>)
qed

subsection \<open>What is reported\<close>

abbreviation error_count :: "log_call list \<Rightarrow> nat" where
  "error_count calls \<equiv> length (filter is_error_call calls)"

lemma no_error_calls [simp]:
  "filter is_error_call (log_client_name g text) = []" "filter is_error_call (log_redsync_warning r) = []"
  "filter is_error_call (log_attempt_failed a n d e) = []" "filter is_error_call (log_clamp ev k ttl) = []"
  by (simp_all add: log_client_name_def log_redsync_warning_def log_attempt_failed_def log_clamp_def
      split: option.split)

lemma logged_init_fails:
  "snd reply = Some e \<Longrightarrow> error_count (snd (logged_init_redis_client g reply texts (Some ro) st)) = 2"
  by (simp add: logged_init_redis_client.simps Let_def)

lemma logged_once_alive:
  assumes "redis_opts st = Some ro" and "pool_client st = Some c"
  shows "error_count (snd (logged_InitRedSyncOnce g reply texts st)) = 0"
proof -
  have "logged_GetRedisPoolClient g reply texts (st\<lparr>red_sync_once := OnceRunning\<rparr>) =
      silent (Returned (Inr (Some c)), st\<lparr>red_sync_once := OnceRunning\<rparr>)"
    using assms by (simp add: logged_GetRedisPoolClient.simps)
  then show ?thesis
    by (simp add: logged_InitRedSyncOnce.simps silent_def split: sync_once.split)
qed

lemma logged_init_connects:
  assumes "snd reply = None" and "redis_opts st = Some ro"
  shows "error_count (snd (logged_init_redis_client g reply texts (Some ro) st)) = 0"
proof -
  let ?st1 = "(send_cmd (Ping ro) st)\<lparr>pool_client := Some (fst reply)\<rparr>"
  let ?st2 = "if get_app_name g \<noteq> []
    then send_cmd (GetName (fst reply)) (send_cmd (SetName (fst reply) (get_app_name g)) ?st1) else ?st1"
  have "error_count (snd (logged_InitRedSyncOnce g reply texts ?st2)) = 0"
    by (rule logged_once_alive [where ro = ro and c = "fst reply"]) (use assms(2) in simp_all)
  then show ?thesis
    using assms(1) by (cases "get_app_name g = []")
      (auto simp: logged_init_redis_client.simps Let_def split_beta split: outcome.split)
qed

lemma logged_loop_reports:
  assumes "redis_opts st = Some ro" and "red_sync_once st \<noteq> OnceRunning" and "n = a + int m - 1"
    and "logged_connect_loop g replies texts n d m a e st = ((r, sleeps, st'), calls)"
  shows "(\<exists>u. r = Returned (Inr u) \<and> RedisEnabled st' \<and> error_count calls = 2 * length sleeps) \<or>
    (\<exists>e'. r = Returned (Inl e') \<and> (0 < m \<longrightarrow> e' \<noteq> None \<and> \<not> RedisEnabled st') \<and>
      error_count calls = 2 * m \<and> length sleeps = m - 1)"
  using assms
proof (induction m arbitrary: a e st r sleeps st' calls)
  case 0
  then show ?case by (auto simp: silent_def)
next
  case (Suc m)
  note [simp] = GetRedisOptions_def
  let ?i = "logged_init_redis_client g (replies a) texts (Some ro) st"
  show ?case
  proof (cases "snd (replies a)")
    case None
    from init_redis_client_connects [OF None Suc.prems(1,2), of g] obtain st1 where
      "init_redis_client g (replies a) (Some ro) st = (Returned None, st1)" "pool_client st1 = Some (fst (replies a))"
      by blast
    moreover from this obtain ls where "?i = ((Returned None, st1), ls)" by (metis connecting_erase(1) prod.collapse)
    ultimately show ?thesis
      using Suc.prems(1,4) logged_init_connects [where texts = texts, OF None Suc.prems(1), of g]
      by (auto simp: RedisEnabled_def)
  next
    case (Some e1)
    let ?st1 = "send_cmd (CloseClient (fst (replies a))) ((send_cmd (Ping ro) st)\<lparr>pool_client := None\<rparr>)"
    from init_redis_client_fails [OF Some, of g ro st] obtain ls where
      i: "?i = ((Returned (Some e1), ?st1), ls)" by (metis connecting_erase(1) prod.collapse)
    with logged_init_fails [where texts = texts, OF Some, of g ro st] have ls: "error_count ls = 2" by simp
    obtain r2 sl2 st2 later where
      l: "logged_connect_loop g replies texts n d m (a + 1) (Some e1) ?st1 = ((r2, sl2, st2), later)"
      by (metis prod.collapse)
    have n: "n = a + 1 + int m - 1" using Suc.prems(3) by simp
    have res: "r = r2" "st' = st2" "sleeps = (if 0 < m then [dur_mul d a] else []) @ sl2"
        "error_count calls = 2 + error_count later"
      using Suc.prems(1,3,4) i l ls by auto
    show ?thesis
    proof (cases m)
      case 0
      with l res show ?thesis by (auto simp: silent_def RedisEnabled_def)
    next
      case (Suc k)
      with Suc.IH [OF _ _ n l] Suc.prems(1,2) res show ?thesis by auto
    qed
  qed
qed

text \<open>
  C31. A start without Redis is reported, and nothing else is reported as an error. For a given address,
  a positive number of attempts and a redsync once that is not running, the function with its log calls
  gives the same result as without; the error lines on the logger are two for each failed attempt, and
  one more, the last call, when every attempt failed and the function returns nil all the same.
\<close>

theorem failed_start_is_logged:
  assumes "ro_addr (rio_options opts) \<noteq> []" and "0 < rio_max_retries opts" and "red_sync_once st \<noteq> OnceRunning"
    and run: "logged_InitializeRedisWithRetry g replies texts opts st = ((r, sleeps, st'), calls)"
  shows "InitializeRedisWithRetry g replies opts st = (r, sleeps, st') \<and>
    (let n = rio_max_retries opts; reported = error_lines (fold (perform now) calls lg) - error_lines lg
     in if RedisEnabled st' then r = Returned None \<and> reported = 2 * length sleeps
        else length sleeps = nat n - 1 \<and>
          (if rio_fail_fast opts then (\<exists>e. r = Returned (Some e)) \<and> reported = 2 * nat n
           else r = Returned None \<and> reported = 2 * nat n + 1 \<and>
             (\<exists>e. last calls = LineE ''%s failed to initialize redis after attempts=%d err=%s''
               [redis_prefix ''InitializeRedisWithRetry'', AInt n, AStr e])))"
proof -
  let ?n = "rio_max_retries opts"
  let ?d = "if rio_retry_delay opts = 0 then Second else rio_retry_delay opts"
  let ?st1 = "set_redis_lock_key (''redis_lock:'' @ get_app_name g @ '':'') st"
  from InitRedisOptions_addr [OF assms(1), of ?st1] obtain ro st2 where
    i: "InitRedisOptions (rio_options opts) ?st1 = (Returned ro, st2)" "redis_opts st2 = Some ro"
      "red_sync_once st2 = red_sync_once st"
    by (auto simp: set_redis_lock_key_def)
  obtain x sl st3 tried where
    l: "logged_connect_loop g replies texts ?n ?d (nat ?n) 1 None st2 = ((x, sl, st3), tried)"
    by (metis prod.collapse)
  have n: "?n = 1 + int (nat ?n) - 1" using assms(2) by simp
  obtain os where os: "logged_InitRedisOptions (rio_options opts) ?st1 = ((Returned ro, st2), os)" "error_count os = 0"
    using i(1) by (simp add: logged_InitRedisOptions_def)
  from logged_loop_reports [OF i(2) _ n l] i(3) assms(2,3) run os l show ?thesis
    using logged_InitializeRedisWithRetry_erase [of g replies texts opts st]
    by (auto simp: logged_InitializeRedisWithRetry_def Let_def fold_perform_errors after_lines_def split: if_splits)
qed

theorem failed_start_is_logged_witness:
  "\<exists>st' calls. logged_InitializeRedisWithRetry \<lparr>glob_app_name = ''svc'', glob_app_env = ''dev''\<rparr> (\<lambda>_. (7, Some ''down''))
      (''svc'', ''PONG'') (demo_init_options\<lparr>rio_max_retries := 1\<rparr>) initial_redis_state = ((Returned None, [], st'), calls) \<and>
    \<not> RedisEnabled st' \<and> (\<exists>e. last calls = LineE ''%s failed to initialize redis after attempts=%d err=%s''
      [redis_prefix ''InitializeRedisWithRetry'', AInt 1, AStr e])"
proof -
  let ?g = "\<lparr>glob_app_name = ''svc'', glob_app_env = ''dev''\<rparr>"
  let ?opts = "demo_init_options\<lparr>rio_max_retries := 1\<rparr>"
  have addr: "ro_addr (rio_options ?opts) \<noteq> []" "0 < rio_max_retries ?opts"
      "red_sync_once initial_redis_state \<noteq> OnceRunning" "rio_retry_delay ?opts = Second" "\<not> rio_fail_fast ?opts"
    by (simp_all add: demo_init_options_def initial_redis_state_def)
  obtain r sleeps st' calls where run: "logged_InitializeRedisWithRetry ?g (\<lambda>_. (7, Some ''down'')) (''svc'', ''PONG'')
      ?opts initial_redis_state = ((r, sleeps, st'), calls)" by (metis prod.collapse)
  from InitRedisOptions_addr [OF addr(1)] obtain ro st2 where
    "InitRedisOptions (rio_options ?opts) (set_redis_lock_key (''redis_lock:'' @ get_app_name ?g @ '':'') initial_redis_state) =
      (Returned ro, st2)" "redis_opts st2 = Some ro" by blast
  with addr have "InitializeRedisWithRetry ?g (\<lambda>_. (7, Some ''down'')) ?opts initial_redis_state =
      (Returned None, [], send_cmd (CloseClient 7) ((send_cmd (Ping ro) st2)\<lparr>pool_client := None\<rparr>))"
    by (simp add: InitializeRedisWithRetry_def GetRedisOptions_def init_redis_client_fails numeral_eq_Suc)
  moreover from failed_start_is_logged [OF addr(1-3) run]
  have "InitializeRedisWithRetry ?g (\<lambda>_. (7, Some ''down'')) ?opts initial_redis_state = (r, sleeps, st')" by simp
  ultimately have res: "r = Returned None" "sleeps = []" "\<not> RedisEnabled st'" by (auto simp: RedisEnabled_def)
  fix lg
  show ?thesis
    using failed_start_is_logged [OF addr(1-3) run, where now = 0 and lg = lg] run res addr(5) by (simp add: Let_def)
qed

text \<open>
  C29. A store never changes the requested duration in silence. As long as \<open>REDIS_MAX_TTL_MINUTES\<close> is at
  most 153722867, a store through a live client sends one \<open>SET\<close> whose time-to-live is the requested
  duration brought into the bounds 0 and \<open>MaxTTL\<close> (at least a minute); it makes no log call when that is
  the requested duration, and one warning that names the requested duration otherwise.
\<close>

theorem store_ttl_bounded_and_warned:
  assumes "\<And>n. atoi (ev ''REDIS_MAX_TTL_MINUTES'') = Some n \<Longrightarrow> n \<le> 153722867"
    and "live c st" and "marshal data = Inr json"
  shows "\<exists>ttl calls. logged_StoreRedis g ev reply texts marshal set_reply k data duration st =
      ((Returned set_reply, send_cmd (SetKey c k json ttl) st), calls) \<and>
    ttl = max 0 (min duration (MaxTTL ev)) \<and> Minute \<le> MaxTTL ev \<and>
    (if ttl = duration then calls = []
     else \<exists>f args. calls = [LineW f (AStr (duration_text duration) # args)])"
proof -
  obtain ro where al: "redis_opts st = Some ro" "pool_client st = Some c" using assms(2) by (auto simp: live_def)
  obtain ttl where ttl: "StoreRedis g ev reply marshal set_reply k data duration st =
      (Returned set_reply, send_cmd (SetKey c k json ttl) st)" "ttl = max 0 (min duration (MaxTTL ev))"
      "Minute \<le> MaxTTL ev"
    using store_ttl_within_bounds [where marshal = marshal, OF assms(1) al assms(3),
        where g = g and reply = reply and set_reply = set_reply and k = k and duration = duration]
    by (auto simp: send_cmd_def)
  have "logged_StoreRedis g ev reply texts marshal set_reply k data duration st =
      ((Returned set_reply, send_cmd (SetKey c k json ttl) st), log_clamp ev k duration)"
    using ttl(1) StoreRedis_alive [where marshal = marshal, OF al assms(3)] al assms(3)
    by (simp add: logged_StoreRedis_def logged_with_pool_client_def logged_GetRedisPoolClient.simps silent_def
        after_lines_def)
  then show ?thesis using ttl(2,3) by (auto simp: log_clamp_def max_def min_def)
qed

theorem store_ttl_bounded_and_warned_witness:
  "\<exists>f args. logged_StoreRedis \<lparr>glob_app_name = ''svc'', glob_app_env = ''dev''\<rparr> (\<lambda>_. []) (9, None) (''svc'', ''PONG'')
      Inr None ''k'' ''v'' (- 5) alive_redis_state =
    ((Returned None, send_cmd (SetKey 1 ''k'' ''v'' 0) alive_redis_state), [LineW f (AStr (duration_text (- 5)) # args)])"
proof -
  have "live 1 alive_redis_state" by (simp add: live_def alive_redis_state_def)
  from store_ttl_bounded_and_warned [where marshal = Inr and ev = "\<lambda>_. []" and data = "''v''" and duration = "- 5"
      and k = "''k''" and set_reply = None and reply = "(9, None)" and texts = "(''svc'', ''PONG'')"
      and g = "\<lparr>glob_app_name = ''svc'', glob_app_env = ''dev''\<rparr>", OF _ this refl]
  show ?thesis by auto
qed

subsection \<open>The password is not logged\<close>

text \<open>What is left of options, commands, states and results when the password is blanked out.\<close>

definition hide_options :: "redis_options \<Rightarrow> redis_options" where
  "hide_options ro = ro\<lparr>ro_password := []\<rparr>"

fun hide_cmd :: "redis_cmd \<Rightarrow> redis_cmd" where
  "hide_cmd (Ping ro) = Ping (hide_options ro)"
| "hide_cmd cmd = cmd"

definition hide_password :: "redis_state \<Rightarrow> redis_state" where
  "hide_password st = st\<lparr>password_mem := map_option (\<lambda>_. []) (password_mem st),
     redis_opts := map_option hide_options (redis_opts st), redis_sent := map hide_cmd (redis_sent st)\<rparr>"

definition hidden :: "('a \<times> redis_state) \<times> log_call list \<Rightarrow> ('a \<times> redis_state) \<times> log_call list" where
  "hidden r = ((fst (fst r), hide_password (snd (fst r))), snd r)"

lemma hide_password_simps [simp]:
  "redis_opts (hide_password st) = map_option hide_options (redis_opts st)"
  "pool_client (hide_password st) = pool_client st" "reconnect_mu (hide_password st) = reconnect_mu st"
  "red_sync (hide_password st) = red_sync st" "red_sync_once (hide_password st) = red_sync_once st"
  "red_sync_err (hide_password st) = red_sync_err st" "redis_lock_key (hide_password st) = redis_lock_key st"
  "mutexes (hide_password st) = mutexes st" "cached_lock_timeout (hide_password st) = cached_lock_timeout st"
  "effective_timeout (hide_password st) = effective_timeout st"
  "default_redis_timeout (hide_password st) = default_redis_timeout st"
  "host_mem (hide_password st) = host_mem st" "port_mem (hide_password st) = port_mem st"
  by (simp_all add: hide_password_def)

lemma hide_password_updates [simp]:
  "(hide_password st)\<lparr>pool_client := c\<rparr> = hide_password (st\<lparr>pool_client := c\<rparr>)"
  "(hide_password st)\<lparr>reconnect_mu := b\<rparr> = hide_password (st\<lparr>reconnect_mu := b\<rparr>)"
  "(hide_password st)\<lparr>red_sync_once := x\<rparr> = hide_password (st\<lparr>red_sync_once := x\<rparr>)"
  "(hide_password st)\<lparr>red_sync_err := e\<rparr> = hide_password (st\<lparr>red_sync_err := e\<rparr>)"
  "(hide_password st)\<lparr>red_sync := c\<rparr> = hide_password (st\<lparr>red_sync := c\<rparr>)"
  "(hide_password st)\<lparr>redis_lock_key := k\<rparr> = hide_password (st\<lparr>redis_lock_key := k\<rparr>)"
  "(hide_password st)\<lparr>mutexes := m\<rparr> = hide_password (st\<lparr>mutexes := m\<rparr>)"
  "(hide_password st)\<lparr>cached_lock_timeout := t\<rparr> = hide_password (st\<lparr>cached_lock_timeout := t\<rparr>)"
  by (simp_all add: hide_password_def)

lemma send_hidden: "send_cmd cmd (hide_password st) = hide_password (send_cmd cmd st)" if "hide_cmd cmd = cmd"
  using that by (simp add: hide_password_def send_cmd_def)

lemma ping_hidden: "send_cmd (Ping (hide_options ro)) (hide_password st) = hide_password (send_cmd (Ping ro) st)"
  by (simp add: hide_password_def send_cmd_def)

lemma hide_idem [simp]: "hide_options (hide_options ro) = hide_options ro" "hide_cmd (hide_cmd cmd) = hide_cmd cmd"
  by (simp add: hide_options_def, cases cmd) (simp_all add: hide_options_def)

lemma hide_password_idem [simp]: "hide_password (hide_password st) = hide_password st"
  by (simp add: hide_password_def option.map_comp comp_def)

lemma hidden_simps [simp]:
  "hidden (silent (x, st)) = silent (x, hide_password st)"
  "hidden (after_lines calls r) = after_lines calls (hidden r)"
  "hidden ((x, st), calls) = ((x, hide_password st), calls)"
  by (simp_all add: hidden_def silent_def after_lines_def)

lemma connecting_hidden:
  "logged_init_redis_client g reply texts (map_option hide_options opt) (hide_password st) =
    hidden (logged_init_redis_client g reply texts opt st)"
  "logged_GetRedisPoolClient g reply texts (hide_password st) = hidden (logged_GetRedisPoolClient g reply texts st)"
  "logged_InitRedSyncOnce g reply texts (hide_password st) = hidden (logged_InitRedSyncOnce g reply texts st)"
proof (induction g reply texts opt st and g reply texts st and g reply texts st
    rule: logged_init_redis_client_logged_GetRedisPoolClient_logged_InitRedSyncOnce.induct)
  case (1 g reply texts opt st)
  show ?case
  proof (cases "opt = None \<or> snd reply \<noteq> None")
    case True
    then show ?thesis
      unfolding logged_init_redis_client.simps [of g reply texts _ "hide_password st"]
        logged_init_redis_client.simps [of g reply texts opt st]
      by (cases opt) (auto simp: Let_def ping_hidden send_hidden)
  next
    case False
    then obtain ro where ro: "opt = Some ro" "snd reply = None" by auto
    let ?st1 = "(send_cmd (Ping ro) st)\<lparr>pool_client := Some (fst reply)\<rparr>"
    let ?st2 = "if get_app_name g \<noteq> []
      then send_cmd (GetName (fst reply)) (send_cmd (SetName (fst reply) (get_app_name g)) ?st1) else ?st1"
    have ih: "logged_InitRedSyncOnce g reply texts (hide_password ?st2) =
        hidden (logged_InitRedSyncOnce g reply texts ?st2)"
      by (rule 1 [OF ro(1) refl refl ro(2) refl refl])
    obtain x st3 calls where r: "logged_InitRedSyncOnce g reply texts ?st2 = ((x, st3), calls)"
      by (metis prod.collapse)
    show ?thesis
      unfolding logged_init_redis_client.simps [of g reply texts _ "hide_password st"]
        logged_init_redis_client.simps [of g reply texts opt st]
      using ih r ro
      by (cases "get_app_name g = []"; cases x) (simp_all add: Let_def ping_hidden send_hidden)
  qed
next
  case (2 g reply texts st)
  show ?case
  proof (cases "redis_opts st = None \<or> pool_client st \<noteq> None \<or> reconnect_mu st")
    case True
    then show ?thesis
      unfolding logged_GetRedisPoolClient.simps [of g reply texts "hide_password st"]
        logged_GetRedisPoolClient.simps [of g reply texts st]
      by (auto split: option.splits)
  next
    case False
    then obtain ro where ro: "redis_opts st = Some ro" "pool_client st = None" "\<not> reconnect_mu st" by auto
    obtain x st1 calls where
      r: "logged_init_redis_client g reply texts (Some ro) (st\<lparr>reconnect_mu := True\<rparr>) = ((x, st1), calls)"
      by (metis prod.collapse)
    with 2 [OF ro] ro show ?thesis
      unfolding logged_GetRedisPoolClient.simps [of g reply texts "hide_password st"]
        logged_GetRedisPoolClient.simps [of g reply texts st]
      by (cases x) (simp_all split: option.split)
  qed
next
  case (3 g reply texts st)
  show ?case
  proof (cases "red_sync_once st")
    case OnceNew
    obtain x st1 calls where
      r: "logged_GetRedisPoolClient g reply texts (st\<lparr>red_sync_once := OnceRunning\<rparr>) = ((x, st1), calls)"
      by (metis prod.collapse)
    with 3 [OF OnceNew] OnceNew show ?thesis
      unfolding logged_InitRedSyncOnce.simps [of g reply texts "hide_password st"]
        logged_InitRedSyncOnce.simps [of g reply texts st]
      by (cases x) (simp_all split: sum.split)
  qed (simp_all add: logged_InitRedSyncOnce.simps [of g reply texts "hide_password st"]
      logged_InitRedSyncOnce.simps [of g reply texts st])
qed

text \<open>\<open>InitRedisOptions\<close> without the completions from the remembered password and database, which change nothing.\<close>

definition redis_address where
  "redis_address raw st = (if ro_addr raw = [] then
     (case (host_mem st, port_mem st) of (Some h, Some p) \<Rightarrow> Some (join_host_port h p) | _ \<Rightarrow> None) else Some (ro_addr raw))"

lemma InitRedisOptions_alt:
  "InitRedisOptions raw st =
     (let st1 = (case split_host_port (ro_addr raw) of
                   Some (h, p) \<Rightarrow> st\<lparr>host_mem := Some h, port_mem := Some p\<rparr> | None \<Rightarrow> st);
          st2 = st1\<lparr>password_mem := Some (ro_password raw), db_mem := Some (ro_db raw)\<rparr>
      in case redis_address raw st2 of
           None \<Rightarrow> (Panicked NilDereference, st2)
         | Some a \<Rightarrow>
             (let ro = fill_option_defaults (raw\<lparr>ro_addr := a\<rparr>); st3 = st2\<lparr>redis_opts := Some ro\<rparr>
              in (Returned ro, if ro_read_timeout ro > 0
                    then st3\<lparr>effective_timeout := dur_add (ro_read_timeout ro) (default_redis_timeout st3)\<rparr> else st3)))"
  unfolding InitRedisOptions_def redis_address_def Let_def
  by (cases raw) (simp split: option.split prod.split)

lemma fill_option_defaults_hidden: "fill_option_defaults (hide_options ro) = hide_options (fill_option_defaults ro)"
  by (cases ro) (simp add: fill_option_defaults_def hide_options_def Let_def)

lemma hide_options_simps [simp]:
  "ro_addr (hide_options ro) = ro_addr ro" "ro_read_timeout (hide_options ro) = ro_read_timeout ro"
  "ro_db (hide_options ro) = ro_db ro" "ro_password (hide_options ro) = []"
  "(hide_options ro)\<lparr>ro_addr := a\<rparr> = hide_options (ro\<lparr>ro_addr := a\<rparr>)"
  by (simp_all add: hide_options_def)

lemma hide_password_options [simp]:
  "(hide_password st)\<lparr>password_mem := Some [], db_mem := d\<rparr> = hide_password (st\<lparr>password_mem := Some p, db_mem := d\<rparr>)"
  "(hide_password st)\<lparr>host_mem := h, port_mem := q\<rparr> = hide_password (st\<lparr>host_mem := h, port_mem := q\<rparr>)"
  "(hide_password st)\<lparr>redis_opts := Some (hide_options ro)\<rparr> = hide_password (st\<lparr>redis_opts := Some ro\<rparr>)"
  "(hide_password st)\<lparr>effective_timeout := t\<rparr> = hide_password (st\<lparr>effective_timeout := t\<rparr>)"
  by (simp_all add: hide_password_def)

lemma InitRedisOptions_hidden:
  "InitRedisOptions (hide_options raw) (hide_password st) =
    map_prod (map_outcome hide_options) hide_password (InitRedisOptions raw st)"
proof -
  have a: "redis_address (hide_options raw) (hide_password s) = redis_address raw s" for s
    by (simp add: redis_address_def)
  let ?st1 = "case split_host_port (ro_addr raw) of
    Some (h, p) \<Rightarrow> st\<lparr>host_mem := Some h, port_mem := Some p\<rparr> | None \<Rightarrow> st"
  let ?st2 = "?st1\<lparr>password_mem := Some (ro_password raw), db_mem := Some (ro_db raw)\<rparr>"
  have s1: "(case split_host_port (ro_addr raw) of
      Some (h, p) \<Rightarrow> (hide_password st)\<lparr>host_mem := Some h, port_mem := Some p\<rparr> | None \<Rightarrow> hide_password st) =
      hide_password ?st1"
    by (simp split: option.split prod.split)
  show ?thesis
    unfolding InitRedisOptions_alt Let_def hide_options_simps s1 hide_password_options(1) [where p = "ro_password raw"] a
    by (simp add: fill_option_defaults_hidden split: option.split)
qed

lemma logged_InitRedisOptions_hidden:
  "logged_InitRedisOptions (hide_options raw) (hide_password st) =
    (case logged_InitRedisOptions raw st of
       ((x, st1), calls) \<Rightarrow> ((map_outcome hide_options x, hide_password st1), calls))"
  by (cases "InitRedisOptions raw st"; cases "fst (InitRedisOptions raw st)")
    (simp_all add: logged_InitRedisOptions_def InitRedisOptions_hidden silent_def)

definition hidden_run ::
  "('a \<times> int list \<times> redis_state) \<times> log_call list \<Rightarrow> ('a \<times> int list \<times> redis_state) \<times> log_call list" where
  "hidden_run r = (case r of ((x, sleeps, st), calls) \<Rightarrow> ((x, sleeps, hide_password st), calls))"

lemma hidden_run_simps [simp]:
  "hidden_run ((x, sleeps, st), calls) = ((x, sleeps, hide_password st), calls)"
  "hidden_run (after_lines calls r) = after_lines calls (hidden_run r)"
  "hidden_run (silent (x, sleeps, st)) = silent (x, sleeps, hide_password st)"
  by (simp_all add: hidden_run_def after_lines_def silent_def split: prod.split)

lemma logged_connect_loop_hidden:
  "logged_connect_loop g replies texts n d m a e (hide_password st) =
    hidden_run (logged_connect_loop g replies texts n d m a e st)"
proof (induction m arbitrary: a e st)
  case (Suc m)
  obtain x st1 calls where
    i: "logged_init_redis_client g (replies a) texts (GetRedisOptions st) st = ((x, st1), calls)"
    by (metis prod.collapse)
  then have i': "logged_init_redis_client g (replies a) texts (GetRedisOptions (hide_password st)) (hide_password st) =
      ((x, hide_password st1), calls)"
    using connecting_hidden(1) [of g "replies a" texts "GetRedisOptions st" st] by (simp add: GetRedisOptions_def)
  show ?case
  proof (cases x)
    case (Returned y)
    show ?thesis
    proof (cases y)
      case (Some e')
      obtain r sleeps st2 later where
        l: "logged_connect_loop g replies texts n d m (a + 1) (Some e') st1 = ((r, sleeps, st2), later)"
        by (metis prod.collapse)
      with Suc.IH [of "a + 1" "Some e'" st1] Returned Some i i' show ?thesis by simp
    qed (use Returned i i' in simp)
  qed (use i i' in simp_all)
qed simp

lemma logged_InitializeRedisWithRetry_hidden:
  "logged_InitializeRedisWithRetry g replies texts (opts\<lparr>rio_options := hide_options (rio_options opts)\<rparr>)
     (hide_password st) = hidden_run (logged_InitializeRedisWithRetry g replies texts opts st)"
proof -
  let ?key = "''redis_lock:'' @ get_app_name g @ '':''"
  obtain ro st2 calls where
    i: "logged_InitRedisOptions (rio_options opts) (set_redis_lock_key ?key st) = ((ro, st2), calls)"
    by (metis prod.collapse)
  have k: "set_redis_lock_key ?key (hide_password st) = hide_password (set_redis_lock_key ?key st)"
    by (simp add: set_redis_lock_key_def)
  have i': "logged_InitRedisOptions (hide_options (rio_options opts)) (set_redis_lock_key ?key (hide_password st)) =
      ((map_outcome hide_options ro, hide_password st2), calls)"
    unfolding k logged_InitRedisOptions_hidden i by simp
  define n where "n = (if rio_max_retries opts = 0 then 3 else rio_max_retries opts)"
  define d where "d = (if rio_retry_delay opts = 0 then Second else rio_retry_delay opts)"
  obtain r sleeps st3 tried where
    l: "logged_connect_loop g replies texts n d (nat n) 1 None st2 = ((r, sleeps, st3), tried)"
    by (metis prod.collapse)
  note l' = logged_connect_loop_hidden [of g replies texts n d "nat n" 1 None st2, unfolded l]
  have same: "rio_max_retries (opts\<lparr>rio_options := x\<rparr>) = rio_max_retries opts"
      "rio_retry_delay (opts\<lparr>rio_options := x\<rparr>) = rio_retry_delay opts"
      "rio_fail_fast (opts\<lparr>rio_options := x\<rparr>) = rio_fail_fast opts"
      "rio_options (opts\<lparr>rio_options := x\<rparr>) = x" for x by simp_all
  note parts = Let_def same n_def [symmetric] d_def [symmetric]
  note run = logged_InitializeRedisWithRetry_def [of g replies texts opts st, unfolded parts i]
    logged_InitializeRedisWithRetry_def [of g replies texts "opts\<lparr>rio_options := hide_options (rio_options opts)\<rparr>"
      "hide_password st", unfolded parts i']
  show ?thesis
  proof (cases ro)
    case (Returned x)
    show ?thesis
    proof (cases r)
      case r: (Returned y)
      show ?thesis
      proof (cases y)
        case (Inl a)
        show ?thesis
          by (cases a; cases "rio_fail_fast opts")
            (use Returned r Inl l l' in \<open>simp_all add: run\<close>)
      qed (use Returned r l l' in \<open>simp_all add: run\<close>)
    qed (use Returned l l' in \<open>simp_all add: run\<close>)
  qed (simp_all add: run)
qed

lemma logged_GetRedisClient_hidden:
  "logged_GetRedisClient g reply texts host port [] db (hide_password st) =
    hidden (logged_GetRedisClient g reply texts host port pw db st)"
proof -
  let ?raw = "\<lparr>ro_addr = host @ '':'' @ port, ro_username = [], ro_password = pw, ro_db = db, ro_max_retries = 0,
    ro_min_retry_backoff = 0, ro_max_retry_backoff = 0, ro_read_timeout = 0, ro_conn_max_idle_time = 0\<rparr>"
  obtain ro st1 calls where i: "logged_InitRedisOptions ?raw st = ((ro, st1), calls)" by (metis prod.collapse)
  have "hide_options ?raw = ?raw\<lparr>ro_password := []\<rparr>" by (simp add: hide_options_def)
  with logged_InitRedisOptions_hidden [of ?raw st] i
  have i': "logged_InitRedisOptions (?raw\<lparr>ro_password := []\<rparr>) (hide_password st) =
      ((map_outcome hide_options ro, hide_password st1), calls)" by simp
  have c: "logged_init_redis_client g reply texts (GetRedisOptions (hide_password s)) (hide_password s) =
      hidden (logged_init_redis_client g reply texts (GetRedisOptions s) s)" for s
    using connecting_hidden(1) [of g reply texts "GetRedisOptions s" s] by (simp add: GetRedisOptions_def)
  have o: "GetRedisOptions (hide_password st) = None \<longleftrightarrow> GetRedisOptions st = None"
    by (simp add: GetRedisOptions_def)
  show ?thesis
  proof (cases "GetRedisOptions st")
    case None
    with o have o': "GetRedisOptions (hide_password st) = None" by simp
    show ?thesis
      unfolding logged_GetRedisClient_def using None o' i i'
      by (cases ro) (simp_all add: c)
  next
    case (Some x)
    then obtain y where "GetRedisOptions (hide_password st) = Some y" by (auto simp: GetRedisOptions_def)
    with Some c [of st] show ?thesis by (simp add: logged_GetRedisClient_def)
  qed
qed

lemma logged_with_pool_client_hidden:
  assumes "\<And>c st. k' c (hide_password st) = hidden (k c st)"
  shows "logged_with_pool_client g reply texts k' fail (hide_password st) =
    hidden (logged_with_pool_client g reply texts k fail st)"
proof -
  obtain x st1 calls where p: "logged_GetRedisPoolClient g reply texts st = ((x, st1), calls)"
    by (metis prod.collapse)
  with connecting_hidden(2) [of g reply texts st] assms show ?thesis
    by (cases x) (simp_all add: logged_with_pool_client_def split: sum.split option.split)
qed

lemma logged_StoreRedis_hidden:
  "logged_StoreRedis g ev reply texts marshal set_reply k data duration (hide_password st) =
    hidden (logged_StoreRedis g ev reply texts marshal set_reply k data duration st)"
  unfolding logged_StoreRedis_def
  by (rule logged_with_pool_client_hidden) (simp add: send_hidden split: sum.split)

lemma logged_AcquireLock_hidden:
  "logged_AcquireLock g reply texts ident lr key ttl (hide_password st) =
    hidden (logged_AcquireLock g reply texts ident lr key ttl st)"
proof -
  obtain x st1 calls where p: "logged_InitRedSyncOnce g reply texts st = ((x, st1), calls)"
    by (metis prod.collapse)
  with connecting_hidden(3) [of g reply texts st] show ?thesis
    by (cases x)
      (simp_all add: logged_AcquireLock_def Let_def send_hidden split: option.split lock_reply.split)
qed

lemma logged_deferred_release_hidden:
  "logged_deferred_release ur key (hide_password st) = apfst hide_password (logged_deferred_release ur key st)"
  by (simp add: logged_deferred_release_def logged_ReleaseLock_def ReleaseLock_def Let_def silent_def send_hidden
      split: option.split sum.split)

lemma GetTrxRedisLockTimeout_hidden:
  "GetTrxRedisLockTimeout ev (hide_password st) = map_prod id hide_password (GetTrxRedisLockTimeout ev st)"
  by (simp add: GetTrxRedisLockTimeout_def Let_def split: option.split)

lemma logged_StoreRedisWithLock_hidden:
  "logged_StoreRedisWithLock g ev reply texts ident lr ur marshal set_reply k data duration (hide_password st) =
    hidden (logged_StoreRedisWithLock g ev reply texts ident lr ur marshal set_reply k data duration st)"
proof -
  obtain v st0 where t: "GetTrxRedisLockTimeout ev st = (v, st0)" by fastforce
  have key: "get_redis_lock_key (hide_password st) = get_redis_lock_key st" by (simp add: get_redis_lock_key_def)
  let ?key = "get_redis_lock_key st @ k"
  obtain r st1 calls where a: "logged_AcquireLock g reply texts ident lr ?key v st0 = ((r, st1), calls)"
    by (metis prod.collapse)
  note a' = logged_AcquireLock_hidden [of g reply texts ident lr ?key v st0, unfolded a]
  obtain x st2 stored where
    l: "logged_StoreRedis g ev reply texts marshal set_reply k data duration st1 = ((x, st2), stored)"
    by (metis prod.collapse)
  note l' = logged_StoreRedis_hidden [of g ev reply texts marshal set_reply k data duration st1, unfolded l]
  obtain st3 released where d: "logged_deferred_release ur ?key st2 = (st3, released)" by fastforce
  note d' = logged_deferred_release_hidden [of ur ?key st2, unfolded d]
  note [simp] = logged_StoreRedisWithLock_def Let_def GetTrxRedisLockTimeout_hidden
  show ?thesis
  proof (cases r)
    case (Returned y)
    obtain locked e where y: "y = (locked, e)" by fastforce
    show ?thesis
    proof (cases e)
      case None
      show ?thesis
        by (cases x; cases locked) (use t key Returned y None a a' l l' d d' in simp_all)
    qed (use t key Returned y a a' in simp)
  qed (use t key a a' in simp_all)
qed

lemma snd_hidden [simp]: "snd (hidden r) = snd r"
  by (simp add: hidden_def)

lemma InitializeRedisWithRetry_password:
  assumes "hide_password st = hide_password st'" and "hide_options raw = hide_options raw'"
  shows "hidden_run (logged_InitializeRedisWithRetry g replies texts (opts\<lparr>rio_options := raw\<rparr>) st) =
    hidden_run (logged_InitializeRedisWithRetry g replies texts (opts\<lparr>rio_options := raw'\<rparr>) st')"
  using logged_InitializeRedisWithRetry_hidden [of g replies texts "opts\<lparr>rio_options := raw\<rparr>" st]
    logged_InitializeRedisWithRetry_hidden [of g replies texts "opts\<lparr>rio_options := raw'\<rparr>" st'] assms
  by simp

text \<open>
  C30. The password of Redis does not reach the log. Take two runs that differ in the password only: in
  the options, in \<open>REDIS_PASSWORD\<close>, in the argument of \<open>GetRedisClient\<close>, or in what the package remembers
  from before. Given the same answers of the server, each of the starting functions and the locked store
  make the same log calls, return the same and leave states that differ in the password only.
\<close>

theorem password_never_logged:
  assumes "hide_password st = hide_password st'" and "hide_options raw = hide_options raw'"
    and ev: "\<And>x. x \<noteq> ''REDIS_PASSWORD'' \<Longrightarrow> ev x = ev' x"
  shows "hidden_run (logged_InitializeRedisWithRetry g replies texts (opts\<lparr>rio_options := raw\<rparr>) st) =
      hidden_run (logged_InitializeRedisWithRetry g replies texts (opts\<lparr>rio_options := raw'\<rparr>) st') \<and>
    hidden_run (logged_InitRedisFromEnv g ev replies texts st) =
      hidden_run (logged_InitRedisFromEnv g ev' replies texts st') \<and>
    hidden (logged_GetRedisClient g reply texts host port pw db st) =
      hidden (logged_GetRedisClient g reply texts host port pw' db st') \<and>
    hidden (logged_StoreRedisWithLock g ev reply texts ident lr ur marshal set_reply k data duration st) =
      hidden (logged_StoreRedisWithLock g ev' reply texts ident lr ur marshal set_reply k data duration st')"
proof (intro conjI)
  show "hidden_run (logged_InitializeRedisWithRetry g replies texts (opts\<lparr>rio_options := raw\<rparr>) st) =
      hidden_run (logged_InitializeRedisWithRetry g replies texts (opts\<lparr>rio_options := raw'\<rparr>) st')"
    by (rule InitializeRedisWithRetry_password [OF assms(1,2)])
  have same: "ev ''REDIS_HOST'' = ev' ''REDIS_HOST''" "ev ''REDIS_PORT'' = ev' ''REDIS_PORT''"
      "ev ''REDIS_DB'' = ev' ''REDIS_DB''" "ev ''REDIS_MAX_TTL_MINUTES'' = ev' ''REDIS_MAX_TTL_MINUTES''"
      "ev ''TRANSACTION_REDIS_LOCK_TIMEOUT'' = ev' ''TRANSACTION_REDIS_LOCK_TIMEOUT''"
    by (rule ev, simp)+
  have "hide_options (redis_env_options ev) = hide_options (redis_env_options ev')"
    by (simp add: redis_env_options_def hide_options_def Let_def same)
  from InitializeRedisWithRetry_password [OF assms(1) this, of g replies texts
      "\<lparr>rio_options = blank_redis_options, rio_max_retries = 3, rio_retry_delay = Second, rio_fail_fast = True\<rparr>"]
  show "hidden_run (logged_InitRedisFromEnv g ev replies texts st) =
      hidden_run (logged_InitRedisFromEnv g ev' replies texts st')"
    using assms(1) by (simp add: logged_InitRedisFromEnv_def Let_def same)
  show "hidden (logged_GetRedisClient g reply texts host port pw db st) =
      hidden (logged_GetRedisClient g reply texts host port pw' db st')"
    unfolding logged_GetRedisClient_hidden [symmetric] assms(1) by (rule refl)
  have "MaxTTL ev = MaxTTL ev'" by (simp add: MaxTTL_def same)
  then have clamp: "clamp_store_ttl ev = clamp_store_ttl ev'" "log_clamp ev = log_clamp ev'"
    by (simp_all add: fun_eq_iff clamp_store_ttl_def log_clamp_def)
  have store: "logged_StoreRedis g ev reply texts marshal set_reply = logged_StoreRedis g ev' reply texts marshal set_reply"
    by (intro ext) (unfold logged_StoreRedis_def clamp, rule refl)
  have timeout: "GetTrxRedisLockTimeout ev = GetTrxRedisLockTimeout ev'"
    by (intro ext) (unfold GetTrxRedisLockTimeout_def same, rule refl)
  have "logged_StoreRedisWithLock g ev reply texts ident lr ur marshal set_reply k data duration s =
      logged_StoreRedisWithLock g ev' reply texts ident lr ur marshal set_reply k data duration s" for s
    by (unfold logged_StoreRedisWithLock_def store timeout, rule refl)
  then show "hidden (logged_StoreRedisWithLock g ev reply texts ident lr ur marshal set_reply k data duration st) =
      hidden (logged_StoreRedisWithLock g ev' reply texts ident lr ur marshal set_reply k data duration st')"
    unfolding logged_StoreRedisWithLock_hidden [symmetric] assms(1) by simp
qed

theorem password_never_logged_witness:
  "snd (logged_GetRedisClient \<lparr>glob_app_name = ''svc'', glob_app_env = ''dev''\<rparr> (1, Some ''WRONGPASS'') (''svc'', ''PONG'')
      ''r'' ''6379'' ''secret'' 0 initial_redis_state) =
   snd (logged_GetRedisClient \<lparr>glob_app_name = ''svc'', glob_app_env = ''dev''\<rparr> (1, Some ''WRONGPASS'') (''svc'', ''PONG'')
      ''r'' ''6379'' [] 0 initial_redis_state)"
  using password_never_logged [where st = initial_redis_state and st' = initial_redis_state and raw = blank_redis_options
      and raw' = blank_redis_options and ev = "\<lambda>_. []" and ev' = "\<lambda>_. []" and pw = "''secret''" and pw' = "[]"
      and g = "\<lparr>glob_app_name = ''svc'', glob_app_env = ''dev''\<rparr>" and reply = "(1, Some ''WRONGPASS'')"
      and texts = "(''svc'', ''PONG'')" and host = "''r''" and port = "''6379''" and db = 0, OF refl refl refl]
  by (metis snd_hidden)

end
