(* ===== verification/SamplerRace.thy ===== *)
theory SamplerRace
  imports Sampling
begin

section \<open>The sampler under concurrent calls\<close>

text \<open>
  \<open>check\<close> of \<^verbatim>\<open>phlogger/sampler.go\<close> takes no lock: the loads and stores of an entry are single atomic
  operations, and the goroutines that log under one key interleave between them. \<open>sampler_check\<close> is what a
  call does when no other comes in between (\<open>sequential_check\<close>). Here any number of calls run on one
  entry, with sampling turned on; \<open>now i\<close> is the clock reading of call \<open>i\<close>.
\<close>

definition sampler_verdict :: "sampler_config \<Rightarrow> int \<Rightarrow> bool \<times> int" where
  "sampler_verdict cfg n =
     (if n \<le> sc_initial cfg then (True, 0)
      else if sc_thereafter cfg \<le> 0 then (False, 0)
      else
        let over = n - sc_initial cfg in
        if go_mod over (sc_thereafter cfg) = 0 then (True, sc_thereafter cfg - 1) else (False, 0))"

datatype call_pc = Called | Expired int | Restarting | Counting | Answered "bool \<times> int"

record sampler_race =
  sr_entry :: sampler_entry
  sr_pc :: "nat \<Rightarrow> call_pc"

text \<open>
  The atomic operations of a call: read the clock and load the start of the period; when it has expired
  store the new start, then the count 1 and pass; otherwise add one to the count and go by the sum.
\<close>

inductive sampler_step :: "sampler_config \<Rightarrow> (nat \<Rightarrow> int) \<Rightarrow> sampler_race \<Rightarrow> sampler_race \<Rightarrow> bool" for cfg now where
  load: "sr_pc s i = Called \<Longrightarrow> sampler_step cfg now s
    (s\<lparr>sr_pc := (sr_pc s)(i :=
       if sc_period cfg \<le> wrap64 (now i - se_reset_nano (sr_entry s)) then Expired (now i) else Counting)\<rparr>)"
| start_period: "sr_pc s i = Expired t \<Longrightarrow> sampler_step cfg now s
    (s\<lparr>sr_entry := (sr_entry s)\<lparr>se_reset_nano := t\<rparr>, sr_pc := (sr_pc s)(i := Restarting)\<rparr>)"
| restart_count: "sr_pc s i = Restarting \<Longrightarrow> sampler_step cfg now s
    (s\<lparr>sr_entry := (sr_entry s)\<lparr>se_count := 1\<rparr>, sr_pc := (sr_pc s)(i := Answered (True, 0))\<rparr>)"
| count: "sr_pc s i = Counting \<Longrightarrow> n = se_count (sr_entry s) + 1 \<Longrightarrow> sampler_step cfg now s
    (s\<lparr>sr_entry := (sr_entry s)\<lparr>se_count := n\<rparr>, sr_pc := (sr_pc s)(i := Answered (sampler_verdict cfg n))\<rparr>)"

definition answers :: "sampler_race \<Rightarrow> nat set" where
  "answers s = {i. \<exists>v. sr_pc s i = Answered v}"

definition answer :: "sampler_race \<Rightarrow> nat \<Rightarrow> bool \<times> int" where
  "answer s i = (case sr_pc s i of Answered v \<Rightarrow> v | _ \<Rightarrow> (False, 0))"

lemma to_counting:
  "sr_pc s i = Called \<Longrightarrow> \<not> sc_period cfg \<le> wrap64 (now i - se_reset_nano (sr_entry s)) \<Longrightarrow>
   t = s\<lparr>sr_pc := (sr_pc s)(i := Counting)\<rparr> \<Longrightarrow> sampler_step cfg now s t"
  using sampler_step.load [of s i cfg now] by simp

lemma to_answer:
  "sr_pc s i = Counting \<Longrightarrow> t = s\<lparr>sr_entry := (sr_entry s)\<lparr>se_count := se_count (sr_entry s) + 1\<rparr>,
     sr_pc := (sr_pc s)(i := Answered (sampler_verdict cfg (se_count (sr_entry s) + 1)))\<rparr> \<Longrightarrow>
   sampler_step cfg now s t"
  using sampler_step.count [of s i _ cfg now] by simp

subsection \<open>A call by itself\<close>

lemma sequential_check:
  assumes "sr_pc s i = Called" and "sampler_check key (now i) smp = (v, smp')"
    and "sr_entry s = sampler_entry_of smp key" and "cfg = s_config smp" and "0 < sc_initial cfg"
  shows "\<exists>t. (sampler_step cfg now)\<^sup>*\<^sup>* s t \<and> answer t i = v \<and> i \<in> answers t \<and>
    sr_entry t = sampler_entry_of smp' key"
proof (cases "sc_period cfg \<le> wrap64 (now i - se_reset_nano (sr_entry s))")
  case True
  let ?a = "s\<lparr>sr_pc := (sr_pc s)(i := Expired (now i))\<rparr>"
  let ?b = "?a\<lparr>sr_entry := (sr_entry ?a)\<lparr>se_reset_nano := now i\<rparr>, sr_pc := (sr_pc ?a)(i := Restarting)\<rparr>"
  let ?c = "?b\<lparr>sr_entry := (sr_entry ?b)\<lparr>se_count := 1\<rparr>, sr_pc := (sr_pc ?b)(i := Answered (True, 0))\<rparr>"
  have "sampler_step cfg now s ?a" using sampler_step.load [OF assms(1), of cfg now] True by simp
  moreover have "sampler_step cfg now ?a ?b" by (rule sampler_step.start_period) simp
  moreover have "sampler_step cfg now ?b ?c" by (rule sampler_step.restart_count) simp
  ultimately have "(sampler_step cfg now)\<^sup>*\<^sup>* s ?c" by (meson converse_rtranclp_into_rtranclp rtranclp.rtrancl_refl)
  moreover have "v = (True, 0)" "sampler_entry_of smp' key = sr_entry ?c"
    using True assms by (auto simp: sampler_check_def Let_def sampler_entry_of_def)
  ultimately show ?thesis by (intro exI [of _ ?c]) (auto simp: answer_def answers_def)
next
  case False
  let ?a = "s\<lparr>sr_pc := (sr_pc s)(i := Counting)\<rparr>"
  let ?n = "se_count (sr_entry s) + 1"
  let ?c = "?a\<lparr>sr_entry := (sr_entry ?a)\<lparr>se_count := ?n\<rparr>, sr_pc := (sr_pc ?a)(i := Answered (sampler_verdict cfg ?n))\<rparr>"
  have "sampler_step cfg now s ?a" by (rule to_counting [where i = i]) (use assms(1) False in simp_all)
  moreover have "sampler_step cfg now ?a ?c" by (rule to_answer [where i = i]) simp_all
  ultimately have "(sampler_step cfg now)\<^sup>*\<^sup>* s ?c" by (meson converse_rtranclp_into_rtranclp rtranclp.rtrancl_refl)
  moreover have "v = sampler_verdict cfg ?n" "sampler_entry_of smp' key = sr_entry ?c"
    using False assms by (auto simp: sampler_check_def Let_def sampler_entry_of_def sampler_verdict_def split: if_splits)
  ultimately show ?thesis by (intro exI [of _ ?c]) (auto simp: answer_def answers_def)
qed

subsection \<open>Inside a period\<close>

text \<open>The period that began at \<open>t0\<close> is running: nobody is about to start one, and no pending call is late enough to.\<close>

definition period_runs :: "sampler_config \<Rightarrow> (nat \<Rightarrow> int) \<Rightarrow> int \<Rightarrow> sampler_race \<Rightarrow> bool" where
  "period_runs cfg now t0 s \<longleftrightarrow> se_reset_nano (sr_entry s) = t0 \<and>
     (\<forall>i. sr_pc s i \<noteq> Restarting \<and> (\<forall>t. sr_pc s i \<noteq> Expired t) \<and>
       (sr_pc s i = Called \<longrightarrow> within_period cfg t0 (now i)))"

interpretation running: invariant_steps "sampler_step cfg now" "period_runs cfg now t0"
  for cfg now t0
proof
  fix s t assume "sampler_step cfg now s t" and "period_runs cfg now t0 s"
  then show "period_runs cfg now t0 t"
    by cases (auto simp: period_runs_def within_period_def)
qed

lemma verdict_counts:
  assumes "0 < sc_initial cfg" and "0 < sc_thereafter cfg"
  shows "sampler_budget cfg (Suc n) = sampler_budget cfg n + (if fst (sampler_verdict cfg (int n + 1)) then 1 else 0)"
    and "sampler_reports cfg (Suc n) = sampler_reports cfg n + snd (sampler_verdict cfg (int n + 1))"
proof -
  let ?cfg = "cfg\<lparr>sc_period := 1\<rparr>"
  let ?s = "\<lparr>s_config = ?cfg, s_entries = [''k'' \<mapsto> \<lparr>se_count = int n, se_reset_nano = 0\<rparr>]\<rparr>"
  have p: "in_period ?s ''k'' 0 n" "within_period (s_config ?s) 0 0"
      "0 < sc_initial (s_config ?s)" "0 < sc_thereafter (s_config ?s)"
    using assms by (simp_all add: in_period_def within_period_def wrap64_def)
  have same: "sampler_budget ?cfg m = sampler_budget cfg m" "sampler_reports ?cfg m = sampler_reports cfg m" for m
    by (simp_all add: sampler_budget_def sampler_reports_def)
  obtain a m s' where c: "sampler_check ''k'' 0 ?s = ((a, m), s')"
      "sampler_budget ?cfg (Suc n) = sampler_budget ?cfg n + (if a then 1 else 0)"
      "sampler_reports ?cfg (Suc n) = sampler_reports ?cfg n + m"
    by (rule sampler_check_in_period [OF p]) (rule that, simp_all)
  have "(a, m) = sampler_verdict cfg (int n + 1)"
    using c(1) assms by (auto simp: sampler_check_def sampler_entry_of_def sampler_verdict_def wrap64_def Let_def
        split: if_splits)
  then have "fst (sampler_verdict cfg (int n + 1)) = a" "snd (sampler_verdict cfg (int n + 1)) = m"
    by (metis fst_conv, metis snd_conv)
  with c(2,3) show "sampler_budget cfg (Suc n) = sampler_budget cfg n + (if fst (sampler_verdict cfg (int n + 1)) then 1 else 0)"
    and "sampler_reports cfg (Suc n) = sampler_reports cfg n + snd (sampler_verdict cfg (int n + 1))"
    by (simp_all add: same)
qed

text \<open>What holds between the start of the observation and a later state.\<close>

definition accounted :: "sampler_config \<Rightarrow> nat \<Rightarrow> sampler_race \<Rightarrow> sampler_race \<Rightarrow> bool" where
  "accounted cfg n s t \<longleftrightarrow> finite (answers t - answers s) \<and>
     se_count (sr_entry t) = int (n + card (answers t - answers s)) \<and>
     int (card {i \<in> answers t - answers s. fst (answer t i)}) =
       sampler_budget cfg (n + card (answers t - answers s)) - sampler_budget cfg n \<and>
     (\<Sum>i \<in> answers t - answers s. snd (answer t i)) =
       sampler_reports cfg (n + card (answers t - answers s)) - sampler_reports cfg n"

lemma accounted_step:
  assumes "sampler_step cfg now t u" and "period_runs cfg now t0 t" and "accounted cfg n s t"
    and pos: "0 < sc_initial cfg" "0 < sc_thereafter cfg" and "answers s \<subseteq> answers t"
  shows "accounted cfg n s u \<and> answers s \<subseteq> answers u"
  using assms(1)
proof cases
  case (load i)
  then have "answers u = answers t" "answer u = answer t"
    by (auto simp: answers_def answer_def fun_eq_iff)
  with load assms(3,6) show ?thesis by (simp add: accounted_def)
next
  case (count i m)
  let ?D = "answers t - answers s"
  have i: "i \<notin> answers t" using count(2) by (simp add: answers_def)
  have u: "answers u = insert i (answers t)" "\<And>j. j \<noteq> i \<Longrightarrow> answer u j = answer t j"
      "answer u i = sampler_verdict cfg m"
    using count by (auto simp: answers_def answer_def)
  have m: "m = int (n + card ?D) + 1" using count(3) assms(3) by (simp add: accounted_def)
  have D: "answers u - answers s = insert i ?D" "i \<notin> ?D" "finite ?D"
    using i u(1) assms(3,6) by (auto simp: accounted_def)
  have same: "answer u j = answer t j" if "j \<in> ?D" for j using u(2) D(2) that by metis
  have F: "{j \<in> insert i ?D. fst (answer u j)} =
      (if fst (answer u i) then insert i {j \<in> ?D. fst (answer t j)} else {j \<in> ?D. fst (answer t j)})"
    using same by (auto split: if_splits)
  have S: "(\<Sum>j \<in> ?D. snd (answer u j)) = (\<Sum>j \<in> ?D. snd (answer t j))"
    by (rule sum.cong) (use same in auto)
  have card: "card (answers u - answers s) = Suc (card ?D)" using D by simp
  have E: "finite {j \<in> ?D. fst (answer t j)}" "i \<notin> {j \<in> ?D. fst (answer t j)}"
    using D(2,3) by (simp_all only: mem_Collect_eq finite_Collect_conjI Collect_mem_eq simp_thms)
  have passed: "int (card {j \<in> answers u - answers s. fst (answer u j)}) =
      int (card {j \<in> ?D. fst (answer t j)}) + (if fst (answer u i) then 1 else 0)"
    unfolding D(1) F
    by (cases "fst (answer u i)") (use card_insert_disjoint [OF E] in simp_all)
  have reported: "(\<Sum>j \<in> answers u - answers s. snd (answer u j)) = snd (answer u i) + (\<Sum>j \<in> ?D. snd (answer t j))"
    unfolding D(1) using D(2,3) S by simp
  have "se_count (sr_entry u) = m" using count(1) by simp
  with assms(3) m u(3) verdict_counts [OF pos, of "n + card ?D"] D(1,3)
  have "accounted cfg n s u" unfolding accounted_def card passed reported by simp
  with assms(6) u(1) show ?thesis by auto
qed (use assms(2) in \<open>auto simp: period_runs_def\<close>)

text \<open>
  C20. The budget of a period holds under concurrency. While a period runs (nobody is about to start one and
  no pending call is late enough to), any number of calls on a key that has counted \<open>n\<close>, interleaved in any
  way: the calls answered in between are counted exactly, the number of lines they let through is what
  \<open>Initial\<close> and \<open>Thereafter\<close> leave for the calls \<open>n + 1\<close> to \<open>n + c\<close>, and so is the number of lines they report
  as suppressed.
\<close>

theorem sampler_concurrent_budget:
  assumes "0 < sc_initial cfg" and "0 < sc_thereafter cfg"
    and "period_runs cfg now t0 s" and "se_count (sr_entry s) = int n"
    and "(sampler_step cfg now)\<^sup>*\<^sup>* s t" and c: "c = card (answers t - answers s)"
  shows "finite (answers t - answers s) \<and> se_count (sr_entry t) = int (n + c) \<and>
    int (card {i \<in> answers t - answers s. fst (answer t i)}) = sampler_budget cfg (n + c) - sampler_budget cfg n \<and>
    (\<Sum>i \<in> answers t - answers s. snd (answer t i)) = sampler_reports cfg (n + c) - sampler_reports cfg n"
proof -
  have "accounted cfg n s t \<and> answers s \<subseteq> answers t"
    using assms(5)
  proof (induction rule: rtranclp_induct)
    case base
    then show ?case using assms(4) by (simp add: accounted_def)
  next
    case (step t u)
    with running.steps_inv [OF step(1) assms(3)] accounted_step [OF step(2) _ _ assms(1,2)] show ?case by blast
  qed
  then show ?thesis by (simp add: accounted_def c)
qed

text \<open>Two calls on a fresh period with room for one line: the one that adds first passes.\<close>

definition demo_race :: "int \<Rightarrow> sampler_race" where
  "demo_race start = \<lparr>sr_entry = \<lparr>se_count = 0, se_reset_nano = start\<rparr>, sr_pc = (\<lambda>_. Called)\<rparr>"

definition demo_race_config :: sampler_config where
  "demo_race_config = \<lparr>sc_initial = 1, sc_thereafter = 2, sc_period = Second\<rparr>"

theorem sampler_concurrent_budget_witness:
  "\<exists>t. (sampler_step demo_race_config (\<lambda>_. 0))\<^sup>*\<^sup>* (demo_race 0) t \<and> answers t = {0, 1} \<and>
     card {i \<in> answers t. fst (answer t i)} = 1"
proof -
  have r: "period_runs demo_race_config (\<lambda>_. 0) 0 (demo_race 0)"
    by (simp add: period_runs_def demo_race_def demo_race_config_def within_period_def wrap64_def)
  let ?p = "\<lambda>a b. (\<lambda>_. Called)(0 := a, 1 := b) :: nat \<Rightarrow> call_pc"
  let ?s = "\<lambda>k a b. \<lparr>sr_entry = \<lparr>se_count = k, se_reset_nano = 0\<rparr>, sr_pc = ?p a b\<rparr>"
  let ?v = "\<lambda>n. Answered (sampler_verdict demo_race_config n)"
  have "sampler_step demo_race_config (\<lambda>_. 0) (?s 0 Called Called) (?s 0 Counting Called)"
    by (rule to_counting [where i = 0]) (auto simp: demo_race_config_def wrap64_def fun_eq_iff)
  moreover have "sampler_step demo_race_config (\<lambda>_. 0) (?s 0 Counting Called) (?s 0 Counting Counting)"
    by (rule to_counting [where i = 1]) (auto simp: demo_race_config_def wrap64_def fun_eq_iff)
  moreover have "sampler_step demo_race_config (\<lambda>_. 0) (?s 0 Counting Counting) (?s 1 Counting (?v 1))"
    by (rule to_answer [where i = 1]) (auto simp: fun_eq_iff)
  moreover have "sampler_step demo_race_config (\<lambda>_. 0) (?s 1 Counting (?v 1)) (?s 2 (?v 2) (?v 1))"
    by (rule to_answer [where i = 0]) (auto simp: fun_eq_iff)
  ultimately have "(sampler_step demo_race_config (\<lambda>_. 0))\<^sup>*\<^sup>* (?s 0 Called Called) (?s 2 (?v 2) (?v 1))"
    by (meson converse_rtranclp_into_rtranclp rtranclp.rtrancl_refl)
  then have run: "(sampler_step demo_race_config (\<lambda>_. 0))\<^sup>*\<^sup>* (demo_race 0) (?s 2 (?v 2) (?v 1))"
    by (simp add: demo_race_def fun_upd_idem)
  have ans: "answers (?s 2 (?v 2) (?v 1)) - answers (demo_race 0) = {0, 1}"
      "answers (?s 2 (?v 2) (?v 1)) = {0, 1}"
    by (auto simp: answers_def demo_race_def)
  have pos: "0 < sc_initial demo_race_config" "0 < sc_thereafter demo_race_config"
      "se_count (sr_entry (demo_race 0)) = int 0" "(2::nat) = card {0, 1::nat}"
    by (simp_all add: demo_race_config_def demo_race_def)
  have "int (card {i \<in> {0, 1}. fst (answer (?s 2 (?v 2) (?v 1)) i)}) =
      sampler_budget demo_race_config (0 + 2) - sampler_budget demo_race_config 0"
    using sampler_concurrent_budget [OF pos(1,2) r pos(3) run pos(4) [folded ans(1)]] unfolding ans(1) by blast
  moreover have "sampler_budget demo_race_config (0 + 2) - sampler_budget demo_race_config 0 = 1"
    by (simp add: sampler_budget_def demo_race_config_def)
  ultimately show ?thesis using run ans(2) by (intro exI [of _ "?s 2 (?v 2) (?v 1)"]) simp
qed

subsection \<open>At the start of a period\<close>

lemma all_expire:
  assumes "\<forall>i < k. sr_pc s i = Called"
    and "\<forall>i < k. sc_period cfg \<le> wrap64 (now i - se_reset_nano (sr_entry s))"
  shows "m \<le> k \<Longrightarrow> \<exists>t. (sampler_step cfg now)\<^sup>*\<^sup>* s t \<and> sr_entry t = sr_entry s \<and>
    (\<forall>i < m. sr_pc t i = Expired (now i)) \<and> (\<forall>i. m \<le> i \<longrightarrow> sr_pc t i = sr_pc s i)"
proof (induction m)
  case (Suc m)
  then obtain t where t: "(sampler_step cfg now)\<^sup>*\<^sup>* s t" "sr_entry t = sr_entry s"
      "\<forall>i < m. sr_pc t i = Expired (now i)" "\<forall>i. m \<le> i \<longrightarrow> sr_pc t i = sr_pc s i" by auto
  have "sr_pc t m = Called" using t(4) assms(1) Suc.prems by simp
  from sampler_step.load [OF this, of cfg now] t(2) assms(2) Suc.prems
  have "sampler_step cfg now t (t\<lparr>sr_pc := (sr_pc t)(m := Expired (now m))\<rparr>)" by simp
  with t(1) have "(sampler_step cfg now)\<^sup>*\<^sup>* s (t\<lparr>sr_pc := (sr_pc t)(m := Expired (now m))\<rparr>)"
    by (rule rtranclp.rtrancl_into_rtrancl)
  then show ?case using t(2-4)
    by (intro exI [of _ "t\<lparr>sr_pc := (sr_pc t)(m := Expired (now m))\<rparr>"]) (auto simp: less_Suc_eq)
qed auto

lemma all_restart:
  assumes "\<forall>i < k. sr_pc s i = Expired (now i)"
  shows "m \<le> k \<Longrightarrow> \<exists>t. (sampler_step cfg now)\<^sup>*\<^sup>* s t \<and> (0 < m \<longrightarrow> se_count (sr_entry t) = 1) \<and>
    (\<forall>i < m. sr_pc t i = Answered (True, 0)) \<and> (\<forall>i. m \<le> i \<longrightarrow> sr_pc t i = sr_pc s i)"
proof (induction m)
  case (Suc m)
  then obtain t where t: "(sampler_step cfg now)\<^sup>*\<^sup>* s t"
      "\<forall>i < m. sr_pc t i = Answered (True, 0)" "\<forall>i. m \<le> i \<longrightarrow> sr_pc t i = sr_pc s i" by auto
  let ?b = "t\<lparr>sr_entry := (sr_entry t)\<lparr>se_reset_nano := now m\<rparr>, sr_pc := (sr_pc t)(m := Restarting)\<rparr>"
  let ?c = "?b\<lparr>sr_entry := (sr_entry ?b)\<lparr>se_count := 1\<rparr>, sr_pc := (sr_pc ?b)(m := Answered (True, 0))\<rparr>"
  have "sr_pc t m = Expired (now m)" using t(3) assms Suc.prems by simp
  then have "sampler_step cfg now t ?b" by (rule sampler_step.start_period)
  moreover have "sampler_step cfg now ?b ?c" by (rule sampler_step.restart_count) simp
  ultimately have "(sampler_step cfg now)\<^sup>*\<^sup>* s ?c" using t(1) by (meson rtranclp.rtrancl_into_rtrancl)
  then show ?case using t(2,3) by (intro exI [of _ ?c]) (auto simp: less_Suc_eq)
qed auto

text \<open>
  C21. At the start of a period there is no budget. However small \<open>Initial\<close> is, any number of calls that all
  find the old period expired can pass: there is a run in which each of them passes, and the count stands
  at 1 after it as if there had been one.
\<close>

theorem sampler_period_start_unbounded:
  assumes "\<forall>i < k. sr_pc s i = Called" and "0 < k"
    and "\<forall>i < k. sc_period cfg \<le> wrap64 (now i - se_reset_nano (sr_entry s))"
  shows "\<exists>t. (sampler_step cfg now)\<^sup>*\<^sup>* s t \<and> (\<forall>i < k. i \<in> answers t \<and> answer t i = (True, 0)) \<and>
    se_count (sr_entry t) = 1"
proof -
  obtain a where a: "(sampler_step cfg now)\<^sup>*\<^sup>* s a" "\<forall>i < k. sr_pc a i = Expired (now i)"
    using all_expire [OF assms(1,3), of k] by blast
  obtain t where "(sampler_step cfg now)\<^sup>*\<^sup>* a t" "0 < k \<longrightarrow> se_count (sr_entry t) = 1"
      "\<forall>i < k. sr_pc t i = Answered (True, 0)"
    using all_restart [OF a(2), of k] by blast
  with a(1) assms(2) show ?thesis
    by (intro exI [of _ t]) (auto simp: answers_def answer_def intro: rtranclp_trans)
qed

theorem sampler_period_start_unbounded_witness:
  "\<exists>t. (sampler_step demo_race_config (\<lambda>_. 5 * Second))\<^sup>*\<^sup>* (demo_race 0) t \<and>
     (\<forall>i < 3. i \<in> answers t \<and> answer t i = (True, 0)) \<and> se_count (sr_entry t) = 1"
  by (rule sampler_period_start_unbounded) (simp_all add: demo_race_def demo_race_config_def wrap64_def)

end
