(* ===== verification/AmqpLifecycle.thy ===== *)
theory AmqpLifecycle
  imports AmqpOps
begin

section \<open>amqp.go: the reconnecting goroutine as a state machine\<close>

text \<open>
  \<open>handleReconnect\<close> and \<open>handleReInit\<close> run in one goroutine beside the callers. \<open>pc\<close> is where that goroutine
  stands; a step of the system is one step of the goroutine, a \<open>Close\<close> by a caller, or an event of the
  broker. In a \<open>select\<close> any case that can fire may be taken, as in Go; a closed \<open>done\<close> channel can always
  fire, and a notification fires once it is pending.
\<close>

datatype pc =
    LoopTop
  | Dialing
  | ReconnectWait
  | ReInitTop conn_id
  | Initialising conn_id
  | ReInitWait conn_id
  | Serving conn_id
  | Stopped
  | Crashed panic

record amqp_system =
  client :: amqp_client
  at :: pc
  conn_close_pending :: bool
  chan_close_pending :: bool

definition new_system :: "amqp_client \<Rightarrow> amqp_system" where
  "new_system c = \<lparr>client = c, at = LoopTop, conn_close_pending = False, chan_close_pending = False\<rparr>"

subsection \<open>The steps\<close>

text \<open>\<open>connect\<close>: dial with the client's configuration; on success the close listener is replaced.\<close>

definition connect :: "globals \<Rightarrow> err + conn_id \<Rightarrow> amqp_client \<Rightarrow> panic + (err + conn_id) \<times> amqp_client" where
  "connect g dial c =
     (case AmqpConfig g c of
        Inl p \<Rightarrow> Inl p
      | Inr (cfg, c1) \<Rightarrow>
          (case dial of
             Inl e \<Rightarrow> Inr (Inl e, c1)
           | Inr conn \<Rightarrow> Inr (Inr conn, change_connection conn c1)))"

inductive amqp_step :: "globals \<Rightarrow> amqp_system \<Rightarrow> amqp_system \<Rightarrow> bool" for g where
  reconnect_top: "at s = LoopTop \<Longrightarrow>
    amqp_step g s (s\<lparr>at := Dialing, client := (client s)\<lparr>is_ready := False\<rparr>\<rparr>)"
| dial_panic: "at s = Dialing \<Longrightarrow> connect g dial (client s) = Inl p \<Longrightarrow>
    amqp_step g s (s\<lparr>at := Crashed p\<rparr>)"
| dial_failed: "at s = Dialing \<Longrightarrow> connect g dial (client s) = Inr (Inl e, c) \<Longrightarrow>
    amqp_step g s (s\<lparr>at := ReconnectWait, client := c\<rparr>)"
| dial_ok: "at s = Dialing \<Longrightarrow> connect g dial (client s) = Inr (Inr conn, c) \<Longrightarrow>
    amqp_step g s (s\<lparr>at := ReInitTop conn, client := c, conn_close_pending := False\<rparr>)"
| reconnect_done: "at s = ReconnectWait \<Longrightarrow> done_closed (client s) \<Longrightarrow> amqp_step g s (s\<lparr>at := Stopped\<rparr>)"
| reconnect_timer: "at s = ReconnectWait \<Longrightarrow> amqp_step g s (s\<lparr>at := LoopTop\<rparr>)"
| reinit_top: "at s = ReInitTop conn \<Longrightarrow>
    amqp_step g s (s\<lparr>at := Initialising conn, client := (client s)\<lparr>is_ready := False\<rparr>\<rparr>)"
| init_failed: "at s = Initialising conn \<Longrightarrow> amqp_init r (client s) = ((Some e, d), c) \<Longrightarrow>
    amqp_step g s (s\<lparr>at := ReInitWait conn, client := c\<rparr>)"
| init_ok: "at s = Initialising conn \<Longrightarrow> replies_ok r \<Longrightarrow> amqp_init r (client s) = ((None, d), c) \<Longrightarrow>
    amqp_step g s (s\<lparr>at := Serving conn, client := c, chan_close_pending := False\<rparr>)"
| reinit_done: "at s = ReInitWait conn \<Longrightarrow> done_closed (client s) \<Longrightarrow> amqp_step g s (s\<lparr>at := Stopped\<rparr>)"
| reinit_conn_closed: "at s = ReInitWait conn \<Longrightarrow> conn_close_pending s \<Longrightarrow>
    amqp_step g s (s\<lparr>at := LoopTop, conn_close_pending := False\<rparr>)"
| reinit_timer: "at s = ReInitWait conn \<Longrightarrow> amqp_step g s (s\<lparr>at := ReInitTop conn\<rparr>)"
| serve_done: "at s = Serving conn \<Longrightarrow> done_closed (client s) \<Longrightarrow> amqp_step g s (s\<lparr>at := Stopped\<rparr>)"
| serve_conn_closed: "at s = Serving conn \<Longrightarrow> conn_close_pending s \<Longrightarrow>
    amqp_step g s (s\<lparr>at := LoopTop, conn_close_pending := False\<rparr>)"
| serve_chan_closed: "at s = Serving conn \<Longrightarrow> chan_close_pending s \<Longrightarrow>
    amqp_step g s (s\<lparr>at := ReInitTop conn, chan_close_pending := False\<rparr>)"
| broker_conn_closed: "connection (client s) \<noteq> None \<Longrightarrow>
    amqp_step g s (s\<lparr>conn_close_pending := True, chan_close_pending := True\<rparr>)"
| broker_chan_closed: "channel (client s) \<noteq> None \<Longrightarrow> amqp_step g s (s\<lparr>chan_close_pending := True\<rparr>)"
| user_close_failed: "Close x y (client s) = (Inr (Some e), c) \<Longrightarrow> amqp_step g s (s\<lparr>client := c\<rparr>)"
| user_close_ok: "Close None None (client s) = (Inr None, c) \<Longrightarrow>
    amqp_step g s (s\<lparr>client := c, conn_close_pending := True, chan_close_pending := True\<rparr>)"

inductive_cases amqp_stepE: "amqp_step g s t"

subsection \<open>The invariant\<close>

text \<open>
  A client marked ready has a connection and a channel, and while the goroutine dials, initialises or
  waits to retry the client is not marked ready.
\<close>

definition working :: "pc \<Rightarrow> bool" where
  "working p \<longleftrightarrow> (case p of Dialing \<Rightarrow> True | ReconnectWait \<Rightarrow> True | Initialising _ \<Rightarrow> True
     | ReInitWait _ \<Rightarrow> True | _ \<Rightarrow> False)"

definition has_connection :: "pc \<Rightarrow> bool" where
  "has_connection p \<longleftrightarrow> (case p of ReInitTop _ \<Rightarrow> True | Initialising _ \<Rightarrow> True | ReInitWait _ \<Rightarrow> True
     | Serving _ \<Rightarrow> True | _ \<Rightarrow> False)"

lemma pc_simps [simp]:
  "\<not> working LoopTop" "working Dialing" "working ReconnectWait" "\<not> working (ReInitTop n)"
  "working (Initialising n)" "working (ReInitWait n)" "\<not> working (Serving n)" "\<not> working Stopped"
  "\<not> working (Crashed p)"
  "\<not> has_connection LoopTop" "\<not> has_connection Dialing" "\<not> has_connection ReconnectWait"
  "has_connection (ReInitTop n)" "has_connection (Initialising n)" "has_connection (ReInitWait n)"
  "has_connection (Serving n)" "\<not> has_connection Stopped" "\<not> has_connection (Crashed p)"
  by (simp_all add: working_def has_connection_def)

definition amqp_inv :: "amqp_system \<Rightarrow> bool" where
  "amqp_inv s \<longleftrightarrow>
     (working (at s) \<longrightarrow> \<not> is_ready (client s)) \<and>
     (has_connection (at s) \<longrightarrow> connection (client s) \<noteq> None) \<and>
     (is_ready (client s) \<longrightarrow> connection (client s) \<noteq> None \<and> channel (client s) \<noteq> None)"

lemma AmqpConfig_keeps:
  "AmqpConfig g c = Inr (cfg, c') \<Longrightarrow>
   is_ready c' = is_ready c \<and> connection c' = connection c \<and> channel c' = channel c \<and>
   done_closed c' = done_closed c"
  by (auto simp: AmqpConfig_def Let_def split: if_splits option.splits)

lemma connect_keeps:
  "connect g dial c = Inr (r, c') \<Longrightarrow>
   is_ready c' = is_ready c \<and> channel c' = channel c \<and> done_closed c' = done_closed c \<and>
   (connection c' = (case r of Inl e \<Rightarrow> connection c | Inr conn \<Rightarrow> Some conn))"
  by (auto simp: connect_def change_connection_def dest: AmqpConfig_keeps
      split: sum.splits prod.splits)

lemma Close_keeps:
  "Close x y c = (r, c') \<Longrightarrow> connection c' = connection c \<and> channel c' = channel c \<and>
    (is_ready c' \<longrightarrow> is_ready c)"
  by (auto simp: Close_def Let_def split: if_splits option.splits)

lemma amqp_init_keeps:
  "amqp_init r c = ((None, d), c') \<Longrightarrow> replies_ok r \<Longrightarrow>
    is_ready c' \<and> connection c' = connection c \<and> channel c' \<noteq> None"
  by (drule (1) amqp_init_success) (auto simp: ready_with_def change_channel_def)

lemma amqp_step_inv: "amqp_step g s t \<Longrightarrow> amqp_inv s \<Longrightarrow> amqp_inv t"
proof (induction rule: amqp_step.induct)
  case (init_ok s conn r d c)
  then show ?case using amqp_init_keeps [of r "client s" d c] by (simp add: amqp_inv_def)
next
  case (init_failed s conn r e d c)
  then show ?case using amqp_init_failure_keeps [of r "client s" e d c] by (simp add: amqp_inv_def)
next
  case (user_close_failed x y s e c)
  then show ?case using Close_keeps [of x y "client s"] by (auto simp: amqp_inv_def)
next
  case (user_close_ok s c)
  then show ?case using Close_keeps [of None None "client s"] by (auto simp: amqp_inv_def)
qed (auto simp: amqp_inv_def dest: connect_keeps)

interpretation amqp_steps: invariant_steps "amqp_step g" amqp_inv for g
  by unfold_locales (rule amqp_step_inv)

text \<open>The client keeps its queue name, and a new one satisfies the invariant.\<close>

lemma amqp_init_queue: "amqp_init r c = (res, c') \<Longrightarrow> queue_name c' = queue_name c"
  by (auto simp: amqp_init_def ready_with_def change_channel_def Let_def split: sum.splits option.splits prod.splits if_splits)

lemma AmqpConfig_queue: "AmqpConfig g c = Inr (cfg, c') \<Longrightarrow> queue_name c' = queue_name c"
  by (auto simp: AmqpConfig_def Let_def split: if_splits option.splits)

lemma connect_queue: "connect g dial c = Inr (r, c') \<Longrightarrow> queue_name c' = queue_name c"
  by (auto simp: connect_def change_connection_def dest: AmqpConfig_queue split: sum.splits prod.splits)

lemma Close_queue: "Close x y c = (r, c') \<Longrightarrow> queue_name c' = queue_name c"
  by (auto simp: Close_def Let_def split: if_splits option.splits)

lemma amqp_step_queue: "amqp_step g s t \<Longrightarrow> queue_name (client t) = queue_name (client s)"
  by (induction rule: amqp_step.induct) (auto dest: connect_queue amqp_init_queue Close_queue)

lemma amqp_queue: "(amqp_step g)\<^sup>*\<^sup>* s t \<Longrightarrow> queue_name (client t) = queue_name (client s)"
  by (induction rule: rtranclp_induct) (simp_all add: amqp_step_queue)

lemma new_client_inv: "amqp_inv (new_system (NewAmqpClient q n cfg))"
  by (simp add: amqp_inv_def new_system_def NewAmqpClient_def default_amqp_client_def
      set_amqp_config_def Let_def split: option.split)

lemma new_client_queue: "queue_name (client (new_system (NewAmqpClient q n cfg))) = q"
  by (simp add: new_system_def NewAmqpClient_def default_amqp_client_def
      set_amqp_config_def Let_def split: option.split)

text \<open>
  C8. In every reachable state of the client and its reconnecting goroutine, however dials, channel
  set-ups, broker failures and \<open>Close\<close> calls interleave, a client that reports ready holds a
  connection and a channel: neither publishing nor consuming ever dereferences a nil handle.
\<close>

theorem ready_client_never_nil:
  assumes "(amqp_step g)\<^sup>*\<^sup>* (new_system (NewAmqpClient q n cfg)) s"
  shows "fst (PushWithTTL publish data ttl (client s)) \<noteq> Inl NilDereference \<and>
    Consume qos consume (client s) \<noteq> Inl NilDereference \<and>
    (IsReady (client s) \<longrightarrow> connection (client s) \<noteq> None \<and> channel (client s) \<noteq> None)"
proof -
  have "amqp_inv s" using amqp_steps.steps_inv [OF assms new_client_inv] .
  then show ?thesis
    by (auto simp: PushWithTTL_def Consume_def IsReady_def amqp_inv_def Let_def
        split: option.splits sum.splits)
qed

text \<open>A run from the start to the serving state, for the witnesses.\<close>

definition demo_globals :: globals where
  "demo_globals = \<lparr>glob_app_name = ''svc'', glob_app_env = ''dev''\<rparr>"

definition good_replies :: init_replies where
  "good_replies = \<lparr>ir_channel = Inr (Some 5), ir_confirm = None, ir_passive = None,
     ir_channel2 = Inr (Some 6), ir_confirm2 = None, ir_declare = None\<rparr>"

lemma good_init: "amqp_init good_replies c = ((None, False), ready_with (Some 5) c)"
  by (simp add: amqp_init_def good_replies_def check_if_queue_exists_def)

lemma good_replies_ok: "replies_ok good_replies"
  by (simp add: replies_ok_def good_replies_def)

text \<open>From the top of the loop, a good dial and a good initialisation lead to the serving state.\<close>

lemma reach_serving:
  assumes "at s = LoopTop" and "AmqpConfig g ((client s)\<lparr>is_ready := False\<rparr>) = Inr (cfg, c1)"
  shows "(amqp_step g)\<^sup>*\<^sup>* s (s\<lparr>at := Serving conn, conn_close_pending := False,
      chan_close_pending := False, client := ready_with (Some 5) (change_connection conn c1)\<rparr>)"
proof -
  have r: "is_ready c1 = False" using AmqpConfig_keeps [OF assms(2)] by simp
  let ?s1 = "s\<lparr>at := Dialing, client := (client s)\<lparr>is_ready := False\<rparr>\<rparr>"
  have 1: "amqp_step g s ?s1" by (rule amqp_step.reconnect_top) (rule assms(1))
  have c: "connect g (Inr conn) (client ?s1) = Inr (Inr conn, change_connection conn c1)"
    using assms(2) by (simp add: connect_def)
  let ?s2 = "?s1\<lparr>at := ReInitTop conn, client := change_connection conn c1, conn_close_pending := False\<rparr>"
  have 2: "amqp_step g ?s1 ?s2" by (rule amqp_step.dial_ok [OF _ c]) simp
  let ?s3 = "?s2\<lparr>at := Initialising conn, client := (client ?s2)\<lparr>is_ready := False\<rparr>\<rparr>"
  have 3: "amqp_step g ?s2 ?s3" by (rule amqp_step.reinit_top) simp
  let ?s4 = "?s3\<lparr>at := Serving conn, client := ready_with (Some 5) (client ?s3), chan_close_pending := False\<rparr>"
  have 4: "amqp_step g ?s3 ?s4"
    by (rule amqp_step.init_ok [OF _ good_replies_ok good_init]) simp
  have "?s4 = s\<lparr>at := Serving conn, conn_close_pending := False, chan_close_pending := False,
      client := ready_with (Some 5) (change_connection conn c1)\<rparr>"
    using r by (simp add: change_connection_def ready_with_def change_channel_def)
  with 1 2 3 4 show ?thesis
    by (metis (no_types, lifting) converse_rtranclp_into_rtranclp rtranclp.rtrancl_refl)
qed

lemma reach_ready_client:
  "\<exists>s. (amqp_step demo_globals)\<^sup>*\<^sup>* (new_system (NewAmqpClient ''q'' ''n'' None)) s \<and> IsReady (client s)"
proof -
  let ?s0 = "new_system (NewAmqpClient ''q'' ''n'' None)"
  obtain cfg c1 where cfg: "AmqpConfig demo_globals ((client ?s0)\<lparr>is_ready := False\<rparr>) = Inr (cfg, c1)"
    by (simp add: new_system_def NewAmqpClient_def default_amqp_client_def AmqpConfig_def
        default_amqp_config_def Let_def)
  have "at ?s0 = LoopTop" by (simp add: new_system_def)
  note run = reach_serving [OF this cfg, of 9]
  then show ?thesis by (intro exI conjI, assumption) (simp add: IsReady_def ready_with_def)
qed

theorem ready_client_never_nil_witness:
  "\<exists>s. (amqp_step demo_globals)\<^sup>*\<^sup>* (new_system (NewAmqpClient ''q'' ''n'' None)) s \<and> IsReady (client s) \<and>
     connection (client s) \<noteq> None \<and> channel (client s) \<noteq> None"
  using reach_ready_client ready_client_never_nil by blast

subsection \<open>Close is not final\<close>

text \<open>
  C33. A successful \<open>Close\<close> can be undone by the reconnecting goroutine: closing the connection also
  wakes its close notification, Go may pick that case of the \<open>select\<close> before the done channel, and the
  goroutine then dials and initialises again. From every serving state of a ready client there is
  such a run: it ends with the goroutine stopped and the client marked ready (with a fresh
  connection nobody will close), and a further \<open>Close\<close> panics.
\<close>

theorem close_can_be_undone:
  assumes "at s = Serving conn" and "is_ready (client s)" and "\<not> done_closed (client s)"
    and "connection (client s) = Some cn" and "channel (client s) = Some ch"
    and "AmqpConfig g (client s) = Inr (cfg, c1)"
  shows "\<exists>t u. fst (Close None None (client s)) = Inr None \<and> amqp_step g s t \<and>
    client t = snd (Close None None (client s)) \<and> \<not> is_ready (client t) \<and>
    (amqp_step g)\<^sup>*\<^sup>* t u \<and> at u = Stopped \<and> is_ready (client u) \<and> connection (client u) = Some new \<and>
    fst (Close x y (client u)) = Inl CloseOfClosedChannel"
proof -
  let ?c = "(client s)\<lparr>done_closed := True, is_ready := False\<rparr>"
  have close: "Close None None (client s) = (Inr None, ?c)"
    using assms by (simp add: Close_def)
  let ?t = "s\<lparr>client := ?c, conn_close_pending := True, chan_close_pending := True\<rparr>"
  have t: "amqp_step g s ?t" by (rule amqp_step.user_close_ok [OF close])
  let ?v = "?t\<lparr>at := LoopTop, conn_close_pending := False\<rparr>"
  have v: "amqp_step g ?t ?v"
    by (rule amqp_step.serve_conn_closed [of _ conn]) (simp_all add: assms(1))
  obtain c2 where c2: "AmqpConfig g ((client ?v)\<lparr>is_ready := False\<rparr>) = Inr (cfg, c2)"
    using assms(6) by (auto simp: AmqpConfig_def Let_def split: if_splits option.splits)
  have keeps: "done_closed c2" using AmqpConfig_keeps [OF c2] by simp
  have top: "at ?v = LoopTop" by simp
  note run = reach_serving [OF top c2, of new]
  let ?w = "?v\<lparr>at := Serving new, conn_close_pending := False, chan_close_pending := False,
      client := ready_with (Some 5) (change_connection new c2)\<rparr>"
  let ?u = "?w\<lparr>at := Stopped\<rparr>"
  have u: "amqp_step g ?w ?u"
    by (rule amqp_step.serve_done [of _ new])
      (simp_all add: keeps ready_with_def change_channel_def change_connection_def)
  have steps: "(amqp_step g)\<^sup>*\<^sup>* ?t ?u"
    using v run u by (meson converse_rtranclp_into_rtranclp rtranclp.rtrancl_into_rtrancl)
  have fin: "is_ready (client ?u)" "connection (client ?u) = Some new" "done_closed (client ?u)"
    by (simp_all add: keeps ready_with_def change_channel_def change_connection_def)
  then have "fst (Close x y (client ?u)) = Inl CloseOfClosedChannel" by (simp add: Close_def)
  with close t steps fin show ?thesis
    by (intro exI [of _ ?t] exI [of _ ?u]) simp
qed

theorem close_can_be_undone_witness:
  "\<exists>t u. (amqp_step demo_globals)\<^sup>*\<^sup>* t u \<and> \<not> is_ready (client t) \<and> at u = Stopped \<and> is_ready (client u)"
proof -
  let ?s = "(new_system ready_client)\<lparr>at := Serving 0\<rparr>"
  obtain cfg c1 where cfg: "AmqpConfig demo_globals (client ?s) = Inr (cfg, c1)"
    by (simp add: new_system_def ready_client_def default_amqp_client_def AmqpConfig_def Let_def)
  have a: "at ?s = Serving 0" "is_ready (client ?s)" "\<not> done_closed (client ?s)"
      "connection (client ?s) = Some 0" "channel (client ?s) = Some 1"
    by (simp_all add: new_system_def ready_client_def default_amqp_client_def)
  from close_can_be_undone [OF a cfg] show ?thesis by blast
qed

end
