(* ===== verification/LockSystem.thy ===== *)
theory LockSystem
  imports RedisOps
begin

section \<open>Distributed locks among several processes\<close>

text \<open>
  Any number of processes use \<open>AcquireLock\<close> and \<open>ReleaseLock\<close>, each with its own package state, against
  one server. The server does what redsync asks of it, as documented: it stores the ownership value of
  a mutex if the key has none, deletes the key only for the value that is stored, and lets a key expire
  at any time. A request may also fail with its effect done or not done. A process draws a fresh
  ownership value for every mutex. One call is one step.
\<close>

datatype lock_event = Acquire nat string | Release nat string | Expire string

record lock_system =
  ls_server :: "string \<rightharpoonup> nat"
  ls_process :: "nat \<Rightarrow> redis_state"
  ls_owner :: "nat \<Rightarrow> nat"
  ls_next :: nat

text \<open>The possible answers to a lock and to an unlock request, with the effect on the server.\<close>

inductive lock_answer :: "(string \<rightharpoonup> nat) \<Rightarrow> string \<Rightarrow> nat \<Rightarrow> lock_reply \<Rightarrow> (string \<rightharpoonup> nat) \<Rightarrow> bool" where
  granted: "sv key = None \<Longrightarrow> lock_answer sv key i LockGranted (sv(key \<mapsto> i))"
| contended: "sv key = Some j \<Longrightarrow> lock_answer sv key i LockContended sv"
| lost_request: "lock_answer sv key i (LockBroken e) sv"
| lost_answer: "sv key = None \<Longrightarrow> lock_answer sv key i (LockBroken e) (sv(key \<mapsto> i))"

inductive unlock_answer :: "(string \<rightharpoonup> nat) \<Rightarrow> string \<Rightarrow> nat \<Rightarrow> err + bool \<Rightarrow> (string \<rightharpoonup> nat) \<Rightarrow> bool" where
  deleted: "sv key = Some i \<Longrightarrow> unlock_answer sv key i (Inr True) (sv(key := None))"
| not_owner: "sv key \<noteq> Some i \<Longrightarrow> unlock_answer sv key i (Inr False) sv"
| expired: "sv key \<noteq> Some i \<Longrightarrow> unlock_answer sv key i (Inl e) sv"
| lost_unlock: "unlock_answer sv key i (Inl e) sv"
| lost_unlocked: "sv key = Some i \<Longrightarrow> unlock_answer sv key i (Inl e) (sv(key := None))"

inductive lock_step :: "globals \<Rightarrow> conn_reply \<Rightarrow> lock_event \<Rightarrow> lock_system \<Rightarrow> lock_system \<Rightarrow> bool" for g reply where
  acquire: "lock_answer (ls_server s) key (ls_next s) lr sv \<Longrightarrow>
    AcquireLock g reply (ls_next s) lr key ttl (ls_process s p) = (r, st) \<Longrightarrow>
    lock_step g reply (Acquire p key) s (s\<lparr>ls_server := sv, ls_process := (ls_process s)(p := st),
      ls_owner := (ls_owner s)(ls_next s := p), ls_next := Suc (ls_next s)\<rparr>)"
| release: "GetMutex key (mutexes (ls_process s p)) = Some m \<Longrightarrow>
    unlock_answer (ls_server s) (mx_name m) (mx_id m) ur sv \<Longrightarrow>
    ReleaseLock ur key (ls_process s p) = (r, st) \<Longrightarrow>
    lock_step g reply (Release p key) s (s\<lparr>ls_server := sv, ls_process := (ls_process s)(p := st)\<rparr>)"
| release_unknown: "GetMutex key (mutexes (ls_process s p)) = None \<Longrightarrow>
    ReleaseLock ur key (ls_process s p) = (r, st) \<Longrightarrow>
    lock_step g reply (Release p key) s (s\<lparr>ls_process := (ls_process s)(p := st)\<rparr>)"
| expire: "lock_step g reply (Expire key) s (s\<lparr>ls_server := (ls_server s)(key := None)\<rparr>)"

definition any_lock_step :: "globals \<Rightarrow> conn_reply \<Rightarrow> lock_system \<Rightarrow> lock_system \<Rightarrow> bool" where
  "any_lock_step g reply s t \<longleftrightarrow> (\<exists>e. lock_step g reply e s t)"

text \<open>A process holds a lock when the server has the value of the mutex its registry has under the key.\<close>

definition holds :: "lock_system \<Rightarrow> nat \<Rightarrow> string \<Rightarrow> bool" where
  "holds s p key \<longleftrightarrow>
     (\<exists>m. GetMutex key (mutexes (ls_process s p)) = Some m \<and> ls_server s key = Some (mx_id m))"

definition lock_inv :: "lock_system \<Rightarrow> bool" where
  "lock_inv s \<longleftrightarrow> (\<forall>p. redis_ready (ls_process s p)) \<and>
     (\<forall>p key m. GetMutex key (mutexes (ls_process s p)) = Some m \<longrightarrow>
        mx_name m = key \<and> mx_id m < ls_next s \<and> ls_owner s (mx_id m) = p) \<and>
     (\<forall>key i. ls_server s key = Some i \<longrightarrow> i < ls_next s)"

lemma AcquireLock_mutexes:
  assumes "redis_ready st" and "AcquireLock g reply i lr key ttl st = (r, st')"
  shows "redis_ready st' \<and>
    (\<forall>k. GetMutex k (mutexes st') = (if k = key \<and> lr = LockGranted
       then Some \<lparr>mx_id = i, mx_name = key, mx_expiry = ttl, mx_tries = None, mx_retry_delay = None\<rparr>
       else GetMutex k (mutexes st)))"
proof -
  obtain c where "red_sync_once st = OnceDone" "red_sync_err st = None" "red_sync st = Some c"
    using assms(1) by (auto simp: redis_ready_def)
  with assms show ?thesis
    by (cases lr) (auto simp: AcquireLock_ready Let_def redis_ready_def)
qed

lemma ReleaseLock_mutexes:
  assumes "ReleaseLock ur key st = (r, st')"
  shows "(redis_ready st \<longrightarrow> redis_ready st') \<and>
    (\<forall>k. GetMutex k (mutexes st') = (if k = key \<and> ur = Inr True then None else GetMutex k (mutexes st)))"
  using assms
  by (cases "GetMutex key (mutexes st)") (auto simp: ReleaseLock_def Let_def redis_ready_def split: sum.splits if_splits)


lemma lock_answer_server:
  "lock_answer sv key i lr sv' \<Longrightarrow> sv' = sv \<and> lr \<noteq> LockGranted \<or> sv key = None \<and> sv' = sv(key \<mapsto> i)"
  by (auto elim: lock_answer.cases)

lemma unlock_answer_server:
  "unlock_answer sv key i ur sv' \<Longrightarrow>
   (sv' = sv \<and> ur \<noteq> Inr True) \<or> (sv key = Some i \<and> sv' = sv(key := None))"
  by (auto elim: unlock_answer.cases)

lemma lock_step_inv:
  assumes "lock_step g reply e s t" and "lock_inv s"
  shows "lock_inv t"
  using assms(1)
proof cases
  case (acquire key lr sv ttl p r st)
  have "redis_ready (ls_process s p)" using assms(2) by (simp add: lock_inv_def)
  note a = AcquireLock_mutexes [OF this acquire(4)]
  have old: "mx_id m \<noteq> ls_next s" if "GetMutex k (mutexes (ls_process s q)) = Some m" for k q m
    using that assms(2) unfolding lock_inv_def by (metis less_irrefl)
  from acquire(2) a assms(2) lock_answer_server [OF acquire(3)] show ?thesis
    by (auto simp: lock_inv_def less_Suc_eq dest: old split: if_splits)
next
  case (release key p m ur sv r st)
  with ReleaseLock_mutexes [OF release(5)] unlock_answer_server [OF release(4)] assms(2) show ?thesis
    by (auto simp: lock_inv_def split: if_splits)
next
  case (release_unknown key p ur r st)
  with ReleaseLock_mutexes [OF release_unknown(4)] assms(2) show ?thesis
    by (auto simp: lock_inv_def split: if_splits)
next
  case (expire key)
  with assms(2) show ?thesis by (auto simp: lock_inv_def)
qed

interpretation locks: invariant_steps "any_lock_step g reply" lock_inv for g reply
  by unfold_locales (auto simp: any_lock_step_def intro: lock_step_inv)


lemma lock_run_step:
  "(any_lock_step g reply)\<^sup>*\<^sup>* s t \<Longrightarrow> lock_step g reply e t u \<Longrightarrow> (any_lock_step g reply)\<^sup>*\<^sup>* s u"
  by (rule rtranclp.rtrancl_into_rtrancl) (auto simp: any_lock_step_def)

definition idle_processes :: "(nat \<Rightarrow> redis_state) \<Rightarrow> lock_system" where
  "idle_processes start = \<lparr>ls_server = Map.empty, ls_process = start, ls_owner = (\<lambda>_. 0), ls_next = 0\<rparr>"

lemma idle_inv:
  "\<forall>p. redis_ready (start p) \<and> mutexes (start p) = Map.empty \<Longrightarrow> lock_inv (idle_processes start)"
  by (simp add: lock_inv_def idle_processes_def GetMutex_def)

lemma holds_unique: "lock_inv s \<Longrightarrow> holds s p key \<Longrightarrow> holds s q key \<Longrightarrow> p = q"
  unfolding lock_inv_def holds_def by (metis option.inject)

lemma step_of_others_keeps:
  assumes "lock_step g reply e s t" and "lock_inv s" and "holds s p key"
    and "e \<noteq> Expire key" and "e \<noteq> Release p key"
  shows "holds t p key"
proof -
  obtain m where m: "GetMutex key (mutexes (ls_process s p)) = Some m" "ls_server s key = Some (mx_id m)"
    using assms(3) by (auto simp: holds_def)
  have inv: "GetMutex k (mutexes (ls_process s q)) = Some m' \<Longrightarrow> mx_name m' = k \<and> ls_owner s (mx_id m') = q" for k q m'
    using assms(2) by (simp add: lock_inv_def)
  from assms(1) show ?thesis
  proof cases
    case (acquire k lr sv ttl q r st)
    have "redis_ready (ls_process s q)" using assms(2) by (simp add: lock_inv_def)
    note a = AcquireLock_mutexes [OF this acquire(4)]
    have "lr \<noteq> LockGranted" if "k = key"
      using acquire(3) m(2) that by (auto elim: lock_answer.cases)
    then have "GetMutex key (mutexes st) = GetMutex key (mutexes (ls_process s q))" using a by auto
    moreover have "sv key = Some (mx_id m)" using lock_answer_server [OF acquire(3)] m(2) by auto
    ultimately show ?thesis using m(1) acquire(2) by (auto simp: holds_def)
  next
    case (release k q m' ur sv r st)
    note k = inv [OF release(3)]
    have ne: "k \<noteq> key \<or> ls_server s k \<noteq> Some (mx_id m')"
    proof (rule ccontr)
      assume "\<not> ?thesis"
      then have "k = key" and "mx_id m' = mx_id m" using m(2) by auto
      with k inv [OF m(1)] release(1) assms(5) show False by simp
    qed
    then have "sv key = Some (mx_id m)" using unlock_answer_server [OF release(4)] m(2) k by auto
    moreover have "ur \<noteq> Inr True" if "k = key"
      using unlock_answer_server [OF release(4)] ne k that by auto
    then have "GetMutex key (mutexes st) = GetMutex key (mutexes (ls_process s q))"
      using ReleaseLock_mutexes [OF release(5)] by auto
    ultimately show ?thesis using m(1) release(2) by (auto simp: holds_def)
  next
    case (release_unknown k q ur r st)
    have "GetMutex key (mutexes st) = GetMutex key (mutexes (ls_process s q)) \<or> q \<noteq> p"
      using ReleaseLock_mutexes [OF release_unknown(4)] release_unknown(3) m(1) by auto
    then show ?thesis using m release_unknown(2) by (auto simp: holds_def)
  next
    case (expire k)
    with m assms(4) show ?thesis by (auto simp: holds_def)
  qed
qed


text \<open>
  C9. Locks exclude each other across processes: in every reachable state, whatever the calls, lost
  requests, lost answers and expiries, at most one process holds the lock of a key, and a process that
  holds it only loses it by its own \<open>ReleaseLock\<close> of that key or by expiry, never by what another
  process does, not even by one whose own lock on the key expired earlier.
\<close>

theorem held_lock_lost_only_by_holder:
  assumes "\<forall>p. redis_ready (start p) \<and> mutexes (start p) = Map.empty"
    and "(any_lock_step g reply)\<^sup>*\<^sup>* (idle_processes start) s"
  shows "(holds s p key \<and> holds s q key \<longrightarrow> p = q) \<and>
    (lock_step g reply e s t \<and> holds s p key \<and> \<not> holds t p key \<longrightarrow> e = Expire key \<or> e = Release p key)"
proof -
  have "lock_inv s" by (rule locks.steps_inv [OF assms(2) idle_inv [OF assms(1)]])
  then show ?thesis using holds_unique step_of_others_keeps by blast
qed

definition demo_lock_globals :: globals where
  "demo_lock_globals = \<lparr>glob_app_name = ''svc'', glob_app_env = ''dev''\<rparr>"

text \<open>Process 1 takes the lock, it expires, process 2 takes it; the late release of process 1 does not free it.\<close>

theorem held_lock_lost_only_by_holder_witness:
  "\<exists>s t. (any_lock_step demo_lock_globals (9, None))\<^sup>*\<^sup>* (idle_processes (\<lambda>_. alive_redis_state)) s \<and>
     holds s 2 ''k'' \<and> GetMutex ''k'' (mutexes (ls_process s 1)) \<noteq> None \<and>
     lock_step demo_lock_globals (9, None) (Release 1 ''k'') s t \<and> holds t 2 ''k''"
proof -
  let ?s0 = "idle_processes (\<lambda>_. alive_redis_state)"
  let ?m = "\<lambda>i. \<lparr>mx_id = i, mx_name = ''k'', mx_expiry = Second, mx_tries = None, mx_retry_delay = None\<rparr>"
  let ?acq = "\<lambda>i st. (send_cmd (LockMutex (?m i)) st)\<lparr>mutexes := StoreMutex ''k'' (Some (?m i)) (mutexes st)\<rparr>"
  have start: "\<forall>p::nat. redis_ready alive_redis_state \<and> mutexes alive_redis_state = Map.empty"
    using alive_ready by (simp add: alive_redis_state_def initial_redis_state_def)
  have a: "AcquireLock demo_lock_globals (9, None) i LockGranted ''k'' Second alive_redis_state =
      (Returned (True, None), ?acq i alive_redis_state)" for i
    by (subst AcquireLock_ready [where pool = 1]) (simp_all add: alive_redis_state_def initial_redis_state_def Let_def)
  let ?s1 = "?s0\<lparr>ls_server := [''k'' \<mapsto> 0], ls_process := (ls_process ?s0)(1 := ?acq 0 alive_redis_state),
      ls_owner := (ls_owner ?s0)(0 := 1), ls_next := 1\<rparr>"
  have 1: "lock_step demo_lock_globals (9, None) (Acquire 1 ''k'') ?s0 ?s1"
    using lock_step.acquire [of ?s0 "''k''" LockGranted "[''k'' \<mapsto> 0]" demo_lock_globals "(9, None)" Second 1] a [of 0]
    by (auto simp: idle_processes_def intro: lock_answer.granted)
  let ?s2 = "?s1\<lparr>ls_server := Map.empty\<rparr>"
  have 2: "lock_step demo_lock_globals (9, None) (Expire ''k'') ?s1 ?s2"
    using lock_step.expire [of demo_lock_globals "(9, None)" "''k''" ?s1] by simp
  let ?s3 = "?s2\<lparr>ls_server := [''k'' \<mapsto> 1], ls_process := (ls_process ?s2)(2 := ?acq 1 alive_redis_state),
      ls_owner := (ls_owner ?s2)(1 := 2), ls_next := 2\<rparr>"
  have 3: "lock_step demo_lock_globals (9, None) (Acquire 2 ''k'') ?s2 ?s3"
    using lock_step.acquire [of ?s2 "''k''" LockGranted "[''k'' \<mapsto> 1]" demo_lock_globals "(9, None)" Second 2] a [of 1]
    by (auto simp: idle_processes_def numeral_2_eq_2 intro: lock_answer.granted)
  have run: "(any_lock_step demo_lock_globals (9, None))\<^sup>*\<^sup>* ?s0 ?s3"
    by (rule lock_run_step [OF lock_run_step [OF lock_run_step [OF rtranclp.rtrancl_refl 1] 2] 3])
  have g: "GetMutex ''k'' (mutexes (ls_process ?s3 1)) = Some (?m 0)" by simp
  have h: "holds ?s3 2 ''k''" by (simp add: holds_def)
  obtain r st where rel: "ReleaseLock (Inr False) ''k'' (ls_process ?s3 1) = (r, st)"
    by (cases "ReleaseLock (Inr False) ''k'' (ls_process ?s3 1)")
  have u: "unlock_answer (ls_server ?s3) (mx_name (?m 0)) (mx_id (?m 0)) (Inr False) (ls_server ?s3)"
    by (rule unlock_answer.not_owner) simp
  note 4 = lock_step.release [OF g u rel, of demo_lock_globals "(9, None)"]
  have "\<exists>s t. (any_lock_step demo_lock_globals (9, None))\<^sup>*\<^sup>* ?s0 s \<and> holds s 2 ''k'' \<and>
     GetMutex ''k'' (mutexes (ls_process s 1)) \<noteq> None \<and>
     lock_step demo_lock_globals (9, None) (Release 1 ''k'') s t"
    by (intro exI conjI, rule run, rule h, simp only: g, simp, rule 4)
  then obtain s t where s: "(any_lock_step demo_lock_globals (9, None))\<^sup>*\<^sup>* ?s0 s" "holds s 2 ''k''"
     "GetMutex ''k'' (mutexes (ls_process s 1)) \<noteq> None"
     "lock_step demo_lock_globals (9, None) (Release 1 ''k'') s t" by blast
  have "holds t 2 ''k''"
    using held_lock_lost_only_by_holder [OF start s(1), of 2 "''k''" 2 "Release 1 ''k''" t] s(2,4) by auto
  with s show ?thesis by blast
qed

end
