(* ===== verification/StoreSpec.thy ===== *)
theory StoreSpec
  imports RedisOps Interfaces
begin

section \<open>The store as a map whose entries expire\<close>

text \<open>
  What services rely on when they store, read and delete keys. Any number of processes, in any state
  (configured or not, connected, cut off, or blocked for ever), use one server, connect and reconnect; the
  server does what Redis and \<^verbatim>\<open>go-redis\<close> document: \<open>SET\<close> with a positive duration makes the entry expire after
  that duration in whole milliseconds (at least one), without one it stays, and a \<open>GET\<close> finds what has not
  expired. A request or its answer may be lost. Time passes in between. A call that panics or never
  returns is a step as well: what it did to the process stays.
\<close>

subsection \<open>The server\<close>

record redis_server =
  sv_data :: "string \<rightharpoonup> string \<times> int option"
  sv_now :: int

definition entry_at :: "int \<Rightarrow> string \<times> int option \<Rightarrow> string option" where
  "entry_at now e = (case snd e of None \<Rightarrow> Some (fst e) | Some d \<Rightarrow> if now < d then Some (fst e) else None)"

definition visible :: "redis_server \<Rightarrow> string \<Rightarrow> string option" where
  "visible sv k = Option.bind (sv_data sv k) (entry_at (sv_now sv))"

definition get_answer :: "redis_server \<Rightarrow> string \<Rightarrow> err + string" where
  "get_answer sv k = (case visible sv k of None \<Rightarrow> Inl ''redis: nil'' | Some v \<Rightarrow> Inr v)"

definition put_entry :: "string \<Rightarrow> string \<Rightarrow> int option \<Rightarrow> redis_server \<Rightarrow> redis_server" where
  "put_entry k v d sv = sv\<lparr>sv_data := (sv_data sv)(k \<mapsto> (v, d))\<rparr>"

definition drop_entry :: "string \<Rightarrow> redis_server \<Rightarrow> redis_server" where
  "drop_entry k sv = sv\<lparr>sv_data := (sv_data sv)(k := None)\<rparr>"

text \<open>The commands that open, name and close a connection do not touch the data.\<close>

fun conn_cmd :: "redis_cmd \<Rightarrow> bool" where
  "conn_cmd (Ping ro) = True"
| "conn_cmd (CloseClient c) = True"
| "conn_cmd (SetName c n) = True"
| "conn_cmd (GetName c) = True"
| "conn_cmd cmd = False"

inductive served :: "redis_cmd list \<Rightarrow> redis_server \<Rightarrow> redis_server \<Rightarrow> bool" where
  served_none: "served [] sv sv"
| served_set: "ttl \<le> 0 \<Longrightarrow> served cmds (put_entry k v None sv) sv' \<Longrightarrow> served (SetKey c k v ttl # cmds) sv sv'"
| served_set_for: "0 < ttl \<Longrightarrow> sv_now sv + ttl - Millisecond < d \<Longrightarrow> d \<le> sv_now sv + max ttl Millisecond \<Longrightarrow>
    sv_now sv < d \<Longrightarrow> served cmds (put_entry k v (Some d) sv) sv' \<Longrightarrow> served (SetKey c k v ttl # cmds) sv sv'"
| served_del: "served cmds (drop_entry k sv) sv' \<Longrightarrow> served (DelKey c k # cmds) sv sv'"
| served_get: "served cmds sv sv' \<Longrightarrow> served (GetKey c k # cmds) sv sv'"
| served_conn: "conn_cmd cmd \<Longrightarrow> served cmds sv sv' \<Longrightarrow> served (cmd # cmds) sv sv'"

inductive_simps served_simps:
  "served [] sv sv'" "served [SetKey c k v ttl] sv sv'" "served [DelKey c k] sv sv'" "served [GetKey c k] sv sv'"

inductive_cases served_SetE: "served [SetKey c k v ttl] sv sv'"

inductive_cases served_ConsE: "served (cmd # cmds) sv sv'"

lemma served_conn_cmds [simp]: "list_all conn_cmd cs \<Longrightarrow> served (cs @ cmds) sv sv' = served cmds sv sv'"
proof (induction cs)
  case (Cons cmd cs)
  then show ?case by (auto intro: served_conn elim: served_ConsE)
qed simp

subsection \<open>Processes and the server\<close>

datatype 'd store_event =
    Put nat string 'd int "err option outcome"
  | Keep nat string 'd "err option outcome"
  | Fetch nat string "(string \<times> err option) outcome"
  | Remove nat string "err option outcome"
  | Connect nat "err option outcome"
  | Start nat "err option outcome"
  | TimePasses

record store_system =
  ss_process :: "nat \<Rightarrow> redis_state"
  ss_server :: redis_server

definition after_call :: "nat \<Rightarrow> redis_state \<Rightarrow> redis_server \<Rightarrow> store_system \<Rightarrow> store_system" where
  "after_call p st sv s = s\<lparr>ss_process := (ss_process s)(p := st), ss_server := sv\<rparr>"

inductive store_step ::
  "globals \<Rightarrow> env \<Rightarrow> ('d \<Rightarrow> err + string) \<Rightarrow> 'd store_event \<Rightarrow> store_system \<Rightarrow> store_system \<Rightarrow> bool"
  for g ev marshal where
  put: "StoreRedis g ev reply marshal e k data duration (ss_process s p) = (r, st) \<Longrightarrow>
    served (new_cmds (ss_process s p) st) (ss_server s) sv \<Longrightarrow>
    store_step g ev marshal (Put p k data duration r) s (after_call p st sv s)"
| put_lost: "StoreRedis g ev reply marshal (Some e) k data duration (ss_process s p) = (r, st) \<Longrightarrow>
    store_step g ev marshal (Put p k data duration r) s (after_call p st (ss_server s) s)"
| keep: "StoreRedisNoExpiry g reply marshal e k data (ss_process s p) = (r, st) \<Longrightarrow>
    served (new_cmds (ss_process s p) st) (ss_server s) sv \<Longrightarrow>
    store_step g ev marshal (Keep p k data r) s (after_call p st sv s)"
| keep_lost: "StoreRedisNoExpiry g reply marshal (Some e) k data (ss_process s p) = (r, st) \<Longrightarrow>
    store_step g ev marshal (Keep p k data r) s (after_call p st (ss_server s) s)"
| fetch: "GetRedis g reply (Some (get_answer (ss_server s) k)) k (ss_process s p) = (r, st) \<Longrightarrow>
    served (new_cmds (ss_process s p) st) (ss_server s) sv \<Longrightarrow>
    store_step g ev marshal (Fetch p k r) s (after_call p st sv s)"
| fetch_lost: "GetRedis g reply (Some (Inl e)) k (ss_process s p) = (r, st) \<Longrightarrow>
    store_step g ev marshal (Fetch p k r) s (after_call p st (ss_server s) s)"
| remove: "DeleteRedis g reply (Some e) k (ss_process s p) = (r, st) \<Longrightarrow>
    served (new_cmds (ss_process s p) st) (ss_server s) sv \<Longrightarrow>
    store_step g ev marshal (Remove p k r) s (after_call p st sv s)"
| remove_lost: "DeleteRedis g reply (Some (Some e)) k (ss_process s p) = (r, st) \<Longrightarrow>
    store_step g ev marshal (Remove p k r) s (after_call p st (ss_server s) s)"
| connect: "GetRedisClient g reply host port pw db (ss_process s p) = (r, st) \<Longrightarrow>
    served (new_cmds (ss_process s p) st) (ss_server s) sv \<Longrightarrow>
    store_step g ev marshal (Connect p r) s (after_call p st sv s)"
| start: "InitializeRedisWithRetry g replies opts (ss_process s p) = (r, sleeps, st) \<Longrightarrow>
    served (new_cmds (ss_process s p) st) (ss_server s) sv \<Longrightarrow>
    store_step g ev marshal (Start p r) s (after_call p st sv s)"
| pass: "0 < n \<Longrightarrow> store_step g ev marshal TimePasses s
    (s\<lparr>ss_server := (ss_server s)\<lparr>sv_now := sv_now (ss_server s) + n\<rparr>\<rparr>)"

subsection \<open>The specification\<close>

text \<open>
  A map of values with deadlines, and the time. A call that returned nil has had exactly its effect: the
  encoded value is under its key, with a deadline the requested duration ahead (brought between 0 and
  \<open>MaxTTL\<close>, 0 meaning for ever; Redis counts in milliseconds), or the key is gone. A call that failed, panicked
  or never returned has had this effect or none. A read that returned a value without error returned the
  one under its key, not expired. Nothing else changes the map.
\<close>

type_synonym timed_map = "(string \<rightharpoonup> string \<times> int option) \<times> int"

definition deadline :: "int \<Rightarrow> int \<Rightarrow> int option \<Rightarrow> bool" where
  "deadline ttl now d \<longleftrightarrow>
     (case d of None \<Rightarrow> ttl = 0
      | Some x \<Rightarrow> 0 < ttl \<and> now < x \<and> now + ttl - Millisecond < x \<and> x \<le> now + max ttl Millisecond)"

inductive timed_step ::
  "env \<Rightarrow> ('d \<Rightarrow> err + string) \<Rightarrow> 'd store_event \<Rightarrow> timed_map \<Rightarrow> timed_map \<Rightarrow> bool" for ev marshal where
  timed_put: "marshal data = Inr json \<Longrightarrow> deadline (max 0 (min duration (MaxTTL ev))) now d \<Longrightarrow>
    timed_step ev marshal (Put p k data duration r) (es, now) (es(k \<mapsto> (json, d)), now)"
| timed_put_failed: "r \<noteq> Returned None \<Longrightarrow> timed_step ev marshal (Put p k data duration r) tm tm"
| timed_keep: "marshal data = Inr json \<Longrightarrow>
    timed_step ev marshal (Keep p k data r) (es, now) (es(k \<mapsto> (json, None)), now)"
| timed_keep_failed: "r \<noteq> Returned None \<Longrightarrow> timed_step ev marshal (Keep p k data r) tm tm"
| timed_remove: "timed_step ev marshal (Remove p k r) (es, now) (es(k := None), now)"
| timed_remove_failed: "r \<noteq> Returned None \<Longrightarrow> timed_step ev marshal (Remove p k r) tm tm"
| timed_fetch: "(\<And>v. r = Returned (v, None) \<Longrightarrow> \<exists>d. fst tm k = Some (v, d) \<and> (\<forall>x. d = Some x \<longrightarrow> snd tm < x)) \<Longrightarrow>
    timed_step ev marshal (Fetch p k r) tm tm"
| timed_connect: "timed_step ev marshal (Connect p r) tm tm"
| timed_start: "timed_step ev marshal (Start p r) tm tm"
| timed_pass: "0 < n \<Longrightarrow> timed_step ev marshal TimePasses (es, now) (es, now + n)"

definition timed_of :: "store_system \<Rightarrow> timed_map" where
  "timed_of s = (sv_data (ss_server s), sv_now (ss_server s))"

definition deadlines_near :: "int \<Rightarrow> timed_map \<Rightarrow> bool" where
  "deadlines_near m tm \<longleftrightarrow> (\<forall>k v d. fst tm k = Some (v, Some d) \<longrightarrow> d \<le> snd tm + m)"

subsection \<open>What one call does\<close>

definition ttl_configured :: "env \<Rightarrow> bool" where
  "ttl_configured ev \<longleftrightarrow> (\<forall>n. atoi (ev ''REDIS_MAX_TTL_MINUTES'') = Some n \<longrightarrow> n \<le> 153722867)"

lemma clamp_in_bounds:
  assumes "ttl_configured ev"
  shows "clamp_store_ttl ev d \<le> MaxTTL ev" and "Minute \<le> MaxTTL ev" and "0 \<le> clamp_store_ttl ev d"
proof -
  obtain n where n: "n > 0" "MaxTTL ev = n * Minute"
    using MaxTTL_exact [of ev] assms by (auto simp: ttl_configured_def)
  then show "Minute \<le> MaxTTL ev" by simp
  with n show "clamp_store_ttl ev d \<le> MaxTTL ev" "0 \<le> clamp_store_ttl ev d"
    by (simp_all add: clamp_store_ttl_def)
qed

text \<open>What a call adds to the trace when it sends nothing but connection commands.\<close>

definition only_conn :: "redis_state \<Rightarrow> redis_state \<Rightarrow> bool" where
  "only_conn st st' \<longleftrightarrow> (\<exists>cs. redis_sent st' = redis_sent st @ cs \<and> list_all conn_cmd cs)"

lemma only_conn_refl [simp]: "only_conn st st"
  by (simp add: only_conn_def)

lemma only_conn_same: "redis_sent st' = redis_sent st \<Longrightarrow> only_conn st st'"
  by (simp add: only_conn_def)

lemma only_conn_trans [trans]: "only_conn st st1 \<Longrightarrow> only_conn st1 st' \<Longrightarrow> only_conn st st'"
  by (auto simp: only_conn_def)

lemma only_conn_send: "conn_cmd cmd \<Longrightarrow> only_conn st (send_cmd cmd st)"
  by (simp add: only_conn_def)

lemma only_conn_frame:
  "redis_sent st1 = redis_sent st \<Longrightarrow> only_conn st1 st' = only_conn st st'"
  "redis_sent st2 = redis_sent st' \<Longrightarrow> only_conn st st2 = only_conn st st'"
  by (simp_all add: only_conn_def)

lemma connecting_only:
  "only_conn st (snd (init_redis_client g reply opt st))"
  "only_conn st (snd (GetRedisPoolClient g reply st))"
  "only_conn st (snd (InitRedSyncOnce g reply st))"
proof (induction g reply opt st and g reply st and g reply st
    rule: init_redis_client_GetRedisPoolClient_InitRedSyncOnce.induct)
  case (1 g reply opt st)
  show ?case
  proof (cases "opt = None \<or> snd reply \<noteq> None")
    case True
    then show ?thesis
      unfolding init_redis_client.simps [of g reply opt st]
      by (auto simp: only_conn_def Let_def split: option.split)
  next
    case False
    then obtain ro where ro: "opt = Some ro" "snd reply = None" by auto
    let ?st1 = "(send_cmd (Ping ro) st)\<lparr>pool_client := Some (fst reply)\<rparr>"
    let ?st2 = "if get_app_name g \<noteq> []
      then send_cmd (GetName (fst reply)) (send_cmd (SetName (fst reply) (get_app_name g)) ?st1) else ?st1"
    have "only_conn ?st2 (snd (InitRedSyncOnce g reply ?st2))" by (rule 1 [OF ro(1) refl refl ro(2) refl refl])
    moreover have "only_conn st ?st2" by (simp add: only_conn_def)
    moreover obtain x st3 where "InitRedSyncOnce g reply ?st2 = (x, st3)" by fastforce
    ultimately show ?thesis
      unfolding init_redis_client.simps [of g reply opt st]
      using ro only_conn_trans [of st ?st2 st3] by (cases x) (simp_all add: Let_def)
  qed
next
  case (2 g reply st)
  show ?case
  proof (cases "redis_opts st = None \<or> pool_client st \<noteq> None \<or> reconnect_mu st")
    case True
    then show ?thesis unfolding GetRedisPoolClient.simps [of g reply st] by (auto split: option.split)
  next
    case False
    then obtain ro where ro: "redis_opts st = Some ro" "pool_client st = None" "\<not> reconnect_mu st" by auto
    obtain x st1 where "init_redis_client g reply (Some ro) (st\<lparr>reconnect_mu := True\<rparr>) = (x, st1)" by fastforce
    with 2 [OF ro] ro show ?thesis
      unfolding GetRedisPoolClient.simps [of g reply st]
      by (cases x) (auto simp: only_conn_def split: option.split)
  qed
next
  case (3 g reply st)
  show ?case
  proof (cases "red_sync_once st")
    case OnceNew
    obtain x st1 where "GetRedisPoolClient g reply (st\<lparr>red_sync_once := OnceRunning\<rparr>) = (x, st1)" by fastforce
    with 3 [OF OnceNew] OnceNew show ?thesis
      unfolding InitRedSyncOnce.simps [of g reply st]
      by (cases x) (auto simp: only_conn_def split: sum.split)
  qed (simp_all add: InitRedSyncOnce.simps [of g reply st])
qed

lemma InitRedisOptions_only: "only_conn st (snd (InitRedisOptions raw st))"
  by (rule only_conn_same) (simp add: InitRedisOptions_def Let_def split: option.split prod.split)

lemma GetRedisClient_only: "only_conn st (snd (GetRedisClient g reply host port pw db st))"
proof (cases "GetRedisOptions st")
  case None
  let ?raw = "\<lparr>ro_addr = host @ '':'' @ port, ro_username = [], ro_password = pw, ro_db = db, ro_max_retries = 0,
    ro_min_retry_backoff = 0, ro_max_retry_backoff = 0, ro_read_timeout = 0, ro_conn_max_idle_time = 0\<rparr>"
  obtain x st1 where i: "InitRedisOptions ?raw st = (x, st1)" by fastforce
  with InitRedisOptions_only [of st ?raw] have "only_conn st st1" by simp
  with i None only_conn_trans [OF this connecting_only(1)] show ?thesis
    by (cases x) (simp_all add: GetRedisClient_def)
qed (simp add: GetRedisClient_def connecting_only)

lemma connect_loop_only: "only_conn st (snd (snd (connect_loop g replies n d m a e st)))"
proof (induction m arbitrary: a e st)
  case (Suc m)
  obtain x st1 where i: "init_redis_client g (replies a) (GetRedisOptions st) st = (x, st1)" by fastforce
  with connecting_only(1) [of st g "replies a" "GetRedisOptions st"] have "only_conn st st1" by simp
  with i only_conn_trans [OF this Suc.IH] show ?case
    by (cases x) (auto simp: Let_def split_beta split: option.split)
qed simp

lemma InitializeRedisWithRetry_only: "only_conn st (snd (snd (InitializeRedisWithRetry g replies opts st)))"
proof -
  let ?st1 = "set_redis_lock_key (''redis_lock:'' @ get_app_name g @ '':'') st"
  define n where "n = (if rio_max_retries opts = 0 then 3 else rio_max_retries opts)"
  define d where "d = (if rio_retry_delay opts = 0 then Second else rio_retry_delay opts)"
  obtain x st2 where i: "InitRedisOptions (rio_options opts) ?st1 = (x, st2)" by fastforce
  obtain r sleeps st3 where l: "connect_loop g replies n d (nat n) 1 None st2 = (r, sleeps, st3)"
    by (metis prod.collapse)
  have "only_conn st ?st1" by (simp add: only_conn_same set_redis_lock_key_def)
  also have "only_conn ?st1 st2" using InitRedisOptions_only [of ?st1 "rio_options opts"] i by simp
  finally have o2: "only_conn st st2" .
  also have "only_conn st2 st3" using connect_loop_only [of st2 g replies n d "nat n" 1 None] l by simp
  finally have o3: "only_conn st st3" .
  note run = InitializeRedisWithRetry_def [of g replies opts st, unfolded Let_def n_def [symmetric] d_def [symmetric] i]
  show ?thesis
  proof (cases x)
    case (Returned ro)
    show ?thesis
    proof (cases r)
      case r: (Returned y)
      show ?thesis by (cases y) (use Returned r l o3 in \<open>auto simp: run split: option.split\<close>)
    qed (use Returned l o3 in \<open>simp_all add: run\<close>)
  qed (use o2 in \<open>simp_all add: run\<close>)
qed

text \<open>A call through the pool: it reaches the server with a client, or sends connection commands only.\<close>

lemma with_pool_client_cases:
  assumes "with_pool_client g reply k fail st = (r, st')"
  obtains (served) c st1 where "only_conn st st1" "k c st1 = (r, st')"
    | (failed) "only_conn st st'" "\<And>x. r = Returned x \<Longrightarrow> \<exists>e. x = fail e"
proof -
  obtain x st1 where p: "GetRedisPoolClient g reply st = (x, st1)" by fastforce
  with connecting_only(2) [of st g reply] have o: "only_conn st st1" by simp
  show thesis
  proof (cases "\<exists>c. x = Returned (Inr (Some c))")
    case True
    then obtain c where "x = Returned (Inr (Some c))" by blast
    with assms p o show thesis by (intro served [of st1 c]) (auto simp: with_pool_client_def)
  next
    case False
    with assms p o show thesis
      by (intro failed) (auto simp: with_pool_client_def split: outcome.splits sum.splits option.splits)
  qed
qed

lemma new_cmds_only: "only_conn st st1 \<Longrightarrow> served (new_cmds st st1) sv sv' = (sv' = sv)"
proof -
  assume "only_conn st st1"
  then obtain cs where "new_cmds st st1 = cs @ []" "list_all conn_cmd cs" by (auto simp: only_conn_def new_cmds_def)
  with served_conn_cmds [of cs "[]" sv sv'] show ?thesis by (auto simp: served_simps)
qed

lemma new_cmds_then:
  "only_conn st st1 \<Longrightarrow> served (new_cmds st (send_cmd cmd st1)) sv sv' = served [cmd] sv sv'"
proof -
  assume "only_conn st st1"
  then obtain cs where "new_cmds st (send_cmd cmd st1) = cs @ [cmd]" "list_all conn_cmd cs"
    by (auto simp: only_conn_def new_cmds_def)
  with served_conn_cmds [of cs "[cmd]" sv sv'] show ?thesis by simp
qed

definition server_effect :: "env \<Rightarrow> ('d \<Rightarrow> err + string) \<Rightarrow> 'd store_event \<Rightarrow> redis_server \<Rightarrow> redis_server \<Rightarrow> bool" where
  "server_effect ev marshal e sv sv' \<longleftrightarrow>
     (case e of
        Put p k data duration r \<Rightarrow> sv' = sv \<and> r \<noteq> Returned None \<or>
          (\<exists>c json. marshal data = Inr json \<and> served [SetKey c k json (clamp_store_ttl ev duration)] sv sv')
      | Keep p k data r \<Rightarrow> sv' = sv \<and> r \<noteq> Returned None \<or>
          (\<exists>json. marshal data = Inr json \<and> sv' = put_entry k json None sv)
      | Remove p k r \<Rightarrow> sv' = sv \<and> r \<noteq> Returned None \<or> sv' = drop_entry k sv
      | TimePasses \<Rightarrow> \<exists>n > 0. sv' = sv\<lparr>sv_now := sv_now sv + n\<rparr>
      | _ \<Rightarrow> sv' = sv)"

lemma server_after_call [simp]: "ss_server (after_call p st sv s) = sv"
  by (simp add: after_call_def)

lemmas store_defs = StoreRedis_def StoreRedisWithContext_def StoreRedisNoExpiry_def GetRedis_def GetRedisWithContext_def
  DeleteRedis_def DeleteRedisWithContext_def

lemma step_effect:
  assumes "store_step g ev marshal e s t"
  shows "server_effect ev marshal e (ss_server s) (ss_server t)"
  using assms
proof cases
  case (put reply x k data duration p r st sv)
  from put(3) [unfolded store_defs] show ?thesis
  proof (cases rule: with_pool_client_cases)
    case (served c st1)
    with put(1,2,4) show ?thesis
      by (auto simp: server_effect_def new_cmds_only new_cmds_then split: sum.splits)
  next
    case failed
    with put(1,2,4) show ?thesis by (auto simp: server_effect_def new_cmds_only)
  qed
next
  case (put_lost reply x k data duration p r st)
  from put_lost(3) [unfolded store_defs] show ?thesis
    by (cases rule: with_pool_client_cases) (use put_lost in \<open>auto simp: server_effect_def split: sum.splits\<close>)
next
  case (keep reply x k data p r st sv)
  from keep(3) [unfolded store_defs] show ?thesis
  proof (cases rule: with_pool_client_cases)
    case (served c st1)
    with keep(1,2,4) show ?thesis
      by (auto simp: server_effect_def new_cmds_only new_cmds_then served_simps split: sum.splits)
  next
    case failed
    with keep(1,2,4) show ?thesis by (auto simp: server_effect_def new_cmds_only)
  qed
next
  case (keep_lost reply x k data p r st)
  from keep_lost(3) [unfolded store_defs] show ?thesis
    by (cases rule: with_pool_client_cases) (use keep_lost in \<open>auto simp: server_effect_def split: sum.splits\<close>)
next
  case (fetch reply k p r st sv)
  from fetch(3) [unfolded store_defs] show ?thesis
    by (cases rule: with_pool_client_cases)
      (use fetch in \<open>auto simp: server_effect_def new_cmds_only new_cmds_then served_simps\<close>)
next
  case (remove reply x k p r st sv)
  from remove(3) [unfolded store_defs] show ?thesis
    by (cases rule: with_pool_client_cases)
      (use remove in \<open>auto simp: server_effect_def new_cmds_only new_cmds_then served_simps\<close>)
next
  case (remove_lost reply x k p r st)
  from remove_lost(3) [unfolded store_defs] show ?thesis
    by (cases rule: with_pool_client_cases) (use remove_lost in \<open>auto simp: server_effect_def\<close>)
next
  case (connect reply host port pw db p r st sv)
  with GetRedisClient_only [of "ss_process s p" g reply host port pw db] show ?thesis
    by (simp add: server_effect_def new_cmds_only)
next
  case (start replies opts p r sleeps st sv)
  with InitializeRedisWithRetry_only [of "ss_process s p" g replies opts] show ?thesis
    by (simp add: server_effect_def new_cmds_only)
qed (auto simp: server_effect_def)

subsection \<open>A key nobody else writes\<close>

fun touches :: "string \<Rightarrow> 'd store_event \<Rightarrow> bool" where
  "touches k (Put p k' data duration r) = (k' = k)"
| "touches k (Keep p k' data r) = (k' = k)"
| "touches k (Remove p k' r) = (k' = k)"
| "touches k e = False"

definition untouched_step where
  "untouched_step g ev marshal k s t \<longleftrightarrow> (\<exists>e. store_step g ev marshal e s t \<and> \<not> touches k e)"

lemma served_other: "served [SetKey c k' v ttl] sv sv' \<Longrightarrow> k' \<noteq> k \<Longrightarrow> sv_data sv' k = sv_data sv k \<and> sv_now sv' = sv_now sv"
  by (auto simp: served_simps put_entry_def)

lemma effect_untouched:
  assumes "server_effect ev marshal e sv sv'" and "\<not> touches k e"
  shows "sv_data sv' k = sv_data sv k \<and> sv_now sv \<le> sv_now sv'"
  using assms
  by (cases e) (auto simp: server_effect_def put_entry_def drop_entry_def dest: served_other)

definition entry_kept :: "string \<Rightarrow> string \<times> int option \<Rightarrow> store_system \<Rightarrow> bool" where
  "entry_kept k e s \<longleftrightarrow> sv_data (ss_server s) k = Some e"

interpretation quiet: invariant_steps "untouched_step g ev marshal k" "entry_kept k e"
  for g ev marshal k e
proof
  fix s t assume "untouched_step g ev marshal k s t" and kept: "entry_kept k e s"
  then obtain x where x: "store_step g ev marshal x s t" "\<not> touches k x" by (auto simp: untouched_step_def)
  with step_effect [OF x(1)] effect_untouched [of ev marshal x _ _ k] kept show "entry_kept k e t"
    by (auto simp: entry_kept_def)
qed

lemma put_effect:
  assumes "store_step g ev marshal (Put p k data duration (Returned None)) s t" and "ttl_configured ev"
  shows "\<exists>json d. marshal data = Inr json \<and> entry_kept k (json, d) t \<and>
    (if clamp_store_ttl ev duration = 0 then d = None
     else \<exists>x. d = Some x \<and> sv_now (ss_server t) + clamp_store_ttl ev duration - Millisecond < x \<and>
       x \<le> sv_now (ss_server t) + max (clamp_store_ttl ev duration) Millisecond)"
proof -
  have pos: "0 \<le> clamp_store_ttl ev duration" using clamp_in_bounds(3) [OF assms(2)] .
  obtain c json where "marshal data = Inr json"
    "served [SetKey c k json (clamp_store_ttl ev duration)] (ss_server s) (ss_server t)"
    using step_effect [OF assms(1)] by (auto simp: server_effect_def)
  moreover from this(2) pos have "\<exists>d. sv_data (ss_server t) k = Some (json, d) \<and>
    (if clamp_store_ttl ev duration = 0 then d = None
     else \<exists>x. d = Some x \<and> sv_now (ss_server t) + clamp_store_ttl ev duration - Millisecond < x \<and>
       x \<le> sv_now (ss_server t) + max (clamp_store_ttl ev duration) Millisecond)"
    by (auto simp: served_simps put_entry_def)
  ultimately show ?thesis by (auto simp: entry_kept_def)
qed

text \<open>A process that is connected, or that a connection attempt would connect.\<close>

definition can_reach :: "conn_reply \<Rightarrow> redis_state \<Rightarrow> bool" where
  "can_reach reply st \<longleftrightarrow> redis_opts st \<noteq> None \<and>
     (pool_client st \<noteq> None \<or> snd reply = None \<and> \<not> reconnect_mu st \<and> red_sync_once st \<noteq> OnceRunning)"

lemma can_reach_client:
  assumes "can_reach reply st"
  obtains c st1 where "GetRedisPoolClient g reply st = (Returned (Inr (Some c)), st1)"
proof (cases "pool_client st")
  case (Some c)
  with assms show thesis by (intro that [of c st]) (auto simp: can_reach_def GetRedisPoolClient_alive)
next
  case None
  with assms obtain ro where ro: "redis_opts st = Some ro" "snd reply = None" "\<not> reconnect_mu st"
      "red_sync_once st \<noteq> OnceRunning" by (auto simp: can_reach_def)
  from init_redis_client_connects [OF ro(2), of "st\<lparr>reconnect_mu := True\<rparr>" ro g] ro obtain st1 where
    "init_redis_client g reply (Some ro) (st\<lparr>reconnect_mu := True\<rparr>) = (Returned None, st1)"
    "pool_client st1 = Some (fst reply)" by auto
  with None ro show thesis
    by (intro that [of "fst reply" "st1\<lparr>reconnect_mu := False\<rparr>"]) (simp add: GetRedisPoolClient.simps)
qed

lemma fetch_entry:
  assumes "entry_kept k e s" and "can_reach reply (ss_process s q)"
  shows "fst (GetRedis g reply (Some (get_answer (ss_server s) k)) k (ss_process s q)) =
    Returned (case entry_at (sv_now (ss_server s)) e of None \<Rightarrow> ([], Some ''redis: nil'') | Some v \<Rightarrow> (v, None))"
proof -
  obtain c st1 where "GetRedisPoolClient g reply (ss_process s q) = (Returned (Inr (Some c)), st1)"
    using can_reach_client [OF assms(2)] .
  with assms(1) show ?thesis
    by (simp add: store_defs with_pool_client_def entry_kept_def get_answer_def visible_def split: option.split)
qed

inductive_cases store_fetchE: "store_step g ev marshal (Fetch p k r) s t"

lemma fetch_visible:
  assumes "store_step g ev marshal (Fetch p k (Returned (v, None))) s t"
  shows "visible (ss_server s) k = Some v"
  using assms
proof (rule store_fetchE)
  fix reply st sv
  assume "GetRedis g reply (Some (get_answer (ss_server s) k)) k (ss_process s p) = (Returned (v, None), st)"
  from this [unfolded store_defs] show ?thesis
    by (cases rule: with_pool_client_cases) (auto simp: get_answer_def split: option.splits)
next
  fix reply e st assume "GetRedis g reply (Some (Inl e)) k (ss_process s p) = (Returned (v, None), st)"
  from this [unfolded store_defs] show ?thesis by (cases rule: with_pool_client_cases) auto
qed

lemma timed_step_near:
  assumes "timed_step ev marshal e a b" and "ttl_configured ev" and "deadlines_near (MaxTTL ev) a"
  shows "deadlines_near (MaxTTL ev) b"
  using assms(1,3) clamp_in_bounds(2) [OF assms(2)]
  by (induction rule: timed_step.induct)
    (fastforce simp: deadlines_near_def deadline_def split: if_splits)+

lemma served_set_deadline:
  assumes "served [SetKey c k json (clamp_store_ttl ev duration)] sv sv'" and "ttl_configured ev"
  shows "\<exists>d. deadline (max 0 (min duration (MaxTTL ev))) (sv_now sv) d \<and> sv' = put_entry k json d sv"
proof -
  have "clamp_store_ttl ev duration = max 0 (min duration (MaxTTL ev))"
    using clamp_in_bounds(2) [OF assms(2)] by (simp add: clamp_store_ttl_def)
  with assms(1) have "served [SetKey c k json (max 0 (min duration (MaxTTL ev)))] sv sv'" by simp
  moreover have "\<exists>d. deadline ttl (sv_now sv) d \<and> sv' = put_entry k json d sv"
    if "served [SetKey c k json ttl] sv sv'" "0 \<le> ttl" for ttl
    using that by (fastforce simp: served_simps deadline_def split: option.split)
  ultimately show ?thesis by simp
qed

lemma visible_entry:
  "visible sv k = Some v \<Longrightarrow> \<exists>d. sv_data sv k = Some (v, d) \<and> (\<forall>x. d = Some x \<longrightarrow> sv_now sv < x)"
  by (cases "sv_data sv k") (auto simp: visible_def entry_at_def split: option.splits if_splits)

lemma store_step_timed:
  assumes "store_step g ev marshal e s t" and "ttl_configured ev"
  shows "timed_step ev marshal e (timed_of s) (timed_of t)"
proof -
  note eff = step_effect [OF assms(1)]
  show ?thesis
  proof (cases e)
    case (Put p k data duration r)
    with eff consider "ss_server t = ss_server s" "r \<noteq> Returned None"
      | c json where "marshal data = Inr json"
          "served [SetKey c k json (clamp_store_ttl ev duration)] (ss_server s) (ss_server t)"
      by (auto simp: server_effect_def)
    then show ?thesis
      using served_set_deadline [OF _ assms(2)]
      by cases (fastforce simp: Put timed_of_def put_entry_def intro: timed_step.intros)+
  next
    case (Fetch p k r)
    have "\<exists>d. fst (timed_of s) k = Some (v, d) \<and> (\<forall>x. d = Some x \<longrightarrow> snd (timed_of s) < x)"
      if "r = Returned (v, None)" for v
      using fetch_visible [of g ev marshal p k v s t] visible_entry assms(1) that
      by (auto simp: Fetch timed_of_def)
    then have "timed_step ev marshal (Fetch p k r) (timed_of s) (timed_of s)" by (rule timed_fetch)
    with eff Fetch show ?thesis by (simp add: server_effect_def timed_of_def)
  qed (use eff in \<open>auto simp: server_effect_def timed_of_def put_entry_def drop_entry_def intro: timed_step.intros\<close>)
qed

interpretation timed: labelled_refinement "\<lambda>e s t. store_step g ev marshal e s t \<and> ttl_configured ev"
  "timed_step ev marshal" timed_of for g ev marshal
  by unfold_locales (blast intro: store_step_timed)

lemma configured_run:
  "labelled_run step es s t \<Longrightarrow> P \<Longrightarrow> labelled_run (\<lambda>e s t. step e s t \<and> P) es s t"
  by (induction es arbitrary: s) auto

subsection \<open>Properties\<close>

text \<open>
  C11. The store is a map with deadlines. Whatever the processes do, connect and lose their connection
  included, and whatever requests and answers are lost, every run is a run of the specification with the
  same calls, arguments and results: a \<open>StoreRedis\<close> that returned nil has put exactly the encoded value under
  its key, to expire after its duration brought between 0 (never) and \<open>MaxTTL\<close>, a \<open>StoreRedisNoExpiry\<close>
  without a deadline, a \<open>DeleteRedis\<close> has removed its key, a call that failed has done that or nothing,
  and a \<open>GetRedis\<close> without error has returned what is under its key. Deadlines stay at most \<open>MaxTTL\<close> ahead.
\<close>

theorem store_refines_timed_map:
  assumes "ttl_configured ev" and "labelled_run (store_step g ev marshal) calls s0 s"
  shows "labelled_run (timed_step ev marshal) calls (timed_of s0) (timed_of s) \<and>
    (deadlines_near (MaxTTL ev) (timed_of s0) \<longrightarrow> deadlines_near (MaxTTL ev) (timed_of s))"
proof -
  note r = configured_run [OF assms(2,1)]
  show ?thesis
    using timed.simulates_run [OF r] timed.transfer_run_invariant [OF r, of "deadlines_near (MaxTTL ev)"]
      timed_step_near [OF _ assms(1)] by blast
qed

text \<open>
  C10. A stored value can be read back, by every process, until it expires. After \<open>StoreRedis\<close> has returned
  nil, and as long as nobody stores or deletes the key, \<open>GetRedis\<close> of a process that is connected, or whose
  connection attempt succeeds, returns the encoded value until a millisecond before the clamped duration
  is over (for ever when that is 0), and the missing key from the end of the duration on (or of the
  millisecond Redis counts in), so never later than \<open>MaxTTL\<close> after the store.
\<close>

theorem stored_value_readable:
  assumes "ttl_configured ev"
    and "store_step g ev marshal (Put p k data duration (Returned None)) s t"
    and "(untouched_step g ev marshal k)\<^sup>*\<^sup>* t u" and "can_reach reply (ss_process u q)"
    and ttl: "ttl = clamp_store_ttl ev duration"
  shows "\<exists>json. marshal data = Inr json \<and> ttl \<le> MaxTTL ev \<and>
    (ttl = 0 \<or> sv_now (ss_server u) \<le> sv_now (ss_server t) + ttl - Millisecond \<longrightarrow>
       fst (GetRedis g reply (Some (get_answer (ss_server u) k)) k (ss_process u q)) = Returned (json, None)) \<and>
    (0 < ttl \<and> sv_now (ss_server t) + max ttl Millisecond \<le> sv_now (ss_server u) \<longrightarrow>
       fst (GetRedis g reply (Some (get_answer (ss_server u) k)) k (ss_process u q)) =
         Returned ([], Some ''redis: nil''))"
proof -
  from put_effect [OF assms(2,1)] obtain json d where
    json: "marshal data = Inr json" and e: "entry_kept k (json, d) t"
    and d: "if ttl = 0 then d = None
      else \<exists>x. d = Some x \<and> sv_now (ss_server t) + ttl - Millisecond < x \<and> x \<le> sv_now (ss_server t) + max ttl Millisecond"
    unfolding ttl by blast
  note f = fetch_entry [OF quiet.steps_inv [OF assms(3) e] assms(4), of g]
  show ?thesis
    using json d f clamp_in_bounds(1) [OF assms(1)] ttl by (auto simp: entry_at_def split: if_splits)
qed

text \<open>Process 1 is connected, the others have lost their connection.\<close>

definition demo_store_system :: store_system where
  "demo_store_system = \<lparr>ss_process = (\<lambda>p. if p = 1 then alive_redis_state else alive_redis_state\<lparr>pool_client := None\<rparr>),
     ss_server = \<lparr>sv_data = Map.empty, sv_now = 0\<rparr>\<rparr>"

definition store_globals :: globals where
  "store_globals = \<lparr>glob_app_name = ''svc'', glob_app_env = ''dev''\<rparr>"

definition demo_store_step :: "string store_event \<Rightarrow> store_system \<Rightarrow> store_system \<Rightarrow> bool" where
  "demo_store_step = store_step store_globals (\<lambda>_. []) Inr"

lemma demo_ttl: "ttl_configured (\<lambda>_. [])"
  by (simp add: ttl_configured_def)

lemma demo_clamp: "clamp_store_ttl (\<lambda>_. []) Hour = Hour"
  by (simp add: clamp_store_ttl_def MaxTTL_def dur_mul_def wrap64_def)

text \<open>Process 1 stores for an hour, half an hour passes, process 2 reads and connects for it.\<close>

lemma demo_put:
  "\<exists>t. demo_store_step (Put 1 ''k'' ''v'' Hour (Returned None)) demo_store_system t \<and> sv_now (ss_server t) = 0 \<and>
     can_reach (9, None) (ss_process t 2)"
proof -
  have al: "redis_opts alive_redis_state = Some blank_redis_options" "pool_client alive_redis_state = Some 1"
    by (simp_all add: alive_redis_state_def)
  let ?st = "send_cmd (SetKey 1 ''k'' ''v'' Hour) alive_redis_state"
  let ?sv = "put_entry ''k'' ''v'' (Some Hour) (ss_server demo_store_system)"
  let ?t = "after_call 1 ?st ?sv demo_store_system"
  have "served (new_cmds (ss_process demo_store_system 1) ?st) (ss_server demo_store_system) ?sv"
    using new_cmds_then [OF only_conn_refl]
    by (auto simp: demo_store_system_def served_simps intro!: exI [of _ Hour])
  then have "demo_store_step (Put 1 ''k'' ''v'' Hour (Returned None)) demo_store_system ?t"
    using StoreRedis_alive [OF al, of Inr "''v''" "''v''" store_globals "\<lambda>_. []" "(9, None)" None "''k''" Hour]
    unfolding demo_store_step_def
    by (intro store_step.put [where e = None and reply = "(9, None)"])
      (simp_all add: demo_clamp demo_store_system_def)
  moreover have "sv_now (ss_server ?t) = 0" by (simp add: demo_store_system_def put_entry_def)
  moreover have "can_reach (9, None) (ss_process ?t 2)"
    by (simp add: can_reach_def after_call_def demo_store_system_def alive_redis_state_def initial_redis_state_def)
  ultimately show ?thesis by blast
qed

theorem stored_value_readable_witness:
  "\<exists>t (u :: store_system). demo_store_step (Put 1 ''k'' ''v'' Hour (Returned None)) demo_store_system t \<and>
     sv_now (ss_server u) = 30 * Minute \<and>
     fst (GetRedis store_globals (9, None) (Some (get_answer (ss_server u) ''k'')) ''k'' (ss_process u 2)) =
       Returned (''v'', None)"
proof -
  obtain t where t: "demo_store_step (Put 1 ''k'' ''v'' Hour (Returned None)) demo_store_system t"
      "sv_now (ss_server t) = 0" "can_reach (9, None) (ss_process t 2)"
    using demo_put by blast
  let ?u = "t\<lparr>ss_server := (ss_server t)\<lparr>sv_now := sv_now (ss_server t) + 30 * Minute\<rparr>\<rparr>"
  have "demo_store_step TimePasses t ?u" unfolding demo_store_step_def by (rule store_step.pass) simp
  then have u: "(untouched_step store_globals (\<lambda>_. []) Inr ''k'')\<^sup>*\<^sup>* t ?u"
    by (intro r_into_rtranclp) (auto simp: untouched_step_def demo_store_step_def intro: exI [of _ TimePasses])
  have "can_reach (9, None) (ss_process ?u 2)" using t(3) by simp
  from stored_value_readable [OF demo_ttl t(1) [unfolded demo_store_step_def] u this refl] t(2)
  have w: "sv_now (ss_server ?u) = 30 * Minute \<and>
     fst (GetRedis store_globals (9, None) (Some (get_answer (ss_server ?u) ''k'')) ''k'' (ss_process ?u 2)) =
       Returned (''v'', None)"
    by (simp add: demo_clamp)
  show ?thesis by (rule exI [of _ t], rule exI [of _ ?u], rule conjI, rule t(1), rule w)
qed

theorem store_refines_timed_map_witness:
  "\<exists>s d. labelled_run demo_store_step [Put 1 ''k'' ''v'' Hour (Returned None)] demo_store_system s \<and>
     fst (timed_of s) ''k'' = Some (''v'', d) \<and> d \<noteq> None"
proof -
  obtain t where "demo_store_step (Put 1 ''k'' ''v'' Hour (Returned None)) demo_store_system t" using demo_put by blast
  then have r: "labelled_run demo_store_step [Put 1 ''k'' ''v'' Hour (Returned None)] demo_store_system t" by simp
  from store_refines_timed_map [OF demo_ttl r [unfolded demo_store_step_def]]
  have "timed_step (\<lambda>_. []) Inr (Put 1 ''k'' ''v'' Hour (Returned None)) (timed_of demo_store_system) (timed_of t)"
    unfolding labelled_run.simps by blast
  then have "\<exists>d. fst (timed_of t) ''k'' = Some (''v'', d) \<and> d \<noteq> None"
    by cases (auto simp: deadline_def MaxTTL_def dur_mul_def wrap64_def split: option.splits)
  with r show ?thesis by blast
qed

end
