(* ===== verification/IdemRace.thy ===== *)
theory IdemRace
  imports Idempotency
begin

section \<open>Concurrent requests with one idempotency key\<close>

text \<open>
  \<open>VerifIdemKey\<close> sends \<open>GET\<close> and \<open>SET\<close> as two commands, and the handlers of concurrent requests run in
  goroutines of their own. Here any number of copies of one request run against a server that keeps the
  last value stored under the key: \<open>GET\<close> is answered at one instant, and the rest of the handler, with
  the \<open>SET\<close> it may send, is a later step. The key may expire at any time, as a step of its own.
\<close>

datatype 'j idem_pc = Arrived | Asked "err + string" | Settled "'j option verdict outcome"

record 'j idem_system =
  ir_value :: "string option"
  ir_redis :: redis_state
  ir_at :: "nat \<Rightarrow> 'j idem_pc"

fun server_answer :: "string option \<Rightarrow> err + string" where
  "server_answer None = Inl ''redis: nil''"
| "server_answer (Some v) = Inr v"

fun value_after :: "string \<Rightarrow> redis_cmd list \<Rightarrow> string option \<Rightarrow> string option" where
  "value_after key [] v = v"
| "value_after key (SetKey c k json ttl # cmds) v = value_after key cmds (if k = key then Some json else v)"
| "value_after key (cmd # cmds) v = value_after key cmds v"

inductive idem_step ::
  "(nat \<Rightarrow> redis_state \<Rightarrow> (err + string) option \<Rightarrow> 'j option verdict outcome \<times> redis_state) \<Rightarrow> string \<Rightarrow>
     'j idem_system \<Rightarrow> 'j idem_system \<Rightarrow> bool" for handler key where
  ask: "ir_at s i = Arrived \<Longrightarrow>
    idem_step handler key s (s\<lparr>ir_at := (ir_at s)(i := Asked (server_answer (ir_value s)))\<rparr>)"
| settle: "ir_at s i = Asked r \<Longrightarrow> handler i (ir_redis s) (Some r) = (v, st') \<Longrightarrow>
    idem_step handler key s (s\<lparr>ir_value := value_after key (new_cmds (ir_redis s) st') (ir_value s),
      ir_redis := st', ir_at := (ir_at s)(i := Settled v)\<rparr>)"

inductive_cases idem_stepE: "idem_step handler key s t"

definition idem_handler ::
  "globals \<Rightarrow> env \<Rightarrow> 'j idem_libs \<Rightarrow> conn_reply \<Rightarrow> ('j idem_value \<Rightarrow> err + string) \<Rightarrow> string option \<Rightarrow> int \<Rightarrow>
     idem_request \<Rightarrow> redis_state \<Rightarrow> (err + string) option \<Rightarrow> 'j option verdict outcome \<times> redis_state" where
  "idem_handler g ev libs reply marshal rand_hex now rq st get_reply =
     VerifIdemKey g ev libs reply get_reply marshal None rand_hex now rq st"

definition arrived :: "redis_state \<Rightarrow> 'j idem_system" where
  "arrived st = \<lparr>ir_value = None, ir_redis = st, ir_at = (\<lambda>_. Arrived)\<rparr>"

text \<open>What a handler does with a live client: it keeps the client, and it stores a value exactly when it passes.\<close>

lemma handler_effect:
  assumes "live c st" and marshal: "\<forall>x json. marshal x = Inr json \<longrightarrow> json \<noteq> []"
    and "idem_handler g ev libs reply marshal rand_hex now rq st (Some r) = (v, st')"
  shows "live c st' \<and>
    (if v = Returned CallNext \<and> (\<exists>e. r = Inl e)
     then \<exists>json. json \<noteq> [] \<and> value_after (rq_idempotency_key rq) (new_cmds st st') old = Some json
     else value_after (rq_idempotency_key rq) (new_cmds st st') old = old \<or>
       (\<exists>json. json \<noteq> [] \<and> value_after (rq_idempotency_key rq) (new_cmds st st') old = Some json)) \<and>
    (\<forall>x. r = Inr x \<and> x \<noteq> [] \<longrightarrow> v \<noteq> Returned CallNext)"
proof -
  obtain ro where ro: "redis_opts st = Some ro" "pool_client st = Some c" using assms(1) by (auto simp: live_def)
  show ?thesis
  proof (cases "idem_admit libs rand_hex now rq")
    case (Inl resp)
    with assms(1,3) show ?thesis
      by (auto simp: idem_handler_def VerifIdemKey_def new_cmds_def)
  next
    case (Inr a)
    then obtain header session request where ad: "idem_admit libs rand_hex now rq = Inr (header, session, request)"
      by (metis prod.exhaust)
    note k = idem_admit_Inr(2) [OF ad]
    show ?thesis
    proof (cases r)
      case (Inr x)
      with assms(3) ro k show ?thesis
        by (cases "lib_unmarshal libs request x")
          (auto simp: idem_handler_def VerifIdemKey_def ad idem_lookup_def GetRedis_alive [OF ro] new_cmds_def
            live_def split: if_splits)
    next
      case (Inl e)
      let ?v = "case request of None \<Rightarrow> StoredHeaders header | Some r \<Rightarrow> StoredBody r"
      show ?thesis
      proof (cases "marshal ?v")
        case (Inl err)
        with assms(3) ro k \<open>r = Inl e\<close> show ?thesis
          by (auto simp: idem_handler_def VerifIdemKey_def ad idem_lookup_def GetRedis_alive [OF ro] new_cmds_def
              live_def idem_store_def StoreRedis_marshal_error [where marshal = marshal] split: if_splits)
      next
        case (Inr json)
        with assms(3) ro k \<open>r = Inl e\<close> marshal Inr show ?thesis
          by (auto simp: idem_handler_def VerifIdemKey_def ad idem_lookup_def GetRedis_alive [OF ro] new_cmds_def
              live_def idem_store_def StoreRedis_alive [where marshal = marshal and json = json] split: if_splits)
      qed
    qed
  qed
qed


definition passed :: "'j idem_pc \<Rightarrow> bool" where
  "passed p \<longleftrightarrow> p = Settled (Returned CallNext)"

text \<open>
  While the server has a value, every question is answered with it. The codec never writes an empty text.
\<close>

definition race_inv :: "('j idem_value \<Rightarrow> err + string) \<Rightarrow> nat \<Rightarrow> 'j idem_system \<Rightarrow> bool" where
  "race_inv marshal c s \<longleftrightarrow> (\<forall>x json. marshal x = Inr json \<longrightarrow> json \<noteq> []) \<and> live c (ir_redis s) \<and>
     ir_value s \<noteq> Some [] \<and> (\<forall>i. ir_at s i \<noteq> Asked (Inr []))"

definition shut_out :: "('j idem_value \<Rightarrow> err + string) \<Rightarrow> nat \<Rightarrow> nat \<Rightarrow> 'j idem_system \<Rightarrow> bool" where
  "shut_out marshal c i s \<longleftrightarrow> race_inv marshal c s \<and> ir_value s \<noteq> None \<and> \<not> passed (ir_at s i) \<and>
     (\<forall>e. ir_at s i \<noteq> Asked (Inl e))"

definition copies ::
  "globals \<Rightarrow> env \<Rightarrow> 'j idem_libs \<Rightarrow> conn_reply \<Rightarrow> ('j idem_value \<Rightarrow> err + string) \<Rightarrow> (nat \<Rightarrow> string option) \<Rightarrow>
     (nat \<Rightarrow> int) \<Rightarrow> idem_request \<Rightarrow> 'j idem_system \<Rightarrow> 'j idem_system \<Rightarrow> bool" where
  "copies g ev libs reply marshal rand_hex now rq =
     idem_step (\<lambda>i. idem_handler g ev libs reply marshal (rand_hex i) (now i) rq) (rq_idempotency_key rq)"

definition copies_or_expiry ::
  "globals \<Rightarrow> env \<Rightarrow> 'j idem_libs \<Rightarrow> conn_reply \<Rightarrow> ('j idem_value \<Rightarrow> err + string) \<Rightarrow> (nat \<Rightarrow> string option) \<Rightarrow>
     (nat \<Rightarrow> int) \<Rightarrow> idem_request \<Rightarrow> 'j idem_system \<Rightarrow> 'j idem_system \<Rightarrow> bool" where
  "copies_or_expiry g ev libs reply marshal rand_hex now rq s t \<longleftrightarrow>
     copies g ev libs reply marshal rand_hex now rq s t \<or> t = s\<lparr>ir_value := None\<rparr>"

lemma server_answer_simps [simp]:
  "server_answer v = Inl e \<longleftrightarrow> v = None \<and> e = ''redis: nil''" "server_answer v = Inr x \<longleftrightarrow> v = Some x"
  by (cases v; auto)+

lemma passed_simps [simp]: "\<not> passed Arrived" "\<not> passed (Asked r)" "passed (Settled v) \<longleftrightarrow> v = Returned CallNext"
  by (simp_all add: passed_def)

text \<open>What settling one request does to the server.\<close>

lemma settle_effect:
  assumes "race_inv marshal c s" and "ir_at s i = Asked r"
    and "idem_handler g ev libs reply marshal rand_hex now rq (ir_redis s) (Some r) = (v, st')"
    and "value' = value_after (rq_idempotency_key rq) (new_cmds (ir_redis s) st') (ir_value s)"
  shows "live c st' \<and> value' \<noteq> Some [] \<and> (ir_value s \<noteq> None \<longrightarrow> value' \<noteq> None) \<and>
    (v = Returned CallNext \<longrightarrow> (\<exists>e. r = Inl e) \<and> value' \<noteq> None)"
proof -
  have l: "live c (ir_redis s)" and m: "\<forall>x json. marshal x = Inr json \<longrightarrow> json \<noteq> []"
    using assms(1) by (auto simp: race_inv_def)
  have r: "r \<noteq> Inr []" using assms(1,2) by (auto simp: race_inv_def)
  from handler_effect [OF l m assms(3), where old = "ir_value s"] r assms(1,4) show ?thesis
    by (cases r) (auto simp: race_inv_def split: if_splits)
qed

lemma race_step:
  assumes "copies g ev libs reply marshal rand_hex now rq s t" and "race_inv marshal c s"
  shows "race_inv marshal c t"
  using assms(1) unfolding copies_def
proof cases
  case (ask i)
  with assms(2) show ?thesis by (auto simp: race_inv_def)
next
  case (settle i r v st')
  from settle_effect [OF assms(2) settle(2,3) refl] settle(1) assms(2) show ?thesis
    by (auto simp: race_inv_def)
qed

lemma shut_out_step:
  assumes "copies g ev libs reply marshal rand_hex now rq s t" and "shut_out marshal c i s"
  shows "shut_out marshal c i t"
proof -
  have inv: "race_inv marshal c s" using assms(2) by (simp add: shut_out_def)
  have invt: "race_inv marshal c t" by (rule race_step [OF assms(1) inv])
  show ?thesis using assms(1) unfolding copies_def
  proof cases
    case (ask j)
    with assms(2) invt show ?thesis by (auto simp: shut_out_def)
  next
    case (settle j r v st')
    from settle_effect [OF inv settle(2,3) refl] settle(1,2) assms(2) invt show ?thesis
      by (auto simp: shut_out_def)
  qed
qed

interpretation race: invariant_steps "copies_or_expiry g ev libs reply marshal rand_hex now rq" "race_inv marshal c"
  for g ev libs reply marshal rand_hex now rq c
  by unfold_locales (auto simp: copies_or_expiry_def race_inv_def dest: race_step [unfolded race_inv_def])

lemma copies_run_inv:
  assumes "(copies g ev libs reply marshal rand_hex now rq)\<^sup>*\<^sup>* s t" and "race_inv marshal c s"
  shows "race_inv marshal c t"
proof -
  have "(copies_or_expiry g ev libs reply marshal rand_hex now rq)\<^sup>*\<^sup>* s t"
    by (rule mono_rtranclp [rule_format, OF _ assms(1)]) (simp add: copies_or_expiry_def)
  then show ?thesis by (rule race.steps_inv [OF _ assms(2)])
qed

lemma passing_step:
  assumes "copies g ev libs reply marshal rand_hex now rq s t" and "race_inv marshal c s"
    and "\<not> passed (ir_at s j)" and "passed (ir_at t j)"
  shows "ir_value t \<noteq> None"
  using assms(1) unfolding copies_def
proof cases
  case (ask i)
  with assms(3,4) show ?thesis by (auto split: if_splits)
next
  case (settle i r v st')
  from settle_effect [OF assms(2) settle(2,3) refl] settle(1) assms(3,4) show ?thesis
    by (auto split: if_splits)
qed

interpretation latecomer: invariant_steps "copies g ev libs reply marshal rand_hex now rq" "shut_out marshal c i"
  for g ev libs reply marshal rand_hex now rq c i
  by unfold_locales (rule shut_out_step)

lemma arrived_inv:
  assumes "\<And>x json. marshal x = Inr json \<Longrightarrow> json \<noteq> []" and "live c st"
  shows "race_inv marshal c (arrived st)"
  using assms by (auto simp: race_inv_def arrived_def)


lemma copies_ask:
  "ir_at s i = Arrived \<Longrightarrow> copies g ev libs reply marshal rand_hex now rq s
     (s\<lparr>ir_at := (ir_at s)(i := Asked (server_answer (ir_value s)))\<rparr>)"
  unfolding copies_def by (rule idem_step.ask)

lemma copies_settle:
  "ir_at s i = Asked r \<Longrightarrow>
   idem_handler g ev libs reply marshal (rand_hex i) (now i) rq (ir_redis s) (Some r) = (v, st') \<Longrightarrow>
   copies g ev libs reply marshal rand_hex now rq s
     (s\<lparr>ir_value := value_after (rq_idempotency_key rq) (new_cmds (ir_redis s) st') (ir_value s),
       ir_redis := st', ir_at := (ir_at s)(i := Settled v)\<rparr>)"
  unfolding copies_def by (rule idem_step.settle)

text \<open>Whether a new key lets the request pass depends on the request, not on what else is in the state.\<close>

lemma pass_anywhere:
  assumes "live c st" and "live c st'"
    and "fst (idem_handler g ev libs reply marshal rand_hex now rq st (Some (Inl e))) = Returned CallNext"
  shows "fst (idem_handler g ev libs reply marshal rand_hex now rq st' (Some (Inl e))) = Returned CallNext"
proof -
  obtain ro ro' where r: "redis_opts st = Some ro" "pool_client st = Some c"
      "redis_opts st' = Some ro'" "pool_client st' = Some c"
    using assms(1,2) by (auto simp: live_def)
  obtain header session request where ad: "idem_admit libs rand_hex now rq = Inr (header, session, request)"
    using assms(3) by (auto simp: idem_handler_def VerifIdemKey_def split: sum.splits)
  let ?v = "case request of None \<Rightarrow> StoredHeaders header | Some r \<Rightarrow> StoredBody r"
  from assms(3) r show ?thesis
    by (cases "marshal ?v")
      (auto simp: idem_handler_def VerifIdemKey_def ad idem_lookup_def GetRedis_alive idem_store_def
        StoreRedis_marshal_error [where marshal = marshal] StoreRedis_alive [where marshal = marshal]
        split: if_splits)
qed

lemma all_ask:
  "\<exists>t. (copies g ev libs reply marshal rand_hex now rq)\<^sup>*\<^sup>* (arrived st) t \<and> ir_redis t = st \<and> ir_value t = None \<and>
     (\<forall>i. ir_at t i = (if i < n then Asked (Inl ''redis: nil'') else Arrived))"
proof (induction n)
  case (Suc n)
  then obtain t where t: "(copies g ev libs reply marshal rand_hex now rq)\<^sup>*\<^sup>* (arrived st) t" "ir_redis t = st"
      "ir_value t = None" "\<forall>i. ir_at t i = (if i < n then Asked (Inl ''redis: nil'') else Arrived)" by blast
  let ?t = "t\<lparr>ir_at := (ir_at t)(n := Asked (server_answer (ir_value t)))\<rparr>"
  have "copies g ev libs reply marshal rand_hex now rq t ?t" by (rule copies_ask) (simp add: t(4))
  with t(1) have "(copies g ev libs reply marshal rand_hex now rq)\<^sup>*\<^sup>* (arrived st) ?t"
    by (rule rtranclp.rtrancl_into_rtrancl)
  then show ?case using t(2-4) by (intro exI [of _ ?t]) (auto simp: less_Suc_eq)
qed (auto simp: arrived_def)

lemma all_settle:
  assumes "race_inv marshal c s" and "\<forall>i < n. ir_at s i = Asked (Inl e)"
    and alone: "\<forall>i. fst (idem_handler g ev libs reply marshal (rand_hex i) (now i) rq st (Some (Inl e))) =
      Returned CallNext" and "live c st"
  shows "k \<le> n \<Longrightarrow> \<exists>t. (copies g ev libs reply marshal rand_hex now rq)\<^sup>*\<^sup>* s t \<and>
    (\<forall>i < k. passed (ir_at t i)) \<and> (\<forall>i. k \<le> i \<longrightarrow> ir_at t i = ir_at s i)"
proof (induction k)
  case (Suc k)
  then obtain t where t: "(copies g ev libs reply marshal rand_hex now rq)\<^sup>*\<^sup>* s t" "\<forall>i < k. passed (ir_at t i)"
      "\<forall>i. k \<le> i \<longrightarrow> ir_at t i = ir_at s i" by auto
  have "race_inv marshal c t" by (rule copies_run_inv [OF t(1) assms(1)])
  then have l: "live c (ir_redis t)" by (simp add: race_inv_def)
  have k: "ir_at t k = Asked (Inl e)" using t(3) assms(2) Suc.prems by simp
  let ?h = "idem_handler g ev libs reply marshal (rand_hex k) (now k) rq (ir_redis t) (Some (Inl e))"
  have "fst ?h = Returned CallNext" by (rule pass_anywhere [OF assms(4) l]) (use alone in simp)
  then have h: "?h = (Returned CallNext, snd ?h)" by (simp add: prod_eq_iff)
  let ?t = "t\<lparr>ir_value := value_after (rq_idempotency_key rq) (new_cmds (ir_redis t) (snd ?h)) (ir_value t),
      ir_redis := snd ?h, ir_at := (ir_at t)(k := Settled (Returned CallNext))\<rparr>"
  have "copies g ev libs reply marshal rand_hex now rq t ?t" by (rule copies_settle [where rand_hex = rand_hex and now = now, OF k h])
  with t(1) have "(copies g ev libs reply marshal rand_hex now rq)\<^sup>*\<^sup>* s ?t"
    by (rule rtranclp.rtrancl_into_rtrancl)
  then show ?case using t(2,3) by (intro exI [of _ ?t]) (auto simp: less_Suc_eq)
qed auto

text \<open>
  C5. The check is not atomic: any number of concurrent copies of one request can all reach the next
  handler. When the request would pass alone on a new key, there is, for every \<open>n\<close>, a run of the
  concurrent handlers in which \<open>n\<close> copies pass (all ask before the first one stores).
\<close>

theorem idem_concurrent_copies_pass:
  assumes "live c st" and "\<forall>x json. marshal x = Inr json \<longrightarrow> json \<noteq> []"
    and "\<forall>i. fst (VerifIdemKey g ev libs reply (Some (Inl ''redis: nil'')) marshal None (rand_hex i) (now i) rq st) =
      Returned CallNext"
  shows "\<exists>t. (copies g ev libs reply marshal rand_hex now rq)\<^sup>*\<^sup>* (arrived st) t \<and> (\<forall>i < n. passed (ir_at t i))"
proof -
  obtain s where s: "(copies g ev libs reply marshal rand_hex now rq)\<^sup>*\<^sup>* (arrived st) s"
      "\<forall>i. ir_at s i = (if i < n then Asked (Inl ''redis: nil'') else Arrived)"
    using all_ask by blast
  have "race_inv marshal c (arrived st)" using arrived_inv assms(1,2) by blast
  then have "race_inv marshal c s" by (rule copies_run_inv [OF s(1)])
  moreover have "\<forall>i < n. ir_at s i = Asked (Inl ''redis: nil'')" using s(2) by simp
  ultimately obtain t where "(copies g ev libs reply marshal rand_hex now rq)\<^sup>*\<^sup>* s t" "\<forall>i < n. passed (ir_at t i)"
    using all_settle [where st = st and k = n and n = n] assms(1,3) unfolding idem_handler_def by blast
  with s(1) show ?thesis by (meson rtranclp_trans)
qed

definition demo_copies :: "string idem_system \<Rightarrow> string idem_system \<Rightarrow> bool" where
  "demo_copies = copies demo_service (\<lambda>_. []) demo_libs (9, None) demo_marshal (\<lambda>_. None) (\<lambda>_. 0) demo_idem_request"

lemma demo_live: "live 1 alive_redis_state"
  by (simp add: live_def alive_redis_state_def)

lemma demo_marshal_nonempty: "\<forall>x json. demo_marshal x = Inr json \<longrightarrow> json \<noteq> []"
  by (auto simp: demo_marshal_def split: idem_value.splits if_splits)

lemma demo_alone:
  "\<forall>i::nat. fst (VerifIdemKey demo_service (\<lambda>_. []) demo_libs (9, None) (Some (Inl ''redis: nil'')) demo_marshal None
    None 0 demo_idem_request alive_redis_state) = Returned CallNext"
  using demo_first_request by auto

theorem idem_concurrent_copies_pass_witness:
  "\<exists>t. demo_copies\<^sup>*\<^sup>* (arrived alive_redis_state) t \<and> passed (ir_at t 0) \<and> passed (ir_at t 1)"
  using idem_concurrent_copies_pass [where n = 2, OF demo_live demo_marshal_nonempty demo_alone]
  by (auto simp: demo_copies_def)

text \<open>
  C4. Outside that window the check is sound. From the moment a copy passes, whatever happened before
  (expired keys included), and as long as the key does not expire, the key has a value and a copy that has
  not yet asked Redis never passes, however the steps interleave.
\<close>

theorem idem_latecomer_never_passes:
  assumes "live c st" and "\<forall>x json. marshal x = Inr json \<longrightarrow> json \<noteq> []"
    and "(copies_or_expiry g ev libs reply marshal rand_hex now rq)\<^sup>*\<^sup>* (arrived st) before"
    and "copies g ev libs reply marshal rand_hex now rq before s"
    and "\<not> passed (ir_at before j)" and "passed (ir_at s j)" and "ir_at s i = Arrived"
    and "(copies g ev libs reply marshal rand_hex now rq)\<^sup>*\<^sup>* s t"
  shows "\<not> passed (ir_at t i) \<and> ir_value t \<noteq> None"
proof -
  have "race_inv marshal c (arrived st)" using arrived_inv assms(1,2) by blast
  then have inv: "race_inv marshal c before" by (rule race.steps_inv [OF assms(3)])
  have "race_inv marshal c s" by (rule race_step [OF assms(4) inv])
  with passing_step [OF assms(4) inv assms(5,6)] assms(7) have "shut_out marshal c i s"
    by (auto simp: shut_out_def)
  then have "shut_out marshal c i t" by (rule latecomer.steps_inv [OF assms(8)])
  then show ?thesis by (simp add: shut_out_def)
qed

theorem idem_latecomer_never_passes_witness:
  "\<exists>s. demo_copies\<^sup>*\<^sup>* (arrived alive_redis_state) s \<and> passed (ir_at s 0) \<and> ir_at s 1 = Arrived \<and>
     (\<forall>t. demo_copies\<^sup>*\<^sup>* s t \<longrightarrow> \<not> passed (ir_at t 1))"
proof -
  obtain a where a: "demo_copies\<^sup>*\<^sup>* (arrived alive_redis_state) a" "ir_redis a = alive_redis_state"
      "\<forall>i. ir_at a i = (if i < 1 then Asked (Inl ''redis: nil'') else Arrived)"
    unfolding demo_copies_def using all_ask by blast
  obtain v st' where h: "idem_handler demo_service (\<lambda>_. []) demo_libs (9, None) demo_marshal None 0 demo_idem_request
      (ir_redis a) (Some (Inl ''redis: nil'')) = (v, st')" by fastforce
  have "v = Returned CallNext"
    using demo_alone h a(2) by (simp add: idem_handler_def)
  let ?s = "a\<lparr>ir_value := value_after (rq_idempotency_key demo_idem_request) (new_cmds (ir_redis a) st') (ir_value a),
      ir_redis := st', ir_at := (ir_at a)(0 := Settled v)\<rparr>"
  have step: "demo_copies a ?s"
    unfolding demo_copies_def by (rule copies_settle [OF _ h]) (simp add: a(3))
  have run: "demo_copies\<^sup>*\<^sup>* (arrived alive_redis_state) ?s" using a(1) step by (rule rtranclp.rtrancl_into_rtrancl)
  have before: "(copies_or_expiry demo_service (\<lambda>_. []) demo_libs (9, None) demo_marshal (\<lambda>_. None) (\<lambda>_. 0)
      demo_idem_request)\<^sup>*\<^sup>* (arrived alive_redis_state) a"
    by (rule mono_rtranclp [rule_format, OF _ a(1)]) (simp add: copies_or_expiry_def demo_copies_def)
  have p: "\<not> passed (ir_at a 0)" "passed (ir_at ?s 0)" "ir_at ?s 1 = Arrived"
    using a(3) \<open>v = Returned CallNext\<close> by simp_all
  have "\<not> passed (ir_at t 1)" if "demo_copies\<^sup>*\<^sup>* ?s t" for t
    using idem_latecomer_never_passes [OF demo_live demo_marshal_nonempty before step [unfolded demo_copies_def] p
        that [unfolded demo_copies_def]] by simp
  with run p show ?thesis by blast
qed

end
