(* ===== verification/AuditTrail.thy ===== *)
theory AuditTrail
  imports AuditPublisher
begin

section \<open>audittrail.go, audittrail_v2.go, audittrail_trx.go, transaction_trace.go\<close>

text \<open>
  The audit functions services call. \<open>audit_state\<close> holds the package variables. A function that
  hands its work to a goroutine returns the payload that goroutine publishes; \<open>now\<close> arguments are the
  clock as the text the code formats, \<open>nanos\<close> the clock in nanoseconds. The publication itself
  (\<open>push_message_audit\<close>) returns what it logs and sends to Sentry.
\<close>

record 'v audit_state =
  audit_client :: "amqp_client option"
  audit_id_counter :: int
  not_ready_last_log :: "int option"
  audit_publisher :: "'v message_payload_audit publisher option"
  trx_publisher :: "'v message_payload_audit publisher option"
  trx_enabled :: bool

definition next_audit_id :: "'v audit_state \<Rightarrow> int \<times> 'v audit_state" where
  "next_audit_id s =
     (let n = wrap64 (audit_id_counter s + 1) in (n, s\<lparr>audit_id_counter := n\<rparr>))"

subsection \<open>Set-up\<close>

definition amqp_uri :: "string \<Rightarrow> string \<Rightarrow> string \<Rightarrow> string \<Rightarrow> string \<Rightarrow> string" where
  "amqp_uri host port vhost username password =
     ''amqp://'' @ username @ '':'' @ password @ ''@'' @ host @ '':'' @ port @ ''/'' @ vhost"

definition ensure_app_name :: "string \<Rightarrow> globals \<Rightarrow> globals" where
  "ensure_app_name appName g = (if get_app_name g = [] then set_app_name appName g else g)"

text \<open>The set-ups return the new client with the address its goroutine dials.\<close>

record amqp_endpoint =
  ep_host :: string
  ep_port :: string
  ep_vhost :: string
  ep_username :: string
  ep_password :: string

definition endpoint_uri :: "amqp_endpoint \<Rightarrow> string" where
  "endpoint_uri e = amqp_uri (ep_host e) (ep_port e) (ep_vhost e) (ep_username e) (ep_password e)"

definition SetUpRabbitMq ::
  "amqp_endpoint \<Rightarrow> string \<Rightarrow> string \<Rightarrow> globals \<Rightarrow> 'v audit_state \<Rightarrow>
     (amqp_client \<times> string) \<times> globals \<times> 'v audit_state" where
  "SetUpRabbitMq ep auditTrailQue appName g s =
     (let g1 = ensure_app_name appName g;
          c = NewAmqpClient auditTrailQue (''audittrail-'' @ get_app_name g1) None
      in ((c, endpoint_uri ep), g1, s\<lparr>audit_client := Some c\<rparr>))"

definition SetUpAuditTrailPublisher ::
  "amqp_endpoint \<Rightarrow> string \<Rightarrow> string \<Rightarrow> publisher_option list \<Rightarrow> globals \<Rightarrow> 'v audit_state \<Rightarrow>
     (amqp_client \<times> string) \<times> globals \<times> 'v audit_state" where
  "SetUpAuditTrailPublisher ep queue appName opts g s =
     (let g1 = ensure_app_name appName g;
          c = NewAmqpClient queue (''audittrail-v2-'' @ get_app_name g1) None
      in ((c, endpoint_uri ep), g1, s\<lparr>audit_publisher := Some (NewAuditPublisher opts)\<rparr>))"

definition GetAuditPublisher :: "'v audit_state \<Rightarrow> 'v message_payload_audit publisher option" where
  "GetAuditPublisher s = audit_publisher s"

definition GetAuditTrailTrxPublisher :: "'v audit_state \<Rightarrow> 'v message_payload_audit publisher option" where
  "GetAuditTrailTrxPublisher s = trx_publisher s"

definition SetUpAuditTrailTrxPublisher ::
  "bool \<Rightarrow> amqp_endpoint \<Rightarrow> string \<Rightarrow> string \<Rightarrow> publisher_option list \<Rightarrow> globals \<Rightarrow> 'v audit_state \<Rightarrow>
     (amqp_client \<times> string) option \<times> globals \<times> 'v audit_state" where
  "SetUpAuditTrailTrxPublisher enabled ep queue appName opts g s =
     (let s1 = s\<lparr>trx_enabled := enabled\<rparr>
      in if \<not> enabled then (None, g, s1\<lparr>trx_publisher := None\<rparr>)
         else
           (let g1 = ensure_app_name appName g;
                c = NewAmqpClient queue (''audittrail-trx-'' @ get_app_name g1) None
            in (Some (c, endpoint_uri ep), g1, s1\<lparr>trx_publisher := Some (NewAuditPublisher opts)\<rparr>)))"

definition IsAuditTrailTrxEnabled :: "'v audit_state \<Rightarrow> bool" where
  "IsAuditTrailTrxEnabled s \<longleftrightarrow> trx_enabled s \<and> trx_publisher s \<noteq> None"

subsection \<open>Direct publication\<close>

datatype audit_event = AuditWarn string | AuditError string | AuditSentry err | AuditOk string

definition log_not_ready :: "int \<Rightarrow> string \<Rightarrow> 'v audit_state \<Rightarrow> audit_event list \<times> 'v audit_state" where
  "log_not_ready nanos reason s =
     (if (case not_ready_last_log s of None \<Rightarrow> False | Some prev \<Rightarrow> nanos - prev < 30 * Second)
      then ([], s)
      else ([AuditWarn (build_log_prefix ''pushMessageAudit'' @ '' skipping audit publish: '' @ reason)],
            s\<lparr>not_ready_last_log := Some nanos\<rparr>))"

text \<open>\<open>sentry\<close> says whether the Sentry client is initialised.\<close>

definition log_audit_error :: "bool \<Rightarrow> string \<Rightarrow> err \<Rightarrow> audit_event list" where
  "log_audit_error sentry msg e = AuditError msg # (if sentry then [AuditSentry e] else [])"

text \<open>\<open>push\<close> is the outcome of \<open>Push\<close> for the bytes (an error text or success), from \<open>AmqpOps\<close>.\<close>

definition push_message_audit ::
  "bool \<Rightarrow> int \<Rightarrow> ('v message_payload_audit \<Rightarrow> err + string) \<Rightarrow> (string \<Rightarrow> amqp_client \<Rightarrow> err option) \<Rightarrow>
     'v message_payload_audit \<Rightarrow> 'v audit_state \<Rightarrow> audit_event list \<times> 'v audit_state" where
  "push_message_audit sentry nanos marshal push data s =
     (case audit_client s of
        None \<Rightarrow> log_not_ready nanos ''client is nil'' s
      | Some c \<Rightarrow>
          (if \<not> IsReady c then log_not_ready nanos ''client not ready'' s
           else if queue_name c = [] then
             (let m = build_log_prefix ''pushMessageAudit'' @ '' queue name is empty''
              in (log_audit_error sentry m m, s))
           else
             (case marshal data of
                Inl e \<Rightarrow>
                  (log_audit_error sentry (build_log_prefix ''pushMessageAudit'' @
                     '' convert data to bytes failed err='' @ e) e, s)
              | Inr msgBytes \<Rightarrow>
                  (case push msgBytes c of
                     Some e \<Rightarrow>
                       (log_audit_error sentry (build_log_prefix ''pushMessageAudit'' @
                          '' publish message failed queue='' @ queue_name c @ '' err='' @ e) e, s)
                   | None \<Rightarrow> ([AuditOk (queue_name c)], s)))))"

subsection \<open>Process and data records\<close>

definition LogAudittrailProcess ::
  "globals \<Rightarrow> string \<Rightarrow> string \<Rightarrow> string \<Rightarrow> string \<Rightarrow> string list option \<Rightarrow> 'v audit_state \<Rightarrow>
     'v message_payload_audit option \<times> 'v audit_state" where
  "LogAudittrailProcess g now funcName desc info key s =
     (if funcName = [] \<or> desc = [] then (None, s)
      else
        (let d = \<lparr>ap_subject = get_app_name g, ap_function = funcName, ap_description = desc, ap_key = [],
                   ap_data = \<lparr>apd_time = now, apd_info = info\<rparr>\<rparr>;
             d1 = (case key of Some ks \<Rightarrow> d\<lparr>ap_key := ks\<rparr> | None \<Rightarrow> d);
             (i, s1) = next_audit_id s
         in (Some \<lparr>mp_id = i, mp_command = ''audit-trail-process'', mp_time = now,
                   mp_module_id = get_app_name g, mp_data = ProcessPayload d1\<rparr>, s1)))"

definition LogAudittrailData ::
  "globals \<Rightarrow> string \<Rightarrow> string \<Rightarrow> string \<Rightarrow> string \<Rightarrow> string \<Rightarrow> string list option \<Rightarrow>
     'v request_and_response option \<Rightarrow> 'v audit_state \<Rightarrow> 'v message_payload_audit option \<times> 'v audit_state" where
  "LogAudittrailData g now funcName desc source commType key data s =
     (case data of
        None \<Rightarrow> (None, s)
      | Some rr \<Rightarrow>
          (if funcName = [] \<or> ad_status_code (ars_detail (rr_response rr)) = 0 then (None, s)
           else
             (let d = \<lparr>adt_subject = get_app_name g, adt_function = funcName, adt_description = desc,
                        adt_key = [], adt_source = source, adt_communication_type = commType,
                        adt_data = data\<rparr>;
                  d1 = (case key of Some ks \<Rightarrow> d\<lparr>adt_key := ks\<rparr> | None \<Rightarrow> d);
                  (i, s1) = next_audit_id s
              in (Some \<lparr>mp_id = i, mp_command = ''audit-trail-data'', mp_time = now,
                        mp_module_id = get_app_name g, mp_data = DataPayload d1\<rparr>, s1))))"

text \<open>The worker-pool variants: what \<open>Submit\<close> does with the payload, or the goroutine's payload
  (\<open>Inr\<close>) when no publisher was set up.\<close>

type_synonym 'v v2_result =
  "(panic + submit_result) option + 'v message_payload_audit option"

definition submit_to_publisher ::
  "'v message_payload_audit option \<times> 'v audit_state \<Rightarrow> 'v message_payload_audit publisher \<Rightarrow>
     (panic + submit_result) option \<times> 'v message_payload_audit publisher \<times> 'v audit_state" where
  "submit_to_publisher ps p =
     (case ps of
        (None, s) \<Rightarrow> (None, p, s)
      | (Some payload, s) \<Rightarrow> (let (r, p1) = Submit payload p in (Some r, p1, s)))"

definition LogAudittrailProcessV2 ::
  "globals \<Rightarrow> string \<Rightarrow> string \<Rightarrow> string \<Rightarrow> string \<Rightarrow> string list option \<Rightarrow> 'v audit_state \<Rightarrow>
     'v v2_result \<times> 'v audit_state" where
  "LogAudittrailProcessV2 g now funcName desc info key s =
     (case audit_publisher s of
        None \<Rightarrow> (let (payload, s1) = LogAudittrailProcess g now funcName desc info key s in (Inr payload, s1))
      | Some p \<Rightarrow>
          (let (r, p1, s1) = submit_to_publisher (LogAudittrailProcess g now funcName desc info key s) p
           in (Inl r, s1\<lparr>audit_publisher := Some p1\<rparr>)))"

definition LogAudittrailDataV2 ::
  "globals \<Rightarrow> string \<Rightarrow> string \<Rightarrow> string \<Rightarrow> string \<Rightarrow> string \<Rightarrow> string list option \<Rightarrow>
     'v request_and_response option \<Rightarrow> 'v audit_state \<Rightarrow> 'v v2_result \<times> 'v audit_state" where
  "LogAudittrailDataV2 g now funcName desc source commType key data s =
     (case audit_publisher s of
        None \<Rightarrow>
          (let (payload, s1) = LogAudittrailData g now funcName desc source commType key data s
           in (Inr payload, s1))
      | Some p \<Rightarrow>
          (let (r, p1, s1) =
             submit_to_publisher (LogAudittrailData g now funcName desc source commType key data s) p
           in (Inl r, s1\<lparr>audit_publisher := Some p1\<rparr>)))"

subsection \<open>Transaction records and traces\<close>

text \<open>The payload of a transaction event, with the defaults filled in; \<open>None\<close> when it is skipped.\<close>

definition LogAuditTrailTrx ::
  "globals \<Rightarrow> string \<Rightarrow> string \<Rightarrow> 'v audit_trail_trx \<Rightarrow> 'v audit_state \<Rightarrow>
     (panic + submit_result) option \<times> 'v audit_state" where
  "LogAuditTrailTrx g now event_now data s =
     (case (trx_enabled s, trx_publisher s) of
        (True, Some p) \<Rightarrow>
          (if trx_reff_no data = [] \<and> trx_order_no data = [] then (None, s)
           else
             (let d1 = (if trx_service data = [] then data\<lparr>trx_service := get_app_name g\<rparr> else data);
                  d2 = (if trx_event_time d1 = [] then d1\<lparr>trx_event_time := event_now\<rparr> else d1);
                  (i, s1) = next_audit_id s;
                  (r, p1) = Submit \<lparr>mp_id = i, mp_command = ''audit-trail-trx'', mp_time = now,
                              mp_module_id = get_app_name g, mp_data = TrxPayload d2\<rparr> p
              in (Some r, s1\<lparr>trx_publisher := Some p1\<rparr>)))
      | _ \<Rightarrow> (None, s))"

definition has_any_trace_key :: "'v transaction_trace \<Rightarrow> bool" where
  "has_any_trace_key d \<longleftrightarrow> tt_trx_id d \<noteq> 0 \<or> tt_trx_no d \<noteq> [] \<or> tt_trx_reference_no d \<noteq> [] \<or>
     tt_trx_pay_code1 d \<noteq> [] \<or> tt_ticket_id d \<noteq> [] \<or> tt_merchant_code d \<noteq> [] \<or> tt_m_id d \<noteq> 0 \<or>
     tt_transfer_id d \<noteq> 0 \<or> tt_partner_reference_no d \<noteq> []"

definition complete_trace ::
  "globals \<Rightarrow> string \<Rightarrow> 'v transaction_trace \<Rightarrow> 'v transaction_trace" where
  "complete_trace g event_now d =
     (let d1 = (if tt_v d = 0 then d\<lparr>tt_v := (if tt_domain d = ''fundtransfer'' then 2 else 1)\<rparr> else d);
          d2 = (if tt_kind d1 = [] then d1\<lparr>tt_kind := ''hop''\<rparr> else d1);
          d3 = (if tt_service d2 = [] then d2\<lparr>tt_service := get_app_name g\<rparr> else d2)
      in if tt_event_time d3 = [] then d3\<lparr>tt_event_time := event_now\<rparr> else d3)"

definition LogTransactionTrace ::
  "globals \<Rightarrow> string \<Rightarrow> string \<Rightarrow> 'v transaction_trace \<Rightarrow> 'v audit_state \<Rightarrow>
     (panic + submit_result) option \<times> 'v audit_state" where
  "LogTransactionTrace g now event_now data s =
     (case (trx_enabled s, trx_publisher s) of
        (True, Some p) \<Rightarrow>
          (if tt_event data = [] \<or> \<not> has_any_trace_key data then (None, s)
           else
             (let (i, s1) = next_audit_id s;
                  (r, p1) = Submit \<lparr>mp_id = i, mp_command = ''transaction-trace'', mp_time = now,
                              mp_module_id = get_app_name g,
                              mp_data = TracePayload (complete_trace g event_now data)\<rparr> p
              in (Some r, s1\<lparr>trx_publisher := Some p1\<rparr>)))
      | _ \<Rightarrow> (None, s))"

subsection \<open>What reaches the queue\<close>

lemma complete_trace_fields:
  "tt_v (complete_trace g now d) =
     (if tt_v d \<noteq> 0 then tt_v d else if tt_domain d = ''fundtransfer'' then 2 else 1)"
  "tt_kind (complete_trace g now d) = (if tt_kind d = [] then ''hop'' else tt_kind d)"
  "tt_service (complete_trace g now d) = (if tt_service d = [] then get_app_name g else tt_service d)"
  "tt_event_time (complete_trace g now d) = (if tt_event_time d = [] then now else tt_event_time d)"
  "tt_event (complete_trace g now d) = tt_event d"
  "has_any_trace_key (complete_trace g now d) = has_any_trace_key d"
  by (simp_all add: complete_trace_def Let_def has_any_trace_key_def)

text \<open>
  C32. What \<open>LogTransactionTrace\<close> puts on the queue: nothing unless trace publishing is enabled and set up
  and the record has an event and a transaction key; otherwise, when the publisher has room, exactly
  one message with the next id, whose record has a version (2 for fund transfers and 1 otherwise when
  unset), a kind, an event and a key, and the defaults for service and time. Ids count up by one
  per accepted or dropped record.
\<close>

theorem transaction_trace_published:
  assumes "trx_publisher s = Some p" and "\<not> circuit_open p" and "\<not> msg_chan_closed p"
    and "int (length (msg_chan p)) < buffer_size p" and "audit_id_counter s < 2 ^ 63 - 1" and "0 \<le> audit_id_counter s"
  shows "case LogTransactionTrace g now event_now d s of (r, s') \<Rightarrow>
    (if trx_enabled s \<and> tt_event d \<noteq> [] \<and> has_any_trace_key d
     then r = Some (Inr Enqueued) \<and> audit_id_counter s' = audit_id_counter s + 1 \<and>
       (\<exists>t. map_option msg_chan (trx_publisher s') = Some (msg_chan p @
              [\<lparr>mp_id = audit_id_counter s + 1, mp_command = ''transaction-trace'', mp_time = now,
                mp_module_id = get_app_name g, mp_data = TracePayload t\<rparr>]) \<and>
            tt_v t \<noteq> 0 \<and> (tt_v d = 0 \<longrightarrow> (tt_v t = 2 \<longleftrightarrow> tt_domain d = ''fundtransfer'')) \<and>
            tt_kind t \<noteq> [] \<and> tt_event t \<noteq> [] \<and> has_any_trace_key t \<and>
            tt_service t = (if tt_service d = [] then get_app_name g else tt_service d) \<and>
            tt_event_time t = (if tt_event_time d = [] then event_now else tt_event_time d))
     else r = None \<and> s' = s)"
proof -
  have w: "wrap64 (audit_id_counter s + 1) = audit_id_counter s + 1"
    using assms(5,6) by (simp add: wrap64_id in_i64_def)
  show ?thesis
  proof (cases "trx_enabled s \<and> tt_event d \<noteq> [] \<and> has_any_trace_key d")
    case True
    let ?t = "complete_trace g event_now d"
    have "tt_v ?t \<noteq> 0 \<and> (tt_v d = 0 \<longrightarrow> (tt_v ?t = 2 \<longleftrightarrow> tt_domain d = ''fundtransfer'')) \<and>
        tt_kind ?t \<noteq> [] \<and> tt_event ?t \<noteq> [] \<and> has_any_trace_key ?t"
      using True by (simp add: complete_trace_fields)
    with True assms(1-4) show ?thesis
      by (simp add: LogTransactionTrace_def next_audit_id_def Let_def w Submit_def submit_send_def complete_trace_fields)
  next
    case False
    with assms(1) show ?thesis by (cases "trx_enabled s") (auto simp: LogTransactionTrace_def)
  qed
qed

definition demo_trace :: "string transaction_trace" where
  "demo_trace = \<lparr>tt_v = 0, tt_event = ''created'', tt_kind = [], tt_leg = [], tt_direction = [], tt_service = [],
     tt_function = [], tt_peer = [], tt_transport = [], tt_status = [], tt_m_id = 0, tt_merchant_code = [],
     tt_trx_id = 7, tt_trx_no = [], tt_trx_reference_no = [], tt_trx_pay_code1 = [], tt_trx_pc_id = 0,
     tt_ticket_id = [], tt_external_id = [], tt_request_id = [], tt_traceparent = [],
     tt_domain = ''fundtransfer'', tt_transfer_id = 0, tt_reference_number = [], tt_partner_reference_no = [],
     tt_detail_id = 0, tt_detail_partner_reference_no = [], tt_vendor_reference_no = [], tt_merchant_id = 0,
     tt_callback_direction = [], tt_attempt_id = [], tt_cycle = 0, tt_attempt = 0, tt_http = None,
     tt_request = None, tt_response = None, tt_message = [], tt_error_code = [], tt_duration_ms = 0,
     tt_event_time = [], tt_created_at = None\<rparr>"

definition demo_audit_state :: "string audit_state" where
  "demo_audit_state = \<lparr>audit_client = None, audit_id_counter = 41, not_ready_last_log = None,
     audit_publisher = None, trx_publisher = Some default_publisher, trx_enabled = True\<rparr>"

theorem transaction_trace_published_witness:
  "\<exists>s' t. LogTransactionTrace \<lparr>glob_app_name = ''svc'', glob_app_env = ''dev''\<rparr> ''now'' ''event'' demo_trace
      demo_audit_state = (Some (Inr Enqueued), s') \<and> audit_id_counter s' = 42 \<and>
    map_option msg_chan (trx_publisher s') = Some
      [\<lparr>mp_id = 42, mp_command = ''transaction-trace'', mp_time = ''now'', mp_module_id = ''svc'',
        mp_data = TracePayload t\<rparr>] \<and> tt_v t = 2"
  using transaction_trace_published [where s = demo_audit_state and p = default_publisher and d = demo_trace
        and g = "\<lparr>glob_app_name = ''svc'', glob_app_env = ''dev''\<rparr>" and now = "''now''" and event_now = "''event''"]
  by (auto simp: demo_audit_state_def default_publisher_def demo_trace_def has_any_trace_key_def
      get_app_name_def split: prod.splits)

text \<open>A warning about the client at most every thirty seconds.\<close>

lemma not_ready_quiet:
  "not_ready_last_log s = Some prev \<Longrightarrow> now - prev < 30 * Second \<Longrightarrow> log_not_ready now reason s = ([], s)"
  by (simp add: log_not_ready_def)

text \<open>Direct publication never changes the client and logs exactly one line unless it is quiet.\<close>

lemma push_message_audit_ready:
  assumes "audit_client s = Some c" and "IsReady c" and "queue_name c \<noteq> []" and "marshal data = Inr bytes"
  shows "push_message_audit sentry nanos marshal push data s =
    (case push bytes c of
       None \<Rightarrow> ([AuditOk (queue_name c)], s)
     | Some e \<Rightarrow> (log_audit_error sentry (build_log_prefix ''pushMessageAudit'' @
         '' publish message failed queue='' @ queue_name c @ '' err='' @ e) e, s))"
  using assms by (simp add: push_message_audit_def split: option.split)

end
