(* ===== verification/PublisherSpec.thy ===== *)
theory PublisherSpec
  imports AuditPublisher
begin

section \<open>What the audit publisher promises\<close>

text \<open>
  An abstract specification of the publisher of \<^verbatim>\<open>audittrail_publisher.go\<close>, without queue, workers, failure
  counter or goroutines: bags of messages and the phase of the circuit breaker. The concurrent system
  refines it. A message is let in only while the breaker is closed. Once in it is put among the pending
  ones in whatever phase the breaker is then (the breaker may have tripped in between), unless the bag is
  full; \<open>n\<close> is the size of the buffer and \<open>k\<close> the number of workers. After the channel has been closed it
  is lost in a panic instead. A pending message is published or discarded once. The breaker goes through
  its phases in one order.
\<close>

datatype phase = Closed | Open | Resetting | Abandoned

record 'm bag_spec =
  bs_phase :: phase
  bs_stopped :: bool
  bs_shut :: bool
  bs_admitted :: "'m multiset"
  bs_pending :: "'m multiset"
  bs_published :: "'m multiset"
  bs_discarded :: "'m multiset"
  bs_dropped :: "'m multiset"
  bs_panicked :: "'m multiset"

inductive bag_step :: "nat \<Rightarrow> nat \<Rightarrow> 'm bag_spec \<Rightarrow> 'm bag_spec \<Rightarrow> bool" for n k where
  let_in: "bs_phase b = Closed \<Longrightarrow>
     bag_step n k b (b\<lparr>bs_admitted := add_mset m (bs_admitted b)\<rparr>)"
| refuse: "bs_phase b \<noteq> Closed \<Longrightarrow>
     bag_step n k b (b\<lparr>bs_dropped := add_mset m (bs_dropped b)\<rparr>)"
| accept: "m \<in># bs_admitted b \<Longrightarrow> \<not> bs_shut b \<Longrightarrow> size (bs_pending b) < n + k \<Longrightarrow>
     bag_step n k b (b\<lparr>bs_admitted := bs_admitted b - {#m#}, bs_pending := add_mset m (bs_pending b)\<rparr>)"
| overflow: "m \<in># bs_admitted b \<Longrightarrow> \<not> bs_shut b \<Longrightarrow> n \<le> size (bs_pending b) \<Longrightarrow>
     bag_step n k b (b\<lparr>bs_admitted := bs_admitted b - {#m#}, bs_dropped := add_mset m (bs_dropped b)\<rparr>)"
| lose: "m \<in># bs_admitted b \<Longrightarrow> bs_shut b \<Longrightarrow>
     bag_step n k b (b\<lparr>bs_admitted := bs_admitted b - {#m#}, bs_panicked := add_mset m (bs_panicked b)\<rparr>)"
| publish: "m \<in># bs_pending b \<Longrightarrow>
     bag_step n k b (b\<lparr>bs_pending := bs_pending b - {#m#}, bs_published := add_mset m (bs_published b)\<rparr>)"
| discard: "m \<in># bs_pending b \<Longrightarrow>
     bag_step n k b (b\<lparr>bs_pending := bs_pending b - {#m#}, bs_discarded := add_mset m (bs_discarded b)\<rparr>)"
| trip: "bs_phase b = Closed \<Longrightarrow> bag_step n k b (b\<lparr>bs_phase := Open\<rparr>)"
| expire: "bs_phase b = Open \<Longrightarrow> bag_step n k b (b\<lparr>bs_phase := Resetting\<rparr>)"
| reopen: "bs_phase b = Resetting \<Longrightarrow> bag_step n k b (b\<lparr>bs_phase := Closed\<rparr>)"
| abandon: "bs_phase b = Open \<Longrightarrow> bs_stopped b \<Longrightarrow> bag_step n k b (b\<lparr>bs_phase := Abandoned\<rparr>)"
| stop: "\<not> bs_stopped b \<Longrightarrow> bag_step n k b (b\<lparr>bs_stopped := True\<rparr>)"
| shut: "bs_stopped b \<Longrightarrow> \<not> bs_shut b \<Longrightarrow> bag_step n k b (b\<lparr>bs_shut := True\<rparr>)"

inductive_cases bag_stepE [elim]: "bag_step n k b c"

definition empty_bag :: "'m bag_spec" where
  "empty_bag = \<lparr>bs_phase = Closed, bs_stopped = False, bs_shut = False, bs_admitted = {#}, bs_pending = {#},
     bs_published = {#}, bs_discarded = {#}, bs_dropped = {#}, bs_panicked = {#}\<rparr>"

subsection \<open>The abstraction\<close>

definition phase_of :: "'m pub_system \<Rightarrow> phase" where
  "phase_of s =
     (if \<not> circuit_open (pub s) then Closed
      else case cooldowns s of
             [] \<Rightarrow> Abandoned
           | CoolWaiting # _ \<Rightarrow> Open
           | CoolReset # _ \<Rightarrow> Resetting)"

definition bag_of :: "'m pub_system \<Rightarrow> 'm bag_spec" where
  "bag_of s =
     \<lparr>bs_phase = phase_of s, bs_stopped = stop_called s, bs_shut = msg_chan_closed (pub s),
      bs_admitted = mset (admitted s),
      bs_pending = mset (msg_chan (pub s)) + mset (concat (map held (workers s))),
      bs_published = mset (published s), bs_discarded = mset (discarded s), bs_dropped = mset (dropped s),
      bs_panicked = mset (panicked s)\<rparr>"

definition spec_inv :: "nat \<Rightarrow> nat \<Rightarrow> 'm pub_system \<Rightarrow> bool" where
  "spec_inv n k s \<longleftrightarrow> breaker_inv s \<and> buffer_size (pub s) = int n \<and> length (workers s) = k"

lemma bag_of_started: "bag_of (started_publisher opts) = empty_bag"
  by (simp add: bag_of_def started_publisher_def empty_bag_def phase_of_def held_def Let_def)

lemma held_simps [simp]: "held Idle = []" "held (Counted n) = []" "held (Holding m) = [m]"
  by (simp_all add: held_def)

lemma held_bound: "length (concat (map held ws)) \<le> length ws"
proof (induction ws)
  case (Cons w ws)
  then show ?case by (cases w) simp_all
qed simp

lemma held_update:
  assumes "w < length ws"
  shows "ws ! w = Holding m \<Longrightarrow> held y = [] \<Longrightarrow>
      mset (concat (map held ws)) = add_mset m (mset (concat (map held (ws[w := y]))))"
    and "held (ws ! w) = [] \<Longrightarrow>
      mset (concat (map held (ws[w := y]))) = mset (held y) + mset (concat (map held ws))"
  using mset_concat_held_update [OF assms, of y] by simp_all

lemma phase_of_cong:
  "circuit_open (pub t) = circuit_open (pub s) \<Longrightarrow> cooldowns t = cooldowns s \<Longrightarrow> phase_of t = phase_of s"
  by (simp add: phase_of_def)

lemma phase_of_updates [simp]:
  "phase_of (s\<lparr>submitted := l\<rparr>) = phase_of s" "phase_of (s\<lparr>admitted := l\<rparr>) = phase_of s"
  "phase_of (s\<lparr>dropped := l\<rparr>) = phase_of s" "phase_of (s\<lparr>panicked := l\<rparr>) = phase_of s"
  "phase_of (s\<lparr>pub := close_done (pub s), stop_called := x\<rparr>) = phase_of s"
  "phase_of (s\<lparr>pub := close_messages (pub s)\<rparr>) = phase_of s"
  by (rule phase_of_cong; simp add: close_done_def close_messages_def)+

text \<open>A worker is done with a message.\<close>

lemma bag_of_done:
  assumes "w < length (workers s)" "workers s ! w = Holding m" "held y = []"
    and "pub t = pub s \<or> (msg_chan (pub t) = msg_chan (pub s) \<and> msg_chan_closed (pub t) = msg_chan_closed (pub s) \<and>
      circuit_open (pub t) = circuit_open (pub s))"
    and "workers t = (workers s)[w := y]" "cooldowns t = cooldowns s" "admitted t = admitted s"
    and "dropped t = dropped s" "panicked t = panicked s" "stop_called t = stop_called s"
    and "published t = m # published s \<and> discarded t = discarded s \<or>
      published t = published s \<and> discarded t = m # discarded s"
  shows "bag_step n k (bag_of s) (bag_of t)"
proof -
  have m: "m \<in># bs_pending (bag_of s)"
    using held_update(1) [OF assms(1-3)] by (simp add: bag_of_def)
  have pend: "bs_pending (bag_of t) = bs_pending (bag_of s) - {#m#}"
    using held_update(1) [OF assms(1-3)] assms(4,5) by (auto simp: bag_of_def)
  have "circuit_open (pub t) = circuit_open (pub s)" "msg_chan_closed (pub t) = msg_chan_closed (pub s)"
    using assms(4) by auto
  with phase_of_cong [of t s] assms(6) have ph: "phase_of t = phase_of s" by simp
  from assms(11) show ?thesis
  proof
    assume "published t = m # published s \<and> discarded t = discarded s"
    with pend ph assms have "bag_of t = (bag_of s)\<lparr>bs_pending := bs_pending (bag_of s) - {#m#},
        bs_published := add_mset m (bs_published (bag_of s))\<rparr>" by (auto simp: bag_of_def)
    with bag_step.publish [OF m] show ?thesis by simp
  next
    assume "published t = published s \<and> discarded t = m # discarded s"
    with pend ph assms have "bag_of t = (bag_of s)\<lparr>bs_pending := bs_pending (bag_of s) - {#m#},
        bs_discarded := add_mset m (bs_discarded (bag_of s))\<rparr>" by (auto simp: bag_of_def)
    with bag_step.discard [OF m] show ?thesis by simp
  qed
qed

text \<open>A \<open>Submit\<close> that has passed the breaker sends.\<close>

lemma bag_of_send:
  assumes "admitted s = before @ m # after" and "submit_send m (pub s) = (Inr r, p)" and "spec_inv n k s"
    and t: "t = s\<lparr>pub := p, admitted := before @ after, dropped := (if r = Enqueued then dropped s else m # dropped s)\<rparr>"
  shows "bag_step n k (bag_of s) (bag_of t)"
proof -
  note f = submit_send_frame [OF assms(2)]
  have m: "m \<in># bs_admitted (bag_of s)" "\<not> bs_shut (bag_of s)"
    using assms(1) f by (simp_all add: bag_of_def)
  have inv: "buffer_size (pub s) = int n" "length (concat (map held (workers s))) \<le> k"
    using assms(3) held_bound [of "workers s"] by (simp_all add: spec_inv_def)
  have ph: "phase_of t = phase_of s" by (rule phase_of_cong) (use f t in simp_all)
  have size: "size (bs_pending (bag_of s)) = length (msg_chan (pub s)) + length (concat (map held (workers s)))"
    unfolding bag_of_def by (simp only: bag_spec.simps size_union size_mset)
  show ?thesis
  proof (cases "r = Enqueued")
    case True
    with f inv size have "size (bs_pending (bag_of s)) < n + k" by linarith
    from bag_step.accept [OF m this] True ph f t assms(1) show ?thesis by (simp add: bag_of_def)
  next
    case False
    with f inv size have "n \<le> size (bs_pending (bag_of s))" by linarith
    from bag_step.overflow [OF m this] False ph f t assms(1) show ?thesis by (simp add: bag_of_def)
  qed
qed

lemma bag_of_send_panics:
  assumes "admitted s = before @ m # after" and "submit_send m (pub s) = (Inl e, p)"
  shows "bag_step n k (bag_of s) (bag_of (s\<lparr>admitted := before @ after, panicked := m # panicked s\<rparr>))"
proof -
  have "m \<in># bs_admitted (bag_of s)" "bs_shut (bag_of s)"
    using assms(1) submit_send_panics [OF assms(2)] by (simp_all add: bag_of_def)
  from bag_step.lose [OF this, of n k] assms(1) show ?thesis by (simp add: bag_of_def)
qed

lemma publisher_step_refines:
  "publisher_step E s t \<Longrightarrow> spec_inv n k s \<Longrightarrow> bag_step n k (bag_of s) (bag_of t) \<or> bag_of t = bag_of s"
proof (induction rule: publisher_step.induct)
  case (admit s m)
  then have "bs_phase (bag_of s) = Closed" by (simp add: bag_of_def phase_of_def)
  from bag_step.let_in [OF this, of n k m] show ?case by (simp add: bag_of_def)
next
  case (turn_away s m)
  then have "bs_phase (bag_of s) \<noteq> Closed" by (simp add: bag_of_def phase_of_def split: list.split cooldown.split)
  from bag_step.refuse [OF this, of n k m] show ?case by (simp add: bag_of_def)
next
  case (send s before m after r p)
  then show ?case by (intro disjI1 bag_of_send [OF send(1,2)]) simp_all
next
  case (send_panics s before m after e p)
  then show ?case by (intro disjI1 bag_of_send_panics [OF send_panics(1,2)])
next
  case (take_msg w s m rest)
  then show ?case
    using held_update(2) [OF take_msg(1), of "Holding m"] by (simp add: bag_of_def phase_of_def)
next
  case (process_fail w s m cl marshal publish r out i p)
  then show ?case
    using add_failure_frame [OF process_fail(6)]
    by - (rule disjI1, rule bag_of_done [where w = w and m = m and y = "Counted i"], simp_all)
next
  case (process_marshal w s m cl marshal publish e out)
  then show ?case by - (rule disjI1, rule bag_of_done [where w = w and m = m and y = Idle], simp_all)
next
  case (process_ok w s m cl marshal publish out)
  then show ?case by - (rule disjI1, rule bag_of_done [where w = w and m = m and y = Idle], simp_all)
next
  case (trip w s i fired p)
  note f = trip_circuit_frame [OF trip(3)]
  have h: "mset (concat (map held ((workers s)[w := Idle]))) = mset (concat (map held (workers s)))"
    using held_update(2) [OF trip(1), of Idle] trip(2) by simp
  show ?case
  proof (cases fired)
    case True
    with f have "bs_phase (bag_of s) = Closed" by (simp add: bag_of_def phase_of_def)
    from bag_step.trip [OF this, of n k] True f h show ?thesis
      by (simp add: bag_of_def phase_of_def)
  next
    case False
    with f h show ?thesis by (simp add: bag_of_def phase_of_def)
  qed
next
  case (cool_expire i s)
  then have c: "cooldowns s = [CoolWaiting]" "i = 0" "circuit_open (pub s)"
    by (cases "cooldowns s"; auto simp: spec_inv_def breaker_inv_def)+
  then have "bs_phase (bag_of s) = Open" by (simp add: bag_of_def phase_of_def)
  from bag_step.expire [OF this, of n k] c show ?case by (simp add: bag_of_def phase_of_def)
next
  case (cool_close i s)
  then have c: "cooldowns s = [CoolReset]" "i = 0" "circuit_open (pub s)"
    by (cases "cooldowns s"; auto simp: spec_inv_def breaker_inv_def)+
  then have "bs_phase (bag_of s) = Resetting" by (simp add: bag_of_def phase_of_def)
  from bag_step.reopen [OF this, of n k] c show ?case by (simp add: bag_of_def phase_of_def)
next
  case (cool_done i s)
  then have c: "cooldowns s = [CoolWaiting]" "i = 0" "circuit_open (pub s)" "stop_called s"
    by (cases "cooldowns s"; auto simp: spec_inv_def breaker_inv_def)+
  then have "bs_phase (bag_of s) = Open" "bs_stopped (bag_of s)" by (simp_all add: bag_of_def phase_of_def)
  from bag_step.abandon [OF this, of n k] c show ?case by (simp add: bag_of_def phase_of_def)
next
  case (stop s)
  then have "\<not> bs_stopped (bag_of s)" by (simp add: bag_of_def)
  from bag_step.stop [OF this, of n k] show ?case by (simp add: bag_of_def) (simp add: close_done_def)
next
  case (stop_messages s)
  then have "bs_stopped (bag_of s)" "\<not> bs_shut (bag_of s)" by (simp_all add: bag_of_def)
  from bag_step.shut [OF this, of n k] show ?case by (simp add: bag_of_def) (simp add: close_messages_def)
qed

lemma publisher_step_sizes:
  "publisher_step E s t \<Longrightarrow> buffer_size (pub t) = buffer_size (pub s) \<and> length (workers t) = length (workers s)"
  by (induction rule: publisher_step.induct)
    (auto simp: close_done_def close_messages_def dest: submit_send_frame add_failure_frame trip_circuit_frame)

interpretation bag: refinement "publisher_step E" "spec_inv n k" "bag_step n k" bag_of for E n k
proof
  fix s t assume "publisher_step E s t" "spec_inv n k s"
  then show "spec_inv n k t"
    using publisher_step_breaker publisher_step_sizes by (fastforce simp: spec_inv_def)
qed (rule publisher_step_refines)

lemma started_spec_inv:
  assumes "p = (NewAuditPublisher opts :: 'm publisher)"
  shows "spec_inv (nat (buffer_size p)) (nat (worker_count p)) (started_publisher opts :: 'm pub_system)"
proof -
  have "0 < buffer_size p" unfolding assms by (rule NewAuditPublisher_buffer)
  then show ?thesis unfolding spec_inv_def
    by (intro conjI started_breaker) (simp_all add: assms started_publisher_def Let_def)
qed

subsection \<open>Properties\<close>

text \<open>
  C2. The publisher refines its specification: every interleaving of the atomic operations of submitters,
  workers, cooldowns and \<open>Stop\<close>, whatever the workers meet, is, through the abstraction, a run of the bags
  and the breaker phases from the empty bag. So a message is let in only while the breaker is closed, is
  dropped otherwise or when the buffer is full, and every one let in is published, discarded, dropped or
  lost in a panic at most once. The breaker is abandoned open only after \<open>Stop\<close>, and so is a panic.
\<close>

theorem publisher_refines_bags:
  assumes "(publisher_step E)\<^sup>*\<^sup>* (started_publisher opts) (s :: 'm pub_system)"
    and "p = (NewAuditPublisher opts :: 'm publisher)"
  shows "(bag_step (nat (buffer_size p)) (nat (worker_count p)))\<^sup>*\<^sup>* empty_bag (bag_of s) \<and>
    (bs_phase (bag_of s) = Abandoned \<or> bs_panicked (bag_of s) \<noteq> {#} \<longrightarrow> stop_called s)"
proof
  note inv = started_spec_inv [OF assms(2)]
  show "(bag_step (nat (buffer_size p)) (nat (worker_count p)))\<^sup>*\<^sup>* empty_bag (bag_of s)"
    using bag.refines_steps [OF assms(1) inv] by (simp add: bag_of_started)
  have "(bs_phase (bag_of s) = Abandoned \<or> bs_panicked (bag_of s) \<noteq> {#} \<or> bs_shut (bag_of s) \<longrightarrow> bs_stopped (bag_of s))"
    by (rule bag.transfer_invariant [OF assms(1) inv]) (auto simp: bag_of_started empty_bag_def)
  then show "bs_phase (bag_of s) = Abandoned \<or> bs_panicked (bag_of s) \<noteq> {#} \<longrightarrow> stop_called s"
    by (simp add: bag_of_def)
qed

text \<open>One message submitted to a publisher with the default sizes.\<close>

theorem publisher_refines_bags_witness:
  "\<exists>s. (publisher_step (\<lambda>_. True))\<^sup>*\<^sup>* (started_publisher []) s \<and> bs_pending (bag_of s) = {#''m''#} \<and>
     (bag_step 1000 10)\<^sup>*\<^sup>* empty_bag (bag_of s)"
proof -
  let ?s0 = "started_publisher [] :: string pub_system"
  let ?s1 = "?s0\<lparr>pub := (pub ?s0)\<lparr>msg_chan := [''m'']\<rparr>, submitted := [''m''], dropped := []\<rparr>"
  have p: "pub ?s0 = (NewAuditPublisher [] :: string publisher)" "submitted ?s0 = []" "dropped ?s0 = []"
    by (simp_all add: started_publisher_def Let_def)
  have "Submit ''m'' (pub ?s0) = (Inr Enqueued, (pub ?s0)\<lparr>msg_chan := [''m'']\<rparr>)"
    using NewAuditPublisher_buffer [of "[]"] by (simp add: Submit_def submit_send_def p(1))
  from submit_steps [OF this] have run: "(publisher_step (\<lambda>_. True))\<^sup>*\<^sup>* ?s0 ?s1" by (simp add: p)
  moreover have "bs_pending (bag_of ?s1) = {#''m''#}"
    by (simp add: bag_of_def started_publisher_def Let_def)
  moreover have "nat (buffer_size (NewAuditPublisher [] :: string publisher)) = 1000"
      "nat (worker_count (NewAuditPublisher [] :: string publisher)) = 10"
    by (simp_all add: NewAuditPublisher_def default_publisher_def)
  moreover note publisher_refines_bags [OF run refl]
  ultimately show ?thesis by (intro exI [of _ ?s1]) simp
qed

end
