(* ===== verification/PublisherDrain.thy ===== *)
theory PublisherDrain
  imports PublisherSpec
begin

section \<open>Stopping the audit publisher\<close>

text \<open>
  \<open>Stop\<close> closes the two channels and waits for the workers. A worker ends when the buffer is closed and
  empty and it holds no message. From the call of \<open>Stop\<close> on, the workers, the cooldown, the rest of \<open>Stop\<close>
  and the submissions under way only finish what there is: each of their steps makes \<open>drain_weight\<close> smaller,
  so the wait ends. What becomes of the messages depends on what the workers meet.
\<close>

text \<open>What \<open>wg.Wait()\<close> waits for: the loop of every worker has ended.\<close>

definition workers_done :: "'m pub_system \<Rightarrow> bool" where
  "workers_done s \<longleftrightarrow> msg_chan_closed (pub s) \<and> msg_chan (pub s) = [] \<and> list_all (\<lambda>w. w = Idle) (workers s)"

text \<open>The steps that do not begin a \<open>Submit\<close>.\<close>

definition drain_step :: "('m surroundings \<Rightarrow> bool) \<Rightarrow> 'm pub_system \<Rightarrow> 'm pub_system \<Rightarrow> bool" where
  "drain_step E s t \<longleftrightarrow> publisher_step E s t \<and> submitted t = submitted s"

text \<open>
  Surroundings in which no worker panics (\<open>ready_client_never_nil\<close>: a ready client has a channel), and those
  in which every message gets through: the client of queue \<open>q\<close> is ready, \<open>enc\<close> encodes, the broker takes it.
\<close>

fun safe_surroundings :: "'m surroundings \<Rightarrow> bool" where
  "safe_surroundings (cl, marshal, publish) \<longleftrightarrow> (\<forall>c. cl = Some c \<and> IsReady c \<longrightarrow> channel c \<noteq> None)"

fun all_is_well :: "string \<Rightarrow> ('m \<Rightarrow> string) \<Rightarrow> 'm surroundings \<Rightarrow> bool" where
  "all_is_well q enc (cl, marshal, publish) \<longleftrightarrow>
     (\<exists>c. cl = Some c \<and> IsReady c \<and> channel c \<noteq> None \<and> queue_name c = q) \<and>
     (\<forall>m. marshal m = Inr (enc m)) \<and> (\<forall>msg. publish q msg = None)"

definition on_the_wire :: "string \<Rightarrow> ('m \<Rightarrow> string) \<Rightarrow> string \<Rightarrow> 'm \<Rightarrow> string \<times> publishing" where
  "on_the_wire q enc ttl m =
     (q, \<lparr>pub_content_type = ''application/json'', pub_body = enc m, pub_expiration = ttl\<rparr>)"

text \<open>The messages that are in the queue, with a worker, or behind them.\<close>

definition accepted :: "'m pub_system \<Rightarrow> 'm multiset" where
  "accepted s = mset (published s) + mset (discarded s) + mset (msg_chan (pub s)) + mset (concat (map held (workers s)))"

fun worker_weight :: "'m worker \<Rightarrow> nat" where
  "worker_weight Idle = 0"
| "worker_weight (Counted n) = 3"
| "worker_weight (Holding m) = 4"

fun cooldown_weight :: "cooldown \<Rightarrow> nat" where
  "cooldown_weight CoolWaiting = 2"
| "cooldown_weight CoolReset = 1"

definition drain_weight :: "'m pub_system \<Rightarrow> nat" where
  "drain_weight s = 5 * length (msg_chan (pub s)) + sum_list (map worker_weight (workers s)) +
     sum_list (map cooldown_weight (cooldowns s)) + 6 * length (admitted s) +
     (if msg_chan_closed (pub s) then 0 else 1)"

lemma weight_update:
  assumes "i < length xs"
  shows "sum_list (map f (xs[i := x])) + f (xs ! i) = sum_list (map f xs) + (f x :: nat)"
  using assms by (induction xs arbitrary: i) (auto split: nat.splits)

lemma weight_remove:
  assumes "i < length xs"
  shows "sum_list (map f (take i xs @ drop (Suc i) xs)) + f (xs ! i) = sum_list (map f xs :: nat list)"
proof -
  have "sum_list (map f xs) = sum_list (map f (take i xs @ xs ! i # drop (Suc i) xs))"
    using id_take_nth_drop [OF assms] by simp
  then show ?thesis by simp
qed

definition stopped_inv :: "nat \<Rightarrow> 'm pub_system \<Rightarrow> bool" where
  "stopped_inv n s \<longleftrightarrow> breaker_inv s \<and> messages_inv s \<and> stop_called s \<and> length (workers s) = n"

lemma drain_step_inv: "drain_step E s t \<Longrightarrow> stopped_inv n s \<Longrightarrow> stopped_inv n t"
  unfolding drain_step_def stopped_inv_def
  using publisher_step_breaker [of E s t] publisher_step_messages [of E s t]
  by (auto elim: publisher_step.cases)

lemma drain_step_weight:
  assumes "drain_step E s t" and "stopped_inv n s"
  shows "drain_weight t < drain_weight s"
proof -
  have st: "publisher_step E s t" and sub: "submitted t = submitted s" and stop: "stop_called s"
    using assms by (simp_all add: drain_step_def stopped_inv_def)
  from st show ?thesis
  proof cases
    case (send before m after r p)
    with submit_send_frame [OF send(3)] show ?thesis by (simp add: drain_weight_def)
  next
    case (take_msg w m rest)
    with weight_update [of w "workers s" worker_weight "Holding m"] show ?thesis
      by (simp add: drain_weight_def)
  next
    case (process_fail w m cl marshal publish r out k p)
    with weight_update [of w "workers s" worker_weight "Counted k"] show ?thesis
      by (auto simp: drain_weight_def add_failure_def Let_def)
  next
    case (process_marshal w m cl marshal publish e out)
    with weight_update [of w "workers s" worker_weight Idle] show ?thesis by (simp add: drain_weight_def)
  next
    case (process_ok w m cl marshal publish out)
    with weight_update [of w "workers s" worker_weight Idle] show ?thesis by (simp add: drain_weight_def)
  next
    case (trip w k fired p)
    with weight_update [of w "workers s" worker_weight Idle] show ?thesis
      by (auto simp: drain_weight_def trip_circuit_def split: if_splits)
  next
    case (cool_expire i)
    with weight_update [of i "cooldowns s" cooldown_weight CoolReset] show ?thesis by (simp add: drain_weight_def)
  next
    case (cool_close i)
    with weight_remove [of i "cooldowns s" cooldown_weight] show ?thesis by (simp add: drain_weight_def)
  next
    case (cool_done i)
    with weight_remove [of i "cooldowns s" cooldown_weight] show ?thesis by (simp add: drain_weight_def)
  qed (use sub stop in \<open>simp_all add: drain_weight_def close_messages_def\<close>)
qed

interpretation draining: decreasing_steps "drain_step E" "stopped_inv n" drain_weight for E n
  by unfold_locales (auto intro: drain_step_inv drain_step_weight)

subsection \<open>Whoever has something to do can do it\<close>

lemma safe_process:
  assumes "safe_surroundings (cl, marshal, publish)"
  obtains "counts_failure (fst (process_message cl marshal publish m p))"
    | e out where "process_message cl marshal publish m p = (MarshalFailed e, out)"
    | out where "process_message cl marshal publish m p = (Pushed, out)"
proof (cases "\<exists>c. cl = Some c \<and> IsReady c")
  case False
  then have "process_message cl marshal publish m p = (NotReady, [])"
    by (auto simp: process_message_def split: option.split)
  then show thesis by (intro that(1)) simp
next
  case True
  then obtain c h where c: "cl = Some c" "is_ready c" "channel c = Some h" using assms by (auto simp: IsReady_def)
  show thesis
  proof (cases "marshal m")
    case (Inl e)
    with c show thesis by (intro that(2)) (simp add: process_message_def IsReady_def)
  next
    case (Inr bytes)
    let ?wire = "\<lparr>pub_content_type = ''application/json'', pub_body = bytes, pub_expiration = message_ttl p\<rparr>"
    show thesis
    proof (cases "publish (queue_name c) ?wire")
      case None
      with c Inr show thesis
        by (intro that(3)) (simp add: process_message_def IsReady_def PushWithTTL_ready)
    next
      case (Some e)
      with c Inr show thesis
        by (intro that(1)) (simp add: process_message_def IsReady_def PushWithTTL_ready)
    qed
  qed
qed

lemma busy_worker_steps:
  assumes "w < length (workers s)" and "workers s ! w \<noteq> Idle" and "E e0" and "\<forall>e. E e \<longrightarrow> safe_surroundings e"
  shows "\<exists>t. drain_step E s t"
proof (cases "workers s ! w")
  case Idle
  with assms(2) show ?thesis by simp
next
  case (Holding m)
  obtain cl marshal publish where e: "e0 = (cl, marshal, publish)" by (metis prod.exhaust)
  with assms(3,4) have E: "E (cl, marshal, publish)" and safe: "safe_surroundings (cl, marshal, publish)" by auto
  obtain n p where f: "add_failure (pub s) = (n, p)" by (cases "add_failure (pub s)")
  obtain r out where r: "process_message cl marshal publish m (pub s) = (r, out)" by fastforce
  show ?thesis
  proof (cases rule: safe_process [OF safe, of m "pub s"])
    case 1
    then have "counts_failure r" by (simp add: r)
    from publisher_step.process_fail [of w s m E, OF assms(1) Holding E r this f] show ?thesis
      by (force simp: drain_step_def)
  next
    case (2 e out)
    from publisher_step.process_marshal [of w s m E, OF assms(1) Holding E 2] show ?thesis
      by (force simp: drain_step_def)
  next
    case (3 out)
    from publisher_step.process_ok [of w s m E, OF assms(1) Holding E 3] show ?thesis
      by (force simp: drain_step_def)
  qed
next
  case (Counted k)
  obtain fired p where f: "trip_circuit k (pub s) = (fired, p)" by (cases "trip_circuit k (pub s)")
  from publisher_step.trip [OF assms(1) Counted f, of E] show ?thesis by (force simp: drain_step_def)
qed

lemma submitter_steps:
  assumes "admitted s \<noteq> []"
  shows "\<exists>t. drain_step E s t"
proof -
  obtain m rest where a: "admitted s = [] @ m # rest" using assms by (cases "admitted s") auto
  obtain x p where "submit_send m (pub s) = (x, p)" by fastforce
  then show ?thesis
    using publisher_step.send [OF a, of _ _ E] publisher_step.send_panics [OF a, of _ _ E]
    by (cases x) (force simp: drain_step_def)+
qed

lemma no_drain_step_done:
  assumes "\<forall>t. \<not> drain_step E s t" and "stopped_inv n s" and "0 < n"
    and "E e0" and "\<forall>e. E e \<longrightarrow> safe_surroundings e"
  shows "workers_done s \<and> cooldowns s = [] \<and> admitted s = []"
proof -
  have idle: "workers s ! w = Idle" if "w < length (workers s)" for w
    using busy_worker_steps [where E = E, OF that _ assms(4,5)] assms(1) by blast
  have "0 < length (workers s)" using assms(2,3) by (simp add: stopped_inv_def)
  note first = publisher_step.take_msg [of 0 s _ _ E, OF this idle [OF this]]
  have "msg_chan (pub s) = []"
  proof (cases "msg_chan (pub s)")
    case (Cons m rest)
    from first [OF this] assms(1) show ?thesis by (force simp: drain_step_def)
  qed
  moreover have "cooldowns s = []"
  proof (cases "cooldowns s")
    case (Cons c cs)
    then have "0 < length (cooldowns s)" and "cooldowns s ! 0 = c" by simp_all
    then have "\<exists>t. publisher_step E s t \<and> submitted t = submitted s"
      using publisher_step.cool_expire [of 0 s E] publisher_step.cool_close [of 0 s E] by (cases c) force+
    with assms(1) show ?thesis by (auto simp: drain_step_def)
  qed
  moreover have "msg_chan_closed (pub s)"
    using publisher_step.stop_messages [of s E] assms(1,2) by (force simp: drain_step_def stopped_inv_def)
  ultimately show ?thesis
    using idle submitter_steps assms(1) by (auto simp: workers_done_def list_all_length)
qed

subsection \<open>What becomes of the messages\<close>

lemma publisher_workers: "(publisher_step E)\<^sup>*\<^sup>* s t \<Longrightarrow> length (workers t) = length (workers s)"
  by (induction rule: rtranclp_induct) (simp_all add: publisher_step_sizes)

lemma drain_submitted: "(drain_step E)\<^sup>*\<^sup>* s t \<Longrightarrow> submitted t = submitted s"
  by (induction rule: rtranclp_induct) (auto simp: drain_step_def)

lemma accepted_step: "publisher_step E s t \<Longrightarrow> accepted s \<subseteq># accepted t"
proof (induction rule: publisher_step.induct)
  case (send s before m after r p)
  then show ?case using submit_send_frame [OF send(2)] by (simp add: accepted_def)
next
  case (take_msg w s m rest)
  then show ?case using mset_concat_held_update [OF take_msg(1), of "Holding m"] by (simp add: accepted_def)
next
  case (process_fail w s m cl marshal publish r out n p)
  then show ?case using mset_concat_held_update [OF process_fail(1), of "Counted n"] add_failure_frame [OF process_fail(6)]
    by (simp add: accepted_def)
next
  case (process_marshal w s m cl marshal publish e out)
  then show ?case using mset_concat_held_update [OF process_marshal(1), of Idle] by (simp add: accepted_def)
next
  case (process_ok w s m cl marshal publish out)
  then show ?case using mset_concat_held_update [OF process_ok(1), of Idle] by (simp add: accepted_def)
next
  case (trip w s n fired p)
  then show ?case using mset_concat_held_update [OF trip(1), of Idle] trip_circuit_frame [OF trip(3)]
    by (simp add: accepted_def)
qed (simp_all add: accepted_def close_done_def close_messages_def)

lemma accepted_run: "(drain_step E)\<^sup>*\<^sup>* s t \<Longrightarrow> accepted s \<subseteq># accepted t"
  by (induction rule: rtranclp_induct) (auto simp: drain_step_def dest: accepted_step intro: subset_mset.order_trans)

lemma message_ttl_step: "publisher_step E s t \<Longrightarrow> message_ttl (pub t) = message_ttl (pub s)"
  by (induction rule: publisher_step.induct)
    (auto simp: close_done_def close_messages_def dest: submit_send_frame add_failure_frame trip_circuit_frame)

lemma all_is_well_process:
  "all_is_well q enc (cl, marshal, publish) \<Longrightarrow>
   process_message cl marshal publish m p = (Pushed, [on_the_wire q enc (message_ttl p) m])"
  by (auto simp: process_message_def IsReady_def PushWithTTL_ready on_the_wire_def)

definition delivered :: "string \<Rightarrow> ('m \<Rightarrow> string) \<Rightarrow> 'm pub_system \<Rightarrow> 'm pub_system \<Rightarrow> bool" where
  "delivered q enc s t \<longleftrightarrow> discarded t = discarded s \<and> message_ttl (pub t) = message_ttl (pub s) \<and>
     (\<exists>new. published t = new @ published s \<and>
       mset (handed_over t) = mset (handed_over s) + image_mset (on_the_wire q enc (message_ttl (pub s))) (mset new))"

lemma delivered_step:
  assumes "publisher_step E t u" and "delivered q enc s t" and "\<forall>e. E e \<longrightarrow> all_is_well q enc e"
  shows "delivered q enc s u"
  using assms(1)
proof cases
  case (process_fail w m cl marshal publish r out n p)
  with assms(3) all_is_well_process [of q enc cl marshal publish m "pub t"] show ?thesis by auto
next
  case (process_marshal w m cl marshal publish e out)
  with assms(3) all_is_well_process [of q enc cl marshal publish m "pub t"] show ?thesis by auto
next
  case (process_ok w m cl marshal publish out)
  with assms(3) all_is_well_process [of q enc cl marshal publish m "pub t"]
  have out: "out = [on_the_wire q enc (message_ttl (pub t)) m]" by auto
  obtain new where "published t = new @ published s" "discarded t = discarded s"
      "message_ttl (pub t) = message_ttl (pub s)"
      "mset (handed_over t) = mset (handed_over s) + image_mset (on_the_wire q enc (message_ttl (pub s))) (mset new)"
    using assms(2) by (auto simp: delivered_def)
  with process_ok out show ?thesis unfolding delivered_def by (intro conjI exI [of _ "m # new"]) simp_all
qed (use assms(2) message_ttl_step [OF assms(1)] in \<open>auto simp: delivered_def\<close>)

lemma delivered_run:
  "(drain_step E)\<^sup>*\<^sup>* s t \<Longrightarrow> \<forall>e. E e \<longrightarrow> all_is_well q enc e \<Longrightarrow> delivered q enc s t"
proof (induction rule: rtranclp_induct)
  case base
  then show ?case by (simp add: delivered_def)
next
  case (step t u)
  then show ?case using delivered_step [of E t u q enc s] by (simp add: drain_step_def)
qed

lemma stopped_reachable:
  assumes "(publisher_step E)\<^sup>*\<^sup>* (started_publisher opts) s" and "stop_called s"
  shows "stopped_inv (nat (worker_count (NewAuditPublisher opts :: 'm publisher))) (s :: 'm pub_system)"
  using breaker.steps_inv [OF assms(1) started_breaker] pool.steps_inv [OF assms(1) started_messages]
    publisher_workers [OF assms(1)] assms(2)
  by (simp add: stopped_inv_def started_publisher_def Let_def)

lemma config_workers: "publisher_config_ok p \<Longrightarrow> 0 < nat (worker_count p)"
  by (simp add: publisher_config_ok_def)

lemma some_worker: "0 < nat (worker_count (NewAuditPublisher opts))"
  by (rule config_workers) (rule NewAuditPublisher_config)

text \<open>
  C13. \<open>Stop\<close> returns, and what was queued is worked off. From every reachable state after the call of \<open>Stop\<close>,
  whatever the broker and the marshaler answer from then on (as long as no worker panics), the workers, the
  cooldown and the submissions under way perform at most \<open>drain_weight\<close> more steps, and they can always go
  on until the loop of every worker has ended. When nothing is left to do, every message that was in the
  buffer or with a worker has been published or discarded after a failure, and every message ever submitted
  has ended in one of the four ways. When from then on the client is ready, the messages encode and the
  broker takes them, none of these is discarded: each is on the wire once, in its encoding, for the queue of
  the client and with the configured time-to-live.
\<close>

theorem stop_returns:
  assumes "(publisher_step E0)\<^sup>*\<^sup>* (started_publisher opts) s" and "stop_called s"
    and "E e0" and "\<forall>e. E e \<longrightarrow> safe_surroundings e"
  shows "(\<forall>n t. (drain_step E ^^ n) s t \<longrightarrow> n \<le> drain_weight s) \<and>
    (\<exists>t. (drain_step E)\<^sup>*\<^sup>* s t \<and> workers_done t) \<and>
    (\<forall>t. (drain_step E)\<^sup>*\<^sup>* s t \<and> (\<forall>u. \<not> drain_step E t u) \<longrightarrow>
       workers_done t \<and> cooldowns t = [] \<and>
       mset (submitted s) = mset (dropped t) + mset (panicked t) + mset (published t) + mset (discarded t) \<and>
       accepted s \<subseteq># mset (published t) + mset (discarded t) \<and>
       ((\<forall>e. E e \<longrightarrow> all_is_well q enc e) \<longrightarrow>
          (\<exists>new. discarded t = discarded s \<and> published t = new @ published s \<and>
             mset (msg_chan (pub s)) + mset (concat (map held (workers s))) \<subseteq># mset new \<and>
             mset (handed_over t) = mset (handed_over s) + image_mset (on_the_wire q enc (message_ttl (pub s))) (mset new))))"
proof -
  note inv = stopped_reachable [OF assms(1,2)]
  have "n \<le> drain_weight s" if "(drain_step E ^^ n) s t" for n t
    using draining.run_length [OF that inv] by simp
  moreover have final: "workers_done t \<and> cooldowns t = [] \<and> admitted t = [] \<and>
      mset (submitted s) = mset (dropped t) + mset (panicked t) + mset (published t) + mset (discarded t) \<and>
      accepted s \<subseteq># mset (published t) + mset (discarded t)"
    if "(drain_step E)\<^sup>*\<^sup>* s t" "\<forall>u. \<not> drain_step E t u" for t
  proof -
    note invt = draining.steps_inv [OF that(1) inv]
    note fin = no_drain_step_done [OF that(2) invt some_worker assms(3,4)]
    then have h: "concat (map held (workers t)) = []"
      by (auto simp: workers_done_def list_all_iff held_def)
    with fin have "accepted t = mset (published t) + mset (discarded t)"
      by (simp add: accepted_def workers_done_def)
    with accepted_run [OF that(1)] fin invt drain_submitted [OF that(1)] h show ?thesis
      by (simp add: stopped_inv_def messages_inv_def workers_done_def)
  qed
  moreover have "\<exists>t. (drain_step E)\<^sup>*\<^sup>* s t \<and> workers_done t"
    using draining.reaches_final [OF inv] final by blast
  moreover have "\<exists>new. discarded t = discarded s \<and> published t = new @ published s \<and>
      mset (msg_chan (pub s)) + mset (concat (map held (workers s))) \<subseteq># mset new \<and>
      mset (handed_over t) = mset (handed_over s) + image_mset (on_the_wire q enc (message_ttl (pub s))) (mset new)"
    if run: "(drain_step E)\<^sup>*\<^sup>* s t" "\<forall>u. \<not> drain_step E t u" and well: "\<forall>e. E e \<longrightarrow> all_is_well q enc e" for t
  proof -
    obtain new where new: "discarded t = discarded s" "published t = new @ published s"
        "mset (handed_over t) = mset (handed_over s) + image_mset (on_the_wire q enc (message_ttl (pub s))) (mset new)"
      using delivered_run [OF run(1) well] by (auto simp: delivered_def)
    have "accepted s \<subseteq># mset (published t) + mset (discarded t)" using final [OF run] by blast
    with new(1,2) have "mset (msg_chan (pub s)) + mset (concat (map held (workers s))) \<subseteq># mset new"
      by (simp add: accepted_def ac_simps)
    with new show ?thesis by blast
  qed
  ultimately show ?thesis by blast
qed

text \<open>A message is queued when \<open>Stop\<close> is called; the client is ready and the broker takes everything.\<close>

theorem stop_returns_witness:
  "\<exists>s t. (publisher_step (\<lambda>_. True))\<^sup>*\<^sup>* (started_publisher []) s \<and> msg_chan (pub s) = [''m''] \<and> stop_called s \<and>
     (drain_step (all_is_well ''q'' id))\<^sup>*\<^sup>* s t \<and> workers_done t"
proof -
  let ?s0 = "started_publisher [] :: string pub_system"
  let ?s1 = "?s0\<lparr>pub := (pub ?s0)\<lparr>msg_chan := [''m'']\<rparr>, submitted := [''m''], dropped := []\<rparr>"
  let ?s2 = "?s1\<lparr>pub := close_done (pub ?s1), stop_called := True\<rparr>"
  have p: "\<not> circuit_open (pub ?s0)" "\<not> msg_chan_closed (pub ?s0)" "msg_chan (pub ?s0) = []"
    by (simp_all add: started_publisher_def Let_def)
  have b: "0 < buffer_size (pub ?s0)" using NewAuditPublisher_buffer by (simp add: started_publisher_def Let_def)
  have "Submit ''m'' (pub ?s0) = (Inr Enqueued, (pub ?s0)\<lparr>msg_chan := [''m'']\<rparr>)"
    by (simp add: Submit_def submit_send_def p b)
  from submit_steps [OF this]
  have 1: "(publisher_step (\<lambda>_. True))\<^sup>*\<^sup>* ?s0 ?s1" by (simp add: started_publisher_def Let_def)
  have 2: "publisher_step (\<lambda>_. True) ?s1 ?s2"
    by (rule publisher_step.stop) (simp add: started_publisher_def Let_def)
  from 1 2 have run: "(publisher_step (\<lambda>_. True))\<^sup>*\<^sup>* ?s0 ?s2" by (rule rtranclp.rtrancl_into_rtrancl)
  have well: "all_is_well ''q'' id (Some ready_client, Inr, \<lambda>_ _. None)"
    by (simp add: IsReady_def ready_client_def)
  have safe: "\<forall>e. all_is_well ''q'' id e \<longrightarrow> safe_surroundings e" by auto
  have c: "stop_called ?s2" "msg_chan (pub ?s2) = [''m'']" by (simp_all add: close_done_def)
  from stop_returns [OF run c(1) well safe] obtain t where
    "(drain_step (all_is_well ''q'' id))\<^sup>*\<^sup>* ?s2 t" "workers_done t" by blast
  with run c show ?thesis by blast
qed

end
