(* ===== verification/RmqConnect.thy ===== *)
theory RmqConnect
  imports AppGlobals
begin

section \<open>rmq-autoconnect.go, rmq.go and phaudittrailv0: the older RabbitMQ connections\<close>

text \<open>
  The two older connection managers. What the broker library answers to successive dials is a list;
  the result \<open>None\<close> means that the loop is still retrying when the list ends. \<open>rq\<close> says whether the
  template object of \<open>rMqAutoConnect\<close> was set (nothing in the library sets it); calling a method of a
  nil interface panics.
\<close>

subsection \<open>rmq.go\<close>

record 'v default_payload =
  dp_route :: string
  dp_param :: "'v option"
  dp_data :: "'v option"

record rabbit_connection =
  rc_host :: string
  rc_port :: string
  rc_username :: string
  rc_password :: string
  rc_virtual_host :: string
  rc_queue_name :: string

definition GlobalConn :: "env \<Rightarrow> rabbit_connection \<Rightarrow> rabbit_connection" where
  "GlobalConn ev c = c\<lparr>rc_host := ev ''RQ_HOST'', rc_port := ev ''RQ_PORT'', rc_username := ev ''RQ_USERNAME'',
     rc_password := ev ''RQ_PASSWORD'', rc_virtual_host := ev ''RQ_VHOST'', rc_queue_name := ev ''RQ_QUEUE''\<rparr>"

definition QueueConn :: "env \<Rightarrow> string \<Rightarrow> rabbit_connection \<Rightarrow> rabbit_connection" where
  "QueueConn ev rq_queue c = c\<lparr>rc_host := ev ''RQ_HOST'', rc_port := ev ''RQ_PORT'',
     rc_username := ev ''RQ_USERNAME'', rc_password := ev ''RQ_PASSWORD'',
     rc_virtual_host := ev ''RQ_VHOST'', rc_queue_name := rq_queue\<rparr>"

subsection \<open>rmq-autoconnect.go\<close>

record rmq_state =
  rmq_conn :: "nat option"
  rmq_ch :: "nat option"
  rmq_uri :: string
  rmq_notify :: bool
  rmq_rq :: bool
  rmq_queues :: "string list"
  rmq_closed_conns :: "nat list"

definition reset_locked :: "rmq_state \<Rightarrow> rmq_state" where
  "reset_locked r = r\<lparr>rmq_closed_conns := (case rmq_conn r of Some c \<Rightarrow> c # rmq_closed_conns r
       | None \<Rightarrow> rmq_closed_conns r), rmq_ch := None, rmq_conn := None\<rparr>"

definition rmq_delay :: "int \<Rightarrow> int" where
  "rmq_delay trial =
     (if trial \<le> 3 then 30 * Second else if trial \<le> 7 then 10 * Minute else Hour)"

text \<open>One element of the list per dial; \<open>chan\<close> is the answer to opening the channel.\<close>

fun rmq_connect ::
  "int \<Rightarrow> (err + nat) list \<Rightarrow> err + nat \<Rightarrow> rmq_state \<Rightarrow>
     int list \<times> ((err + nat) \<times> rmq_state) option" where
  "rmq_connect trial [] chan r = ([], None)"
| "rmq_connect trial (Inl e # dials) chan r =
     (let (sleeps, res) = rmq_connect (trial + 1) dials chan r in (rmq_delay trial # sleeps, res))"
| "rmq_connect trial (Inr c # dials) chan r =
     (let r1 = r\<lparr>rmq_conn := Some c\<rparr>
      in case chan of
           Inl e \<Rightarrow> ([], Some (Inl (''rmq channel: '' @ e),
                       r1\<lparr>rmq_conn := None, rmq_closed_conns := c # rmq_closed_conns r1\<rparr>))
         | Inr ch \<Rightarrow> ([], Some (Inr c, r1\<lparr>rmq_ch := Some ch\<rparr>)))"

text \<open>\<open>declare\<close> answers the declaration of each queue; the result is the error and the queues declared.\<close>

fun declare_all :: "(string \<Rightarrow> err option) \<Rightarrow> string list \<Rightarrow> err option \<times> string list" where
  "declare_all declare_queue [] = (None, [])"
| "declare_all declare_queue (q # qs) =
     (case declare_queue q of
        Some e \<Rightarrow> (Some e, [])
      | None \<Rightarrow> (let (e, ds) = declare_all declare_queue qs in (e, q # ds)))"

definition DeclareQueues ::
  "(string \<Rightarrow> err option) \<Rightarrow> string list \<Rightarrow> rmq_state \<Rightarrow> (err option \<times> string list) \<times> rmq_state" where
  "DeclareQueues declare_queue queues r =
     (let r1 = r\<lparr>rmq_queues := queues\<rparr>
      in case rmq_ch r1 of
           None \<Rightarrow> ((Some ''rmq: no channel'', []), r1)
         | Some _ \<Rightarrow> (declare_all declare_queue queues, r1))"

definition rmq_stop :: "rmq_state \<Rightarrow> rmq_state" where
  "rmq_stop r = reset_locked r"

definition GetRqChannel :: "rmq_state \<Rightarrow> nat option" where
  "GetRqChannel r = rmq_ch r"

definition rmq_template_call :: "rmq_state \<Rightarrow> panic option" where
  "rmq_template_call r = (if rmq_rq r then None else Some NilDereference)"

definition redact_amqp_uri :: "string \<Rightarrow> string \<Rightarrow> string \<Rightarrow> string" where
  "redact_amqp_uri host port vhost = ''amqp://***:***@'' @ host @ '':'' @ port @ ''/'' @ vhost"

definition start_connection ::
  "string \<Rightarrow> string \<Rightarrow> string \<Rightarrow> string \<Rightarrow> string \<Rightarrow> (err + nat) list \<Rightarrow> err + nat \<Rightarrow> rmq_state \<Rightarrow>
     int list \<times> (err option \<times> rmq_state) option" where
  "start_connection username password host port vhost dials chan r =
     (let uri = ''amqp://'' @ username @ '':'' @ password @ ''@'' @ host @ '':'' @ port @ ''/'' @ vhost;
          (sleeps, res) = rmq_connect 1 dials chan (r\<lparr>rmq_uri := uri\<rparr>)
      in (sleeps,
          case res of
            None \<Rightarrow> None
          | Some (Inl e, r1) \<Rightarrow> Some (Some e, r1)
          | Some (Inr c, r1) \<Rightarrow> Some (None, r1\<lparr>rmq_notify := True\<rparr>)))"

text \<open>What the listener does on a close notification: the template hooks around reset and connect.\<close>

datatype 's on_close = ClosePanicked panic | CloseRetrying | CloseFailed err 's | CloseReconnected "err option" 's

definition rmq_on_close ::
  "(err + nat) list \<Rightarrow> err + nat \<Rightarrow> (string \<Rightarrow> err option) \<Rightarrow> rmq_state \<Rightarrow> rmq_state on_close" where
  "rmq_on_close dials chan declare_queue r =
     (case rmq_template_call r of
        Some p \<Rightarrow> ClosePanicked p
      | None \<Rightarrow>
          (let r1 = reset_locked r
           in case snd (rmq_connect 1 dials chan r1) of
                None \<Rightarrow> CloseRetrying
              | Some (Inl e, r2) \<Rightarrow> CloseFailed e r2
              | Some (Inr c, r2) \<Rightarrow>
                  (let ((e, ds), r3) = DeclareQueues declare_queue (rmq_queues r2) r2
                   in case rmq_template_call r3 of
                        Some p \<Rightarrow> ClosePanicked p
                      | None \<Rightarrow> CloseReconnected e (r3\<lparr>rmq_notify := True\<rparr>))))"

subsection \<open>phaudittrailv0\<close>

record v0_state =
  v0_conn :: "nat option"
  v0_channel :: "nat option"
  v0_que :: "string option"

record v0_client =
  v0c_conn :: "nat option"
  v0c_ch :: "nat option"
  v0c_uri :: string
  v0c_initialized :: bool

text \<open>The pause after a failed dial; from the sixth failure on there is none.\<close>

definition v0_delay :: "int \<Rightarrow> int option" where
  "v0_delay retry =
     (if retry \<le> 3 then Some (30 * Second) else if retry \<le> 5 then Some (10 * Minute) else None)"

fun v0_dial :: "int \<Rightarrow> (err + nat) list \<Rightarrow> int list \<times> nat option" where
  "v0_dial retry [] = ([], None)"
| "v0_dial retry (Inl e # dials) =
     (let (sleeps, res) = v0_dial (retry + 1) dials
      in (case v0_delay retry of Some d \<Rightarrow> d # sleeps | None \<Rightarrow> sleeps, res))"
| "v0_dial retry (Inr c # dials) = ([], Some c)"

definition v0_reset :: "v0_state \<Rightarrow> v0_state" where
  "v0_reset g = g\<lparr>v0_conn := None, v0_channel := None, v0_que := None\<rparr>"

definition v0_start ::
  "(err + nat) list \<Rightarrow> err + nat \<Rightarrow> v0_client \<Rightarrow> v0_state \<Rightarrow>
     int list \<times> ((err + (nat \<times> nat)) \<times> v0_client \<times> v0_state) option" where
  "v0_start dials chan r s =
     (let (sleeps, res) = v0_dial 1 dials
      in (sleeps,
          case res of
            None \<Rightarrow> None
          | Some c \<Rightarrow>
              (let r1 = r\<lparr>v0c_conn := Some c\<rparr>
               in case chan of
                    Inl e \<Rightarrow> Some (Inl (''audit trail channel: '' @ e), r1\<lparr>v0c_ch := None\<rparr>, v0_reset s)
                  | Inr ch \<Rightarrow> Some (Inr (c, ch), r1\<lparr>v0c_ch := Some ch\<rparr>, s))))"

definition v0_SetUpRabbitMq ::
  "(err + nat) list \<Rightarrow> err + nat \<Rightarrow> string \<Rightarrow> string \<Rightarrow> string \<Rightarrow> string \<Rightarrow> string \<Rightarrow> string \<Rightarrow> string \<Rightarrow>
     globals \<Rightarrow> v0_state \<Rightarrow> int list \<times> (v0_client \<times> globals \<times> v0_state) option" where
  "v0_SetUpRabbitMq dials chan host port vhost username password auditTrailQue appName g s =
     (let uri = ''amqp://'' @ username @ '':'' @ password @ ''@'' @ host @ '':'' @ port @ ''/'' @ vhost;
          r = \<lparr>v0c_conn = None, v0c_ch = None, v0c_uri = uri, v0c_initialized = False\<rparr>;
          (sleeps, res) = v0_start dials chan r s
      in (sleeps,
          case res of
            None \<Rightarrow> None
          | Some (Inl e, r1, s1) \<Rightarrow> Some (r1, g, s1)
          | Some (Inr (c, ch), r1, s1) \<Rightarrow>
              Some (r1\<lparr>v0c_initialized := True\<rparr>,
                    (if get_app_name g = [] then set_app_name appName g else g),
                    s1\<lparr>v0_conn := Some c, v0_channel := Some ch, v0_que := Some auditTrailQue\<rparr>)))"

definition v0_CloseConnection :: "v0_state \<Rightarrow> v0_state" where
  "v0_CloseConnection s = v0_reset s"

definition v0_check_if_queue_exists :: "err option \<Rightarrow> err + bool" where
  "v0_check_if_queue_exists passive = (case passive of Some e \<Rightarrow> Inl e | None \<Rightarrow> Inr True)"

text \<open>The result of \<open>PushMessage\<close>: what it did with the broker, in order, and whether it published.\<close>

datatype v0_call = CheckQueue string | DeclareQueue string | PublishTo string string

definition v0_PushMessage ::
  "('d \<Rightarrow> err + string) \<Rightarrow> err option \<Rightarrow> err option \<Rightarrow> err option \<Rightarrow> 'd \<Rightarrow> v0_state \<Rightarrow> v0_call list \<times> bool" where
  "v0_PushMessage marshal passive declare_reply publish data s =
     (case v0_que s of
        None \<Rightarrow> ([], False)
      | Some q \<Rightarrow>
          (case marshal data of
             Inl e \<Rightarrow> ([], False)
           | Inr msgBytes \<Rightarrow>
               (let declare_it = (v0_check_if_queue_exists passive \<noteq> Inr True);
                    calls = CheckQueue q # (if declare_it then [DeclareQueue q] else [])
                in if declare_it \<and> declare_reply \<noteq> None then (calls, False)
                   else (calls @ [PublishTo q msgBytes], publish = None))))"

subsection \<open>How long the loops wait\<close>

lemma rmq_connect_failing:
  assumes "\<forall>d \<in> set dials. \<exists>e. d = Inl e"
  shows "rmq_connect t dials chan r = (map rmq_delay [t..t + int (length dials) - 1], None)"
  using assms
proof (induction dials arbitrary: t)
  case (Cons d dials)
  from Cons.prems obtain e where d: "d = Inl e" by auto
  have "[t..t + int (length (d # dials)) - 1] = t # [t + 1..t + 1 + int (length dials) - 1]"
    by (simp add: upto.simps)
  with d Cons show ?case by simp
qed simp

lemma v0_dial_failing:
  assumes "\<forall>d \<in> set dials. \<exists>e. d = Inl e"
  shows "v0_dial t dials = (List.map_filter v0_delay [t..t + int (length dials) - 1], None)"
  using assms
proof (induction dials arbitrary: t)
  case Nil
  then show ?case by (simp add: map_filter_def)
next
  case (Cons d dials)
  from Cons.prems obtain e where d: "d = Inl e" by auto
  have "[t..t + int (length (d # dials)) - 1] = t # [t + 1..t + 1 + int (length dials) - 1]"
    by (simp add: upto.simps)
  with d Cons show ?case by (simp add: map_filter_def split: option.splits)
qed

lemma map_filter_none: "(\<And>x. x \<in> set xs \<Longrightarrow> f x = None) \<Longrightarrow> List.map_filter f xs = []"
  by (induction xs) (simp_all add: map_filter_def)

lemma map_filter_append: "List.map_filter f (xs @ ys) = List.map_filter f xs @ List.map_filter f ys"
  by (simp add: map_filter_def)

text \<open>
  The retry loops while the broker is down, for any number of failing dials from eight on. The older
  audit client waits 30 seconds three times and 10 minutes twice and then dials without any pause,
  so it waits 21.5 minutes in total however often it dials. \<open>rMqAutoConnect\<close> waits three times 30
  seconds, four times 10 minutes and then an hour before every further dial.
\<close>

theorem retry_schedules:
  assumes "\<forall>d \<in> set dials. \<exists>e. d = Inl e" and "8 \<le> length dials"
  shows "v0_dial 1 dials = ([30 * Second, 30 * Second, 30 * Second, 10 * Minute, 10 * Minute], None) \<and>
    rmq_connect 1 dials chan r =
      ([30 * Second, 30 * Second, 30 * Second, 10 * Minute, 10 * Minute, 10 * Minute, 10 * Minute] @
       replicate (length dials - 7) Hour, None)"
proof -
  let ?n = "int (length dials)"
  have s: "[1..?n] = [1..5] @ [6..?n]" "[1..?n] = [1..7] @ [8..?n]"
    using upto_split2 [of 1 5 ?n] upto_split2 [of 1 7 ?n] assms(2) by simp_all
  have late: "List.map_filter v0_delay [6..?n] = []"
    by (rule map_filter_none) (simp add: v0_delay_def)
  have "List.map_filter v0_delay [1..?n] = [30 * Second, 30 * Second, 30 * Second, 10 * Minute, 10 * Minute]"
    unfolding s(1) map_filter_append late by (simp add: upto.simps map_filter_def v0_delay_def)
  moreover have "map rmq_delay [8..?n] = replicate (length dials - 7) Hour"
    by (rule replicate_eqI) (auto simp: rmq_delay_def)
  then have "map rmq_delay [1..?n] =
      [30 * Second, 30 * Second, 30 * Second, 10 * Minute, 10 * Minute, 10 * Minute, 10 * Minute] @
       replicate (length dials - 7) Hour"
    unfolding s(2) map_append by (simp add: upto.simps rmq_delay_def)
  ultimately show ?thesis
    using v0_dial_failing [OF assms(1), of 1] rmq_connect_failing [OF assms(1), of 1] by simp
qed

theorem retry_schedules_witness:
  "fst (v0_dial 1 (replicate 1000 (Inl ''refused''))) =
     [30 * Second, 30 * Second, 30 * Second, 10 * Minute, 10 * Minute]"
  using retry_schedules [of "replicate 1000 (Inl ''refused'')"] by simp

text \<open>The listener of \<open>rMqAutoConnect\<close> needs the template object.\<close>

lemma rmq_on_close_panics: "\<not> rmq_rq r \<Longrightarrow> rmq_on_close dials chan decl r = ClosePanicked NilDereference"
  by (simp add: rmq_on_close_def rmq_template_call_def)

lemma rmq_on_close_reconnects:
  assumes "rmq_rq r"
  shows "rmq_on_close [Inr c] (Inr ch) (\<lambda>_. None) r =
    CloseReconnected None ((reset_locked r)\<lparr>rmq_conn := Some c, rmq_ch := Some ch, rmq_notify := True\<rparr>)"
proof -
  have "declare_all (\<lambda>_. None) qs = (None, qs)" for qs by (induction qs) simp_all
  with assms show ?thesis
    by (simp add: rmq_on_close_def rmq_template_call_def DeclareQueues_def reset_locked_def Let_def)
qed

end
