(* ===== verification/RmqListener.thy ===== *)
theory RmqListener
  imports RmqConnect Interfaces
begin

section \<open>The reconnecting listener of rmq-autoconnect.go\<close>

text \<open>
  \<open>reconnect\<close> starts a goroutine that waits for the connection to close and then connects again, inside the
  unbounded retry loop of \<open>connect\<close>; \<open>stop\<close> cancels its context and waits for it. A step is one step of
  that goroutine or of \<open>stop\<close>. When the context is cancelled and another case of a \<open>select\<close> can fire too,
  either is taken.
\<close>

datatype listener_pc = Top | Polling | Listening | Dialing int | Ended | Crashed panic

record rmq_system =
  rs_rmq :: rmq_state
  rs_at :: listener_pc
  rs_cancelled :: bool
  rs_stopped :: bool

definition set_rmq :: "rmq_state \<Rightarrow> listener_pc \<Rightarrow> rmq_system \<Rightarrow> rmq_system" where
  "set_rmq r p s = s\<lparr>rs_rmq := r, rs_at := p\<rparr>"

text \<open>The end of a successful dial: the channel, the queues and the second template call.\<close>

definition after_dial ::
  "nat \<Rightarrow> err + nat \<Rightarrow> (string \<Rightarrow> err option) \<Rightarrow> rmq_state \<Rightarrow> rmq_state \<times> listener_pc" where
  "after_dial c chan declare_queue r =
     (case snd (rmq_connect 1 [Inr c] chan r) of
        None \<Rightarrow> (r, Top)
      | Some (Inl e, r1) \<Rightarrow> (r1, Top)
      | Some (Inr c', r1) \<Rightarrow>
          (let (answer, r2) = DeclareQueues declare_queue (rmq_queues r1) r1
           in case rmq_template_call r2 of
                Some p \<Rightarrow> (r2, Crashed p)
              | None \<Rightarrow> (r2\<lparr>rmq_notify := True\<rparr>, Top)))"

inductive listener_step :: "rmq_system \<Rightarrow> rmq_system \<Rightarrow> bool" where
  top_idle: "rs_at s = Top \<Longrightarrow> rmq_conn (rs_rmq s) = None \<or> \<not> rmq_notify (rs_rmq s) \<Longrightarrow>
    listener_step s (s\<lparr>rs_at := Polling\<rparr>)"
| top_ready: "rs_at s = Top \<Longrightarrow> rmq_conn (rs_rmq s) \<noteq> None \<Longrightarrow> rmq_notify (rs_rmq s) \<Longrightarrow>
    listener_step s (s\<lparr>rs_at := Listening\<rparr>)"
| poll_done: "rs_at s = Polling \<Longrightarrow> rs_cancelled s \<Longrightarrow> listener_step s (s\<lparr>rs_at := Ended\<rparr>)"
| poll_tick: "rs_at s = Polling \<Longrightarrow> listener_step s (s\<lparr>rs_at := Top\<rparr>)"
| listen_done: "rs_at s = Listening \<Longrightarrow> rs_cancelled s \<Longrightarrow> listener_step s (s\<lparr>rs_at := Ended\<rparr>)"
| listen_panic: "rs_at s = Listening \<Longrightarrow> rmq_template_call (rs_rmq s) = Some p \<Longrightarrow>
    listener_step s (s\<lparr>rs_at := Crashed p\<rparr>)"
| listen_closed: "rs_at s = Listening \<Longrightarrow> rmq_template_call (rs_rmq s) = None \<Longrightarrow>
    listener_step s (set_rmq (reset_locked (rs_rmq s)) (Dialing 1) s)"
| dial_failed: "rs_at s = Dialing trial \<Longrightarrow> listener_step s (s\<lparr>rs_at := Dialing (trial + 1)\<rparr>)"
| dial_ok: "rs_at s = Dialing trial \<Longrightarrow> after_dial c chan declare_queue (rs_rmq s) = (r, p) \<Longrightarrow>
    listener_step s (set_rmq r p s)"
| cancel: "listener_step s (s\<lparr>rs_cancelled := True\<rparr>)"
| stop_returns: "rs_cancelled s \<Longrightarrow> rs_at s = Ended \<Longrightarrow>
    listener_step s (s\<lparr>rs_rmq := rmq_stop (rs_rmq s), rs_stopped := True\<rparr>)"

definition started_listener :: "rmq_state \<Rightarrow> rmq_system" where
  "started_listener r = \<lparr>rs_rmq = r, rs_at = Top, rs_cancelled = False, rs_stopped = False\<rparr>"


inductive_cases listener_stepE: "listener_step s t"

text \<open>The template object is never set by a step.\<close>

lemma after_dial_rq: "after_dial c chan declare_queue r = (r', p) \<Longrightarrow> rmq_rq r' = rmq_rq r"
  by (auto simp: after_dial_def DeclareQueues_def Let_def split: sum.splits option.splits prod.splits)

definition no_template_inv :: "rmq_system \<Rightarrow> bool" where
  "no_template_inv s \<longleftrightarrow> \<not> rmq_rq (rs_rmq s) \<and> (\<forall>k. rs_at s \<noteq> Dialing k)"

lemma no_template_step: "listener_step s t \<Longrightarrow> no_template_inv s \<Longrightarrow> no_template_inv t"
  by (induction rule: listener_step.induct)
    (auto simp: no_template_inv_def rmq_template_call_def rmq_stop_def reset_locked_def)

interpretation no_template: invariant_steps listener_step no_template_inv
  by unfold_locales (rule no_template_step)

text \<open>Without a connection the listener polls for one that nobody makes.\<close>

definition orphaned :: "rmq_system \<Rightarrow> bool" where
  "orphaned s \<longleftrightarrow> rmq_conn (rs_rmq s) = None \<and> rmq_ch (rs_rmq s) = None \<and> rs_at s \<in> {Top, Polling, Ended}"

lemma orphaned_step: "listener_step s t \<Longrightarrow> orphaned s \<Longrightarrow> orphaned t"
  by (induction rule: listener_step.induct) (auto simp: orphaned_def rmq_stop_def reset_locked_def)

interpretation orphan: invariant_steps listener_step orphaned
  by unfold_locales (rule orphaned_step)

text \<open>While the listener dials there is no connection and no channel.\<close>

definition dialing_offline :: "rmq_system \<Rightarrow> bool" where
  "dialing_offline s \<longleftrightarrow> (\<forall>k. rs_at s = Dialing k \<longrightarrow> rmq_conn (rs_rmq s) = None \<and> rmq_ch (rs_rmq s) = None)"

lemma after_dial_not_dialing: "after_dial c chan declare_queue r = (r', p) \<Longrightarrow> p \<noteq> Dialing k"
  by (auto simp: after_dial_def Let_def split: sum.splits option.splits prod.splits)

lemma dialing_offline_step: "listener_step s t \<Longrightarrow> dialing_offline s \<Longrightarrow> dialing_offline t"
  by (induction rule: listener_step.induct)
    (auto simp: dialing_offline_def set_rmq_def rmq_stop_def reset_locked_def dest: after_dial_not_dialing)

interpretation dialing: invariant_steps listener_step dialing_offline
  by unfold_locales (rule dialing_offline_step)

lemma after_failed_channel:
  "rmq_ch r = None \<Longrightarrow> after_dial c (Inl e) declare_queue r = (r', p) \<Longrightarrow> orphaned (set_rmq r' p s)"
  by (auto simp: after_dial_def orphaned_def set_rmq_def)

text \<open>A step in which no dial succeeds; and what is true of \<open>stop\<close> until the goroutine has ended.\<close>

definition undialled_step :: "rmq_system \<Rightarrow> rmq_system \<Rightarrow> bool" where
  "undialled_step s t \<longleftrightarrow> listener_step s t \<and>
     (\<forall>k c chan declare_queue. rs_at s = Dialing k \<longrightarrow>
        after_dial c chan declare_queue (rs_rmq s) \<noteq> (rs_rmq t, rs_at t))"

definition stop_waits :: "rmq_system \<Rightarrow> bool" where
  "stop_waits s \<longleftrightarrow> rs_stopped s \<longrightarrow> rs_at s = Ended"

lemma stop_waits_step: "listener_step s t \<Longrightarrow> stop_waits s \<Longrightarrow> stop_waits t"
  by (induction rule: listener_step.induct) (auto simp: stop_waits_def set_rmq_def)

interpretation waiting: invariant_steps listener_step stop_waits
  by unfold_locales (rule stop_waits_step)

lemma undialled_from_dialing:
  assumes "undialled_step s t" and "rs_at s = Dialing k"
  shows "rs_at t = Dialing k \<or> rs_at t = Dialing (k + 1)"
proof -
  have "listener_step s t" using assms(1) by (simp add: undialled_step_def)
  then show ?thesis
  proof cases
    case (dial_ok trial c chan declare_queue r p)
    with assms show ?thesis by (auto simp: undialled_step_def set_rmq_def)
  qed (use assms(2) in auto)
qed

lemma undialled_keeps_dialing: "(undialled_step ^^ n) s u \<Longrightarrow> rs_at s = Dialing k \<Longrightarrow> \<exists>j. rs_at u = Dialing j"
proof (induction n arbitrary: u)
  case (Suc n)
  then obtain v where "(undialled_step ^^ n) s v" "undialled_step v u" by auto
  with Suc show ?case using undialled_from_dialing by blast
qed auto

lemma undialled_retry:
  assumes "rs_at s = Dialing k"
  shows "undialled_step s (s\<lparr>rs_at := Dialing (k + 1)\<rparr>)"
  using listener_step.dial_failed [OF assms] by (auto simp: undialled_step_def dest: after_dial_not_dialing)

lemma dialing_run:
  assumes "rs_at s = Dialing k"
  shows "(undialled_step ^^ n) s (s\<lparr>rs_at := Dialing (k + int n)\<rparr>)"
proof (induction n)
  case 0
  have "s\<lparr>rs_at := Dialing k\<rparr> = s" using assms by (cases s) simp
  then show ?case by simp
next
  case (Suc n)
  have "undialled_step (s\<lparr>rs_at := Dialing (k + int n)\<rparr>) (s\<lparr>rs_at := Dialing (k + int n + 1)\<rparr>)"
    using undialled_retry [of "s\<lparr>rs_at := Dialing (k + int n)\<rparr>" "k + int n"] by simp
  with Suc show ?case by (auto simp: algebra_simps)
qed

text \<open>Without a template object the goroutine leaves \<open>Listening\<close> only by its panic or when it is cancelled.\<close>

lemma no_template_crash:
  assumes "\<not> rmq_rq (rs_rmq s)" and "rs_at s = Listening"
  shows "\<exists>p. listener_step s (s\<lparr>rs_at := Crashed p\<rparr>)"
    and "listener_step s t \<Longrightarrow> rs_at t \<noteq> Listening \<Longrightarrow>
      (\<exists>p. rs_at t = Crashed p) \<or> rs_cancelled s \<and> rs_at t = Ended"
proof -
  obtain p where p: "rmq_template_call (rs_rmq s) = Some p"
    using assms(1) by (auto simp: rmq_template_call_def)
  then show "\<exists>p. listener_step s (s\<lparr>rs_at := Crashed p\<rparr>)" using listener_step.listen_panic assms(2) by blast
  show "(\<exists>p. rs_at t = Crashed p) \<or> rs_cancelled s \<and> rs_at t = Ended"
    if "listener_step s t" "rs_at t \<noteq> Listening"
    using that p assms(2) by cases (auto simp: set_rmq_def)
qed

definition demo_rmq :: rmq_state where
  "demo_rmq = \<lparr>rmq_conn = Some 1, rmq_ch = Some 2, rmq_uri = ''amqp://u:p@h:1/v'', rmq_notify = True, rmq_rq = True,
     rmq_queues = [''q''], rmq_closed_conns = []\<rparr>"

text \<open>
  C16. How the reconnecting listener fails. Without a template object, which nothing in the library sets, it
  never dials: once it listens, the loss of the connection ends in a panic, and there is no other way on
  than a cancelled context. With one, a channel that cannot be opened after a reconnection leaves it
  polling for ever: no later state has a connection or a channel. And the dial loop does not look at the
  context: in every run in which no dial succeeds, however long and whatever is cancelled, the goroutine
  stays in the loop and \<open>stop\<close> has not returned, and there are such runs of every length.
\<close>

theorem listener_never_recovers:
  assumes "listener_step\<^sup>*\<^sup>* (started_listener r) s"
  shows "(\<not> rmq_rq r \<longrightarrow> rs_at s \<noteq> Dialing k \<and>
      (rs_at s = Listening \<longrightarrow> (\<exists>p. listener_step s (s\<lparr>rs_at := Crashed p\<rparr>)) \<and>
        (\<forall>t. listener_step s t \<and> rs_at t \<noteq> Listening \<longrightarrow>
          (\<exists>p. rs_at t = Crashed p) \<or> rs_cancelled s \<and> rs_at t = Ended))) \<and>
    (rs_at s = Dialing k \<longrightarrow>
      (after_dial c (Inl e) declare_queue (rs_rmq s) = (r', p) \<and> listener_step\<^sup>*\<^sup>* (set_rmq r' p s) t \<longrightarrow>
         rmq_conn (rs_rmq t) = None \<and> GetRqChannel (rs_rmq t) = None) \<and>
      ((undialled_step ^^ n) s u \<longrightarrow> \<not> rs_stopped u \<and> (\<exists>j. rs_at u = Dialing j)) \<and>
      (\<exists>v. (undialled_step ^^ n) s v))"
proof -
  have tmpl: "rs_at s \<noteq> Dialing k \<and> \<not> rmq_rq (rs_rmq s)" if "\<not> rmq_rq r"
  proof -
    have "no_template_inv (started_listener r)" using that by (simp add: no_template_inv_def started_listener_def)
    then have "no_template_inv s" by (rule no_template.steps_inv [OF assms])
    then show ?thesis by (simp add: no_template_inv_def)
  qed
  have "dialing_offline (started_listener r)" by (simp add: dialing_offline_def started_listener_def)
  then have "dialing_offline s" by (rule dialing.steps_inv [OF assms])
  then have ch: "rmq_ch (rs_rmq s) = None" if "rs_at s = Dialing k" using that by (simp add: dialing_offline_def)
  have conn: "rmq_conn (rs_rmq t) = None \<and> GetRqChannel (rs_rmq t) = None"
    if "rs_at s = Dialing k" "after_dial c (Inl e) declare_queue (rs_rmq s) = (r', p)"
      "listener_step\<^sup>*\<^sup>* (set_rmq r' p s) t"
    using orphan.steps_inv [OF that(3) after_failed_channel [OF ch [OF that(1)] that(2)]]
    by (simp add: orphaned_def GetRqChannel_def)
  have wait: "\<not> rs_stopped u \<and> (\<exists>j. rs_at u = Dialing j)" if d: "rs_at s = Dialing k" and run: "(undialled_step ^^ n) s u"
  proof -
    have "undialled_step\<^sup>*\<^sup>* s u" using run by (rule relpowp_imp_rtranclp)
    then have "listener_step\<^sup>*\<^sup>* s u" by (rule mono_rtranclp [rule_format, rotated]) (simp add: undialled_step_def)
    with assms have "listener_step\<^sup>*\<^sup>* (started_listener r) u" by simp
    from waiting.steps_inv [OF this] have "stop_waits u" by (simp add: stop_waits_def started_listener_def)
    with undialled_keeps_dialing [OF run d] show ?thesis by (auto simp: stop_waits_def)
  qed
  show ?thesis using tmpl no_template_crash [of s] conn wait dialing_run [of s k n] by blast
qed

theorem listener_never_recovers_witness:
  "\<exists>s u. listener_step\<^sup>*\<^sup>* (started_listener demo_rmq) s \<and> rs_cancelled s \<and> \<not> rs_stopped s \<and>
     (undialled_step ^^ 1000) s u \<and> \<not> rs_stopped u"
proof -
  let ?s0 = "started_listener demo_rmq"
  have 1: "listener_step ?s0 (?s0\<lparr>rs_at := Listening\<rparr>)"
    by (rule listener_step.top_ready) (simp_all add: started_listener_def demo_rmq_def)
  let ?s2 = "set_rmq (reset_locked demo_rmq) (Dialing 1) (?s0\<lparr>rs_at := Listening\<rparr>)"
  have 2: "listener_step (?s0\<lparr>rs_at := Listening\<rparr>) ?s2"
    using listener_step.listen_closed [of "?s0\<lparr>rs_at := Listening\<rparr>"]
    by (simp add: started_listener_def demo_rmq_def rmq_template_call_def)
  let ?s3 = "?s2\<lparr>rs_cancelled := True\<rparr>"
  have 3: "listener_step ?s2 ?s3" by (rule listener_step.cancel)
  from 1 2 3 have run: "listener_step\<^sup>*\<^sup>* ?s0 ?s3"
    by (meson converse_rtranclp_into_rtranclp rtranclp.rtrancl_refl)
  have d: "rs_at ?s3 = Dialing 1" "rs_cancelled ?s3" "\<not> rs_stopped ?s3"
    by (simp_all add: set_rmq_def started_listener_def)
  from dialing_run [OF d(1), of 1000] obtain u where u: "(undialled_step ^^ 1000) ?s3 u" by blast
  have "\<not> rs_stopped u" using listener_never_recovers [OF run, where n = 1000 and u = u and k = 1] d(1) u by blast
  with run d u show ?thesis by blast
qed

end
