(* ===== verification/Passwords.thy ===== *)
theory Passwords
  imports AppGlobals
begin

section \<open>pcauth: password hashes and their cost\<close>

text \<open>
  \<^verbatim>\<open>pcauth/pcauth.go\<close>. The two package variables form the record \<open>cost_state\<close>; a provider is a
  function of the environment, since the one the library installs reads \<^verbatim>\<open>BCRYPT_COST\<close> on every call.
  bcrypt and the UUID generator are not part of the repository: \<open>bcrypt_lib\<close> is what they answer, the
  randomness of a call is its number \<open>seed\<close>. \<open>bcrypt_laws\<close> states the documented behaviour that the
  round-trip properties rely on.
\<close>

definition default_cost :: int where "default_cost = 10"
definition maximum_cost :: int where "maximum_cost = 14"
definition bcrypt_min_cost :: int where "bcrypt_min_cost = 4"

record cost_state =
  configured_cost :: int
  configured_cost_provider :: "(env \<Rightarrow> int) option"

definition clamp_cost :: "int \<Rightarrow> int" where
  "clamp_cost cost =
     (if cost < bcrypt_min_cost then bcrypt_min_cost
      else if cost > maximum_cost then maximum_cost else cost)"

definition ConfigureCost :: "int \<Rightarrow> cost_state \<Rightarrow> cost_state" where
  "ConfigureCost cost s =
     s\<lparr>configured_cost := wrap32 (clamp_cost cost), configured_cost_provider := None\<rparr>"

definition ConfigureCostProvider :: "(env \<Rightarrow> int) option \<Rightarrow> cost_state \<Rightarrow> cost_state" where
  "ConfigureCostProvider provider s = s\<lparr>configured_cost_provider := provider\<rparr>"

definition bcrypt_cost :: "env \<Rightarrow> cost_state \<Rightarrow> int" where
  "bcrypt_cost ev s =
     (case configured_cost_provider s of
        Some load \<Rightarrow> clamp_cost (load ev)
      | None \<Rightarrow> (if configured_cost s = 0 then default_cost else configured_cost s))"

datatype compare_answer = HashMatches | HashMismatch | CompareFailed err

record bcrypt_lib =
  bl_compare :: "string \<Rightarrow> string \<Rightarrow> compare_answer"
  bl_cost :: "string \<Rightarrow> err + int"
  bl_generate :: "nat \<Rightarrow> string \<Rightarrow> int \<Rightarrow> err + string"
  bl_new_uuid :: "nat \<Rightarrow> string"

definition generate_at_cost :: "bcrypt_lib \<Rightarrow> nat \<Rightarrow> string \<Rightarrow> int \<Rightarrow> err + (string \<times> string)" where
  "generate_at_cost bl seed plaintext cost =
     (let salt = bl_new_uuid bl seed
      in case bl_generate bl seed (plaintext @ salt) cost of
           Inl e \<Rightarrow> Inl e
         | Inr h \<Rightarrow> Inr (salt, h))"

definition GenerateHashAndSalt ::
  "bcrypt_lib \<Rightarrow> env \<Rightarrow> cost_state \<Rightarrow> nat \<Rightarrow> string \<Rightarrow> err + (string \<times> string)" where
  "GenerateHashAndSalt bl ev s seed plaintext = generate_at_cost bl seed plaintext (bcrypt_cost ev s)"

record verification_result =
  vr_matched :: bool
  vr_needs_rehash :: bool
  vr_new_salt :: string
  vr_new_hash :: string

definition zero_result :: verification_result where
  "zero_result = \<lparr>vr_matched = False, vr_needs_rehash = False, vr_new_salt = [], vr_new_hash = []\<rparr>"

text \<open>The result is returned beside every error, with what is known at that point.\<close>

definition VerifyAndMaybeRehash ::
  "bcrypt_lib \<Rightarrow> env \<Rightarrow> cost_state \<Rightarrow> nat \<Rightarrow> string \<Rightarrow> string \<Rightarrow> string \<Rightarrow> verification_result \<times> err option" where
  "VerifyAndMaybeRehash bl ev s seed plaintext salt h =
     (if trim_space salt = [] \<or> trim_space h = [] then (zero_result, None)
      else case bl_compare bl h (plaintext @ salt) of
        HashMismatch \<Rightarrow> (zero_result, None)
      | CompareFailed e \<Rightarrow> (zero_result, Some (''compare password: '' @ e))
      | HashMatches \<Rightarrow>
          (let res = zero_result\<lparr>vr_matched := True\<rparr>
           in case bl_cost bl h of
                Inl e \<Rightarrow> (res, Some (''read password hash cost: '' @ e))
              | Inr currentCost \<Rightarrow>
                  (let targetCost = bcrypt_cost ev s
                   in if currentCost \<ge> targetCost then (res, None)
                      else case generate_at_cost bl seed plaintext targetCost of
                        Inl e \<Rightarrow> (res, Some (''rehash password: '' @ e))
                      | Inr (newSalt, newHash) \<Rightarrow>
                          (res\<lparr>vr_needs_rehash := True, vr_new_salt := newSalt, vr_new_hash := newHash\<rparr>, None))))"

subsection \<open>Laws of the cost\<close>

lemma clamp_cost_range: "bcrypt_min_cost \<le> clamp_cost c \<and> clamp_cost c \<le> maximum_cost"
  by (simp add: clamp_cost_def bcrypt_min_cost_def maximum_cost_def)

lemma clamp_cost_id: "bcrypt_min_cost \<le> c \<Longrightarrow> c \<le> maximum_cost \<Longrightarrow> clamp_cost c = c"
  by (simp add: clamp_cost_def)

lemma wrap32_clamp: "wrap32 (clamp_cost c) = clamp_cost c"
  using clamp_cost_range [of c] by (simp add: wrap32_def bcrypt_min_cost_def maximum_cost_def)

text \<open>Every state the two setters produce from the initial one has a usable cost.\<close>

definition cost_ok :: "cost_state \<Rightarrow> bool" where
  "cost_ok s \<longleftrightarrow> configured_cost s = 0 \<or>
     (bcrypt_min_cost \<le> configured_cost s \<and> configured_cost s \<le> maximum_cost)"

lemma cost_ok_setters [simp]:
  "cost_ok (ConfigureCost c s)" "cost_ok s \<Longrightarrow> cost_ok (ConfigureCostProvider p s)"
  using clamp_cost_range [of c]
  by (simp_all add: cost_ok_def ConfigureCost_def ConfigureCostProvider_def wrap32_clamp)

lemma bcrypt_cost_range:
  "cost_ok s \<Longrightarrow> bcrypt_min_cost \<le> bcrypt_cost ev s \<and> bcrypt_cost ev s \<le> maximum_cost"
  by (auto simp: bcrypt_cost_def cost_ok_def default_cost_def bcrypt_min_cost_def maximum_cost_def
      clamp_cost_def split: option.splits)

subsection \<open>Documented behaviour of bcrypt\<close>

text \<open>
  A generated hash matches the password it was made from and carries the cost it was made with (for
  costs bcrypt accepts); a hash and a UUID are not blank.
\<close>

definition bcrypt_laws :: "bcrypt_lib \<Rightarrow> bool" where
  "bcrypt_laws bl \<longleftrightarrow>
     (\<forall>seed p c h. bl_generate bl seed p c = Inr h \<longrightarrow> trim_space h \<noteq> [] \<and>
        bl_compare bl h p = HashMatches \<and> (bcrypt_min_cost \<le> c \<and> c \<le> 31 \<longrightarrow> bl_cost bl h = Inr c)) \<and>
     (\<forall>seed. trim_space (bl_new_uuid bl seed) \<noteq> [])"

lemma generated_verifies:
  assumes "bcrypt_laws bl" "cost_ok s" "generate_at_cost bl seed p (bcrypt_cost ev s) = Inr (salt, h)"
  shows "VerifyAndMaybeRehash bl ev s seed' p salt h = (zero_result\<lparr>vr_matched := True\<rparr>, None)"
proof -
  let ?c = "bcrypt_cost ev s"
  from assms(3) have g: "bl_generate bl seed (p @ salt) ?c = Inr h" and u: "salt = bl_new_uuid bl seed"
    by (auto simp: generate_at_cost_def Let_def split: sum.splits)
  from bcrypt_cost_range [OF assms(2), of ev] have c: "bcrypt_min_cost \<le> ?c \<and> ?c \<le> 31"
    by (simp add: maximum_cost_def)
  from assms(1) g c have "trim_space h \<noteq> []" "bl_compare bl h (p @ salt) = HashMatches" "bl_cost bl h = Inr ?c"
    unfolding bcrypt_laws_def by blast+
  moreover from assms(1) have "trim_space salt \<noteq> []" unfolding u bcrypt_laws_def by blast
  ultimately show ?thesis by (simp add: VerifyAndMaybeRehash_def)
qed

text \<open>A toy bcrypt that satisfies the laws: the cost as one character, then the password, between dollar signs.\<close>

definition toy_bcrypt :: bcrypt_lib where
  "toy_bcrypt =
     \<lparr>bl_compare = (\<lambda>h p. if drop 2 h = p @ ''$'' then HashMatches else HashMismatch),
      bl_cost = (\<lambda>h. case h of c # d # _ \<Rightarrow> Inr (int (of_char d)) | _ \<Rightarrow> Inl ''short''),
      bl_generate = (\<lambda>_ p c. Inr (CHR ''$'' # char_of (nat c) # p @ ''$'')),
      bl_new_uuid = (\<lambda>_. ''uuid'')\<rparr>"


lemma toy_bcrypt_laws: "bcrypt_laws toy_bcrypt"
proof -
  have "trim_space (CHR ''$'' # c # p @ ''$'') = CHR ''$'' # c # p @ ''$''" for c p
    using trim_space_ascii_ends [of "CHR ''$''" "CHR ''$''" "c # p"] by simp
  moreover have "trim_space ''uuid'' \<noteq> []" by code_simp
  ultimately show ?thesis
    by (auto simp: bcrypt_laws_def toy_bcrypt_def bcrypt_min_cost_def)
qed

subsection \<open>Properties\<close>

text \<open>
  C35. Verification and rehashing converge. A password checked against a pair this package generated
  matches, and needs no rehash under the same configuration. When a check of any stored pair asks for
  a rehash, the password matched, the stored cost was below the configured one, and checking the same
  password against the new pair, from any later call on, matches and asks for nothing.
\<close>

theorem rehash_converges:
  assumes "bcrypt_laws bl" and "cost_ok s"
  shows "(GenerateHashAndSalt bl ev s seed p = Inr (salt, h) \<longrightarrow>
      VerifyAndMaybeRehash bl ev s seed' p salt h = (zero_result\<lparr>vr_matched := True\<rparr>, None)) \<and>
    (VerifyAndMaybeRehash bl ev s seed p salt0 h0 = (r, e) \<and> vr_needs_rehash r \<longrightarrow>
      vr_matched r \<and> e = None \<and> (\<exists>c. bl_cost bl h0 = Inr c \<and> c < bcrypt_cost ev s) \<and>
      VerifyAndMaybeRehash bl ev s seed' p (vr_new_salt r) (vr_new_hash r) =
        (zero_result\<lparr>vr_matched := True\<rparr>, None))"
proof ((rule conjI; rule impI), goal_cases)
  case 1
  then show ?case using generated_verifies [OF assms] by (simp add: GenerateHashAndSalt_def)
next
  case 2
  then obtain c ns nh where
      r: "r = zero_result\<lparr>vr_matched := True, vr_needs_rehash := True, vr_new_salt := ns, vr_new_hash := nh\<rparr>"
      and "e = None" "bl_cost bl h0 = Inr c" "c < bcrypt_cost ev s"
      and g: "generate_at_cost bl seed p (bcrypt_cost ev s) = Inr (ns, nh)"
    by (auto simp: VerifyAndMaybeRehash_def zero_result_def Let_def
        split: if_splits compare_answer.splits sum.splits prod.splits)
  with generated_verifies [OF assms g, of seed'] show ?case
    by (simp add: zero_result_def)
qed

theorem rehash_converges_witness:
  "let s = ConfigureCost 12 \<lparr>configured_cost = 0, configured_cost_provider = None\<rparr>;
       old = CHR ''$'' # char_of (10 :: nat) # ''pwsalt$'';
       (r, e) = VerifyAndMaybeRehash toy_bcrypt (\<lambda>_. []) s 0 ''pw'' ''salt'' old
   in vr_needs_rehash r \<and> e = None \<and>
      VerifyAndMaybeRehash toy_bcrypt (\<lambda>_. []) s 1 ''pw'' (vr_new_salt r) (vr_new_hash r) =
        (zero_result\<lparr>vr_matched := True\<rparr>, None)"
proof -
  let ?s = "ConfigureCost 12 \<lparr>configured_cost = 0, configured_cost_provider = None\<rparr>"
  let ?v = "VerifyAndMaybeRehash toy_bcrypt (\<lambda>_. []) ?s 0 ''pw'' ''salt''
    (CHR ''$'' # char_of (10 :: nat) # ''pwsalt$'')"
  have "vr_needs_rehash (fst ?v)" by code_simp
  then show ?thesis
    using rehash_converges [OF toy_bcrypt_laws, of ?s "\<lambda>_. []" 0 "''pw''" "[]" "[]" 1 "''salt''"
        "CHR ''$'' # char_of (10 :: nat) # ''pwsalt$''" "fst ?v" "snd ?v"]
    by (simp add: Let_def case_prod_beta)
qed

end
