(* ===== verification/DbPool.thy ===== *)
theory DbPool
  imports Logger
begin

section \<open>phdb: the pool of database connections\<close>

text \<open>
  \<^verbatim>\<open>phdb/pool.go\<close>. The four knobs of \<^verbatim>\<open>database/sql\<close> are the record \<open>sql_db\<close> with the standard library's
  setters: a limit of open connections of 0 means no limit, a lifetime of 0 means for ever. The random
  number that stretches the lifetime is an argument.
\<close>

record pool_config =
  pc_max_open :: int
  pc_max_idle :: int
  pc_lifetime :: int
  pc_idle_time :: int
  pc_logger :: "nat option"

record sql_db =
  db_max_open :: int
  db_max_idle_count :: int
  db_max_lifetime :: int
  db_max_idle_time :: int

subsection \<open>database/sql\<close>

definition max_idle_conns :: "sql_db \<Rightarrow> int" where
  "max_idle_conns db =
     (if db_max_idle_count db = 0 then 2 else if db_max_idle_count db < 0 then 0 else db_max_idle_count db)"

definition set_max_idle_conns :: "int \<Rightarrow> sql_db \<Rightarrow> sql_db" where
  "set_max_idle_conns n db =
     (let db1 = db\<lparr>db_max_idle_count := (if 0 < n then n else - 1)\<rparr>
      in if 0 < db_max_open db1 \<and> db_max_open db1 < max_idle_conns db1
         then db1\<lparr>db_max_idle_count := db_max_open db1\<rparr> else db1)"

definition set_max_open_conns :: "int \<Rightarrow> sql_db \<Rightarrow> sql_db" where
  "set_max_open_conns n db =
     (let db1 = db\<lparr>db_max_open := max 0 n\<rparr>
      in if 0 < db_max_open db1 \<and> db_max_open db1 < max_idle_conns db1
         then set_max_idle_conns n db1 else db1)"

definition set_conn_max_lifetime :: "int \<Rightarrow> sql_db \<Rightarrow> sql_db" where
  "set_conn_max_lifetime d db = db\<lparr>db_max_lifetime := max 0 d\<rparr>"

definition set_conn_max_idle_time :: "int \<Rightarrow> sql_db \<Rightarrow> sql_db" where
  "set_conn_max_idle_time d db = db\<lparr>db_max_idle_time := max 0 d\<rparr>"

subsection \<open>Configuration\<close>

definition DefaultPoolConfig :: pool_config where
  "DefaultPoolConfig =
     \<lparr>pc_max_open = 15, pc_max_idle = 15, pc_lifetime = 30 * Minute, pc_idle_time = 5 * Minute,
      pc_logger = None\<rparr>"

definition pool_validate :: "pool_config \<Rightarrow> err option" where
  "pool_validate c =
     (if pc_max_open c \<le> 0 then
        Some (''phdb: MaxOpenConns must be > 0 (0 means unlimited); got '' @ itoa (pc_max_open c))
      else if pc_max_idle c < 0 then
        Some (''phdb: MaxIdleConns must be >= 0; got '' @ itoa (pc_max_idle c))
      else None)"

definition env_int_positive :: "env \<Rightarrow> string \<Rightarrow> int \<Rightarrow> int" where
  "env_int_positive ev key def =
     (case atoi (ev key) of Some v \<Rightarrow> (if v > 0 then v else def) | None \<Rightarrow> def)"

definition LoadPoolConfig :: "env \<Rightarrow> string \<Rightarrow> pool_config" where
  "LoadPoolConfig ev prefix =
     (let d = DefaultPoolConfig
      in \<lparr>pc_max_open = env_int_positive ev (prefix @ ''_MAX_OPEN_CONN'') (pc_max_open d),
          pc_max_idle = env_int_positive ev (prefix @ ''_MAX_IDLE_CONN'') (pc_max_idle d),
          pc_lifetime = dur_mul (env_int_positive ev (prefix @ ''_CONN_MAX_LIFETIME'')
                          (go_div (pc_lifetime d) Minute)) Minute,
          pc_idle_time = dur_mul (env_int_positive ev (prefix @ ''_CONN_MAX_IDLE_TIME'')
                          (go_div (pc_idle_time d) Minute)) Minute,
          pc_logger = None\<rparr>)"

text \<open>\<open>rnd budget\<close> is the answer of \<open>rand.N(budget)\<close>.\<close>

definition lifetime_with_jitter :: "(int \<Rightarrow> int) \<Rightarrow> int \<Rightarrow> int" where
  "lifetime_with_jitter rnd lifetime =
     (if lifetime \<le> 0 then lifetime
      else let jitterBudget = go_div lifetime 10
           in if jitterBudget \<le> 0 then lifetime else dur_add lifetime (rnd jitterBudget))"

subsection \<open>Applying it\<close>

text \<open>
  The log line goes to the configuration's own logger when it has one; \<open>dur_text\<close> is the text of a
  duration.
\<close>

record pool_log =
  pl_logger :: logger
  pl_custom :: "(nat \<times> string \<times> goarg list) list"

definition log_pool :: "(int \<Rightarrow> string) \<Rightarrow> int \<Rightarrow> pool_config \<Rightarrow> int \<Rightarrow> pool_log \<Rightarrow> pool_log" where
  "log_pool dur_text now cfg effectiveLifetime pl =
     (let format = ''[phdb] pool applied MaxOpen=%d MaxIdle=%d Lifetime=%s IdleTime=%s'';
          args = [AInt (pc_max_open cfg), AInt (pc_max_idle cfg), AStr (dur_text effectiveLifetime),
                  AStr (dur_text (pc_idle_time cfg))]
      in case pc_logger cfg of
           Some l \<Rightarrow> pl\<lparr>pl_custom := pl_custom pl @ [(l, format, args)]\<rparr>
         | None \<Rightarrow> pl\<lparr>pl_logger := LogI format args now (pl_logger pl)\<rparr>)"

definition Apply ::
  "(int \<Rightarrow> string) \<Rightarrow> (int \<Rightarrow> int) \<Rightarrow> int \<Rightarrow> pool_config \<Rightarrow> sql_db option \<Rightarrow> pool_log \<Rightarrow>
     err option \<times> sql_db option \<times> pool_log" where
  "Apply dur_text rnd now cfg sqlDB pl =
     (case sqlDB of
        None \<Rightarrow> (Some ''phdb: sqlDB is nil'', None, pl)
      | Some db \<Rightarrow>
          (case pool_validate cfg of
             Some e \<Rightarrow> (Some e, Some db, pl)
           | None \<Rightarrow>
               (let maxIdle = (if pc_max_idle cfg > pc_max_open cfg then pc_max_open cfg else pc_max_idle cfg);
                    lifetime = lifetime_with_jitter rnd (pc_lifetime cfg);
                    db1 = set_max_open_conns (pc_max_open cfg) db;
                    db2 = set_max_idle_conns maxIdle db1;
                    db3 = set_conn_max_lifetime lifetime db2;
                    db4 = set_conn_max_idle_time (pc_idle_time cfg) db3
                in (None, Some db4, log_pool dur_text now cfg lifetime pl))))"

definition OpenAndApply ::
  "(int \<Rightarrow> string) \<Rightarrow> (int \<Rightarrow> int) \<Rightarrow> int \<Rightarrow> pool_config \<Rightarrow> sql_db option \<Rightarrow> pool_log \<Rightarrow>
     (err + sql_db option) \<times> sql_db option \<times> pool_log" where
  "OpenAndApply dur_text rnd now cfg sqlDB pl =
     (case Apply dur_text rnd now cfg sqlDB pl of
        (Some e, db, pl') \<Rightarrow> (Inl e, db, pl')
      | (None, db, pl') \<Rightarrow> (Inr db, db, pl'))"

subsection \<open>Lemmas\<close>

lemma env_int_positive_pos: "0 < def \<Longrightarrow> 0 < env_int_positive ev key def"
  by (simp add: env_int_positive_def split: option.split)

lemma loaded_pool_fields:
  "0 < pc_max_open (LoadPoolConfig ev prefix)" "0 < pc_max_idle (LoadPoolConfig ev prefix)"
  by (simp_all add: LoadPoolConfig_def DefaultPoolConfig_def env_int_positive_pos Let_def)

lemma loaded_pool_valid: "pool_validate (LoadPoolConfig ev prefix) = None"
  using loaded_pool_fields [of ev prefix] by (simp add: pool_validate_def)

text \<open>The jitter only lengthens, by less than a tenth, while the sum fits the 64 bits of a duration.\<close>

lemma lifetime_with_jitter_bounds:
  assumes "\<And>b. 0 < b \<Longrightarrow> 0 \<le> rnd b \<and> rnd b < b" and "0 \<le> d" and "11 * d < 10 * 2 ^ 63"
  shows "d \<le> lifetime_with_jitter rnd d \<and> 10 * lifetime_with_jitter rnd d \<le> 11 * d"
proof (cases "0 < d div 10")
  case True
  define q where "q = d div 10"
  have r: "0 \<le> rnd q" "rnd q < q" using True assms(1) by (simp_all add: q_def)
  moreover have "10 * q \<le> d" unfolding q_def by presburger
  ultimately have s: "10 * (d + rnd q) \<le> 11 * d" by simp
  then have "in_i64 (d + rnd q)" using r assms(2,3) by (simp add: in_i64_def)
  then have "lifetime_with_jitter rnd d = d + rnd q"
    using True assms(2) by (auto simp: lifetime_with_jitter_def go_div_nonneg dur_add_exact Let_def q_def)
  with r s show ?thesis by simp
next
  case False
  then show ?thesis using assms(2) by (auto simp: lifetime_with_jitter_def go_div_nonneg Let_def)
qed

lemma apply_result:
  assumes "pool_validate cfg = None"
  shows "\<exists>db'. Apply dur_text rnd now cfg (Some db) pl =
      (None, Some db', log_pool dur_text now cfg (lifetime_with_jitter rnd (pc_lifetime cfg)) pl) \<and>
    db_max_open db' = pc_max_open cfg \<and>
    max_idle_conns db' = min (pc_max_idle cfg) (pc_max_open cfg) \<and>
    db_max_lifetime db' = max 0 (lifetime_with_jitter rnd (pc_lifetime cfg)) \<and>
    db_max_idle_time db' = max 0 (pc_idle_time cfg)"
proof -
  from assms have "0 < pc_max_open cfg" "0 \<le> pc_max_idle cfg"
    by (auto simp: pool_validate_def split: if_splits)
  then show ?thesis
    using assms
    by (auto simp: Apply_def Let_def set_max_open_conns_def set_max_idle_conns_def max_idle_conns_def
        set_conn_max_lifetime_def set_conn_max_idle_time_def min_def max_def)
qed


subsection \<open>Properties\<close>

text \<open>
  C39. Whatever the environment says, a configuration loaded from it applies to a live handle: the pool
  has a positive limit of open connections (never unlimited) and at most that many idle ones. For up to
  139747519 minutes the lifetime of a connection is at least the configured one and at most a tenth
  more. Beyond that the 64 bits of a duration overflow, in the sum with the jitter or in the product of
  minutes, and a result that is not positive means connections that live for ever.
\<close>

theorem loaded_pool_bounded:
  assumes "cfg = LoadPoolConfig ev prefix"
    and "minutes = env_int_positive ev (prefix @ ''_CONN_MAX_LIFETIME'') 30"
  shows "\<exists>db' pl'. Apply dur_text rnd now cfg (Some db) pl = (None, Some db', pl') \<and>
    0 < db_max_open db' \<and> max_idle_conns db' \<le> db_max_open db' \<and>
    (minutes \<le> 139747519 \<and> (\<forall>b > 0. 0 \<le> rnd b \<and> rnd b < b) \<longrightarrow>
       minutes * Minute \<le> db_max_lifetime db' \<and> 10 * db_max_lifetime db' \<le> 11 * (minutes * Minute)) \<and>
    (wrap64 (minutes * Minute) \<le> 0 \<longrightarrow> db_max_lifetime db' = 0)"
proof -
  have v: "pool_validate cfg = None" using assms(1) loaded_pool_valid by simp
  have m: "0 < minutes" unfolding assms(2) by (rule env_int_positive_pos) simp
  have l: "pc_lifetime cfg = wrap64 (minutes * Minute)"
    using assms by (simp add: LoadPoolConfig_def DefaultPoolConfig_def dur_mul_def go_div_def Let_def)
  from apply_result [OF v, of dur_text rnd now db pl] obtain db' where db':
      "Apply dur_text rnd now cfg (Some db) pl =
        (None, Some db', log_pool dur_text now cfg (lifetime_with_jitter rnd (pc_lifetime cfg)) pl)"
      "db_max_open db' = pc_max_open cfg" "max_idle_conns db' = min (pc_max_idle cfg) (pc_max_open cfg)"
      "db_max_lifetime db' = max 0 (lifetime_with_jitter rnd (pc_lifetime cfg))"
    by blast
  have "0 < pc_max_open cfg" using assms(1) loaded_pool_fields by simp
  moreover have "minutes * Minute \<le> db_max_lifetime db' \<and> 10 * db_max_lifetime db' \<le> 11 * (minutes * Minute)"
    if "minutes \<le> 139747519" "\<forall>b > 0. 0 \<le> rnd b \<and> rnd b < b"
  proof -
    have "pc_lifetime cfg = minutes * Minute" using that(1) m by (simp add: l wrap64_def)
    moreover from this have "0 \<le> pc_lifetime cfg" "11 * pc_lifetime cfg < 10 * 2 ^ 63" using that(1) m by simp_all
    ultimately show ?thesis
      using lifetime_with_jitter_bounds [of rnd "pc_lifetime cfg"] that(2) db'(4) by simp
  qed
  moreover have "db_max_lifetime db' = 0" if "wrap64 (minutes * Minute) \<le> 0"
    using that db'(4) by (simp add: l lifetime_with_jitter_def)
  ultimately show ?thesis using db' by auto
qed

definition misconfigured_db_env :: env where
  "misconfigured_db_env = (\<lambda>_. [])(''DB_MAX_OPEN_CONN'' := ''0'', ''DB_MAX_IDLE_CONN'' := ''99'')"

theorem loaded_pool_bounded_witness:
  "\<forall>pl. \<exists>db' pl'. Apply (\<lambda>_. []) (\<lambda>b. b - 1) 0 (LoadPoolConfig misconfigured_db_env ''DB'')
      (Some \<lparr>db_max_open = 0, db_max_idle_count = 0, db_max_lifetime = 0, db_max_idle_time = 0\<rparr>) pl =
      (None, Some db', pl') \<and>
    0 < db_max_open db' \<and> max_idle_conns db' \<le> db_max_open db' \<and>
    30 * Minute \<le> db_max_lifetime db' \<and> db_max_lifetime db' \<le> 33 * Minute"
proof
  fix pl
  have "env_int_positive misconfigured_db_env (''DB'' @ ''_CONN_MAX_LIFETIME'') 30 = 30"
    by (simp add: misconfigured_db_env_def env_int_positive_def atoi_def unsigned_digits_def)
  from loaded_pool_bounded [OF refl this [symmetric], of "\<lambda>_. []" "\<lambda>b. b - 1" 0
      "\<lparr>db_max_open = 0, db_max_idle_count = 0, db_max_lifetime = 0, db_max_idle_time = 0\<rparr>" pl]
  show "\<exists>db' pl'. Apply (\<lambda>_. []) (\<lambda>b. b - 1) 0 (LoadPoolConfig misconfigured_db_env ''DB'')
      (Some \<lparr>db_max_open = 0, db_max_idle_count = 0, db_max_lifetime = 0, db_max_idle_time = 0\<rparr>) pl =
      (None, Some db', pl') \<and>
    0 < db_max_open db' \<and> max_idle_conns db' \<le> db_max_open db' \<and>
    30 * Minute \<le> db_max_lifetime db' \<and> db_max_lifetime db' \<le> 33 * Minute"
    by fastforce
qed

text \<open>
  The product of minutes is not checked: 200000000 minutes wrap to a negative duration, which the pool
  reads as no lifetime at all.
\<close>

lemma pool_lifetime_overflow:
  "pc_lifetime (LoadPoolConfig ((\<lambda>_. [])(''DB_CONN_MAX_LIFETIME'' := ''200000000'')) ''DB'') < 0"
  by (simp add: LoadPoolConfig_def env_int_positive_def atoi_def unsigned_digits_def is_digit_def
      digit_val_def DefaultPoolConfig_def go_div_def go_arith Let_def)

end
