(* ===== verification/Health.thy ===== *)
theory Health
  imports Complex_Main RedisOps AuditTrail Sentry LogForward
begin

section \<open>health.go: what the library reports about itself\<close>

text \<open>
  The checks read the state of the other components: the Redis client of \<open>redis_state\<close>, the AMQP client
  of \<open>audit_state\<close> and the client of \<open>sentry_state\<close>. The answer of \<^verbatim>\<open>PING\<close> and the clock readings are
  arguments; the log lines go to the logger.
\<close>

subsection \<open>Severities\<close>

text \<open>The three status texts, as a linear order from good to bad.\<close>

datatype severity = Healthy | Degraded | Unhealthy

fun rank :: "severity \<Rightarrow> nat" where
  "rank Healthy = 0"
| "rank Degraded = 1"
| "rank Unhealthy = 2"

instantiation severity :: linorder
begin

definition less_eq_severity :: "severity \<Rightarrow> severity \<Rightarrow> bool" where
  "less_eq_severity a b \<longleftrightarrow> rank a \<le> rank b"

definition less_severity :: "severity \<Rightarrow> severity \<Rightarrow> bool" where
  "less_severity a b \<longleftrightarrow> rank a < rank b"

instance
proof
  fix a b c :: severity
  show "a < b \<longleftrightarrow> a \<le> b \<and> \<not> b \<le> a" by (auto simp: less_eq_severity_def less_severity_def)
  show "a \<le> a" by (simp add: less_eq_severity_def)
  show "a \<le> b \<Longrightarrow> b \<le> c \<Longrightarrow> a \<le> c" by (simp add: less_eq_severity_def)
  show "a \<le> b \<Longrightarrow> b \<le> a \<Longrightarrow> a = b" by (cases a; cases b) (simp_all add: less_eq_severity_def)
  show "a \<le> b \<or> b \<le> a" by (auto simp: less_eq_severity_def)
qed

end

lemma severity_bounds [simp]: "Healthy \<le> a" "a \<le> Unhealthy"
  by (cases a; simp add: less_eq_severity_def)+

fun severity_text :: "severity \<Rightarrow> string" where
  "severity_text Healthy = ''healthy''"
| "severity_text Degraded = ''degraded''"
| "severity_text Unhealthy = ''unhealthy''"

lemma severity_text_inject [simp]: "severity_text a = severity_text b \<longleftrightarrow> a = b"
  by (cases a; cases b) simp_all

subsection \<open>The checks\<close>

record health_status =
  hs_component :: string
  hs_status :: string
  hs_message :: string
  hs_latency :: int

record health_check =
  hc_app_name :: string
  hc_app_env :: string
  hc_overall :: string
  hc_checks :: "health_status list"

definition new_status :: "string \<Rightarrow> health_status" where
  "new_status component = \<lparr>hs_component = component, hs_status = [], hs_message = [], hs_latency = 0\<rparr>"

definition check_redis_health ::
  "(nat \<Rightarrow> err option) \<Rightarrow> int \<Rightarrow> int \<Rightarrow> redis_state \<Rightarrow> logger \<Rightarrow> health_status \<times> logger" where
  "check_redis_health ping start finish rs lg =
     (let status = new_status ''redis''
      in case pool_client rs of
           None \<Rightarrow> (status\<lparr>hs_status := ''unhealthy'', hs_message := ''redis client not initialized''\<rparr>, lg)
         | Some c \<Rightarrow>
             (let latency = go_div (elapsed start finish) Millisecond;
                  prefix = AStr (build_log_prefix ''checkRedisHealth'');
                  (status, lg) =
                    (case ping c of
                       Some e \<Rightarrow>
                         (status\<lparr>hs_status := ''unhealthy'', hs_message := e\<rparr>,
                          LogE ''%s redis unhealthy err=%v'' [prefix, AErr e] finish lg)
                     | None \<Rightarrow>
                         (if latency > 1000 then
                            (status\<lparr>hs_status := ''degraded'', hs_message := ''high latency detected''\<rparr>,
                             LogW ''%s redis degraded latency_ms=%d'' [prefix, AInt latency] finish lg)
                          else
                            (status\<lparr>hs_status := ''healthy''\<rparr>,
                             LogD ''%s redis healthy latency_ms=%d'' [prefix, AInt latency] finish lg)))
              in (status\<lparr>hs_latency := latency\<rparr>, lg)))"

definition check_rabbitmq_health :: "int \<Rightarrow> 'v audit_state \<Rightarrow> logger \<Rightarrow> health_status \<times> logger" where
  "check_rabbitmq_health now au lg =
     (let status = new_status ''rabbitmq'';
          prefix = AStr (build_log_prefix ''checkRabbitMQHealth'')
      in case audit_client au of
           None \<Rightarrow>
             (status\<lparr>hs_status := ''unhealthy'', hs_message := ''rabbitmq client not initialized''\<rparr>,
              LogD ''%s rabbitmq not initialized'' [prefix] now lg)
         | Some rmq \<Rightarrow>
             (if \<not> is_ready rmq then
                (status\<lparr>hs_status := ''degraded'', hs_message := ''connection not ready''\<rparr>,
                 LogW ''%s rabbitmq degraded connection_not_ready=true'' [prefix] now lg)
              else (status\<lparr>hs_status := ''healthy''\<rparr>, LogD ''%s rabbitmq healthy'' [prefix] now lg)))"

definition check_sentry_health :: "int \<Rightarrow> sentry_state \<Rightarrow> logger \<Rightarrow> health_status \<times> logger" where
  "check_sentry_health now sn lg =
     (let status = new_status ''sentry'';
          prefix = AStr (build_log_prefix ''checkSentryHealth'')
      in if sn_client sn = None then
           (status\<lparr>hs_status := ''unhealthy'', hs_message := ''sentry client not initialized''\<rparr>,
            LogD ''%s sentry not initialized'' [prefix] now lg)
         else (status\<lparr>hs_status := ''healthy''\<rparr>, LogD ''%s sentry healthy'' [prefix] now lg))"

text \<open>The loop over the checks, which stops at the first unhealthy one.\<close>

fun overall_status :: "string \<Rightarrow> health_status list \<Rightarrow> string" where
  "overall_status overall [] = overall"
| "overall_status overall (check # checks) =
     (if hs_status check = ''unhealthy'' then ''unhealthy''
      else if hs_status check = ''degraded'' \<and> overall \<noteq> ''unhealthy'' then overall_status ''degraded'' checks
      else overall_status overall checks)"

definition CheckHealth ::
  "globals \<Rightarrow> (nat \<Rightarrow> err option) \<Rightarrow> int \<Rightarrow> int \<Rightarrow> redis_state \<Rightarrow> 'v audit_state \<Rightarrow> sentry_state \<Rightarrow>
     logger \<Rightarrow> health_check \<times> logger" where
  "CheckHealth g ping start finish rs au sn lg =
     (let (redisHealth, lg1) = check_redis_health ping start finish rs lg;
          (rabbitHealth, lg2) = check_rabbitmq_health finish au lg1;
          (sentryHealth, lg3) = check_sentry_health finish sn lg2;
          checks = [redisHealth, rabbitHealth, sentryHealth]
      in (\<lparr>hc_app_name = get_app_name g, hc_app_env = get_app_env g,
            hc_overall = overall_status ''healthy'' checks, hc_checks = checks\<rparr>, lg3))"

subsection \<open>Redis pool statistics\<close>

text \<open>go-redis keeps the counters as 32-bit unsigned numbers. The two ratios are exact rationals here.\<close>

record redis_pool_stats =
  rps_total_conns :: int
  rps_idle_conns :: int
  rps_stale_conns :: int
  rps_hits :: "32 word"
  rps_misses :: "32 word"
  rps_timeouts :: "32 word"

record redis_metrics_detailed =
  rmd_pool_stats :: redis_pool_stats
  rmd_hit_rate :: rat
  rmd_active_conns :: int
  rmd_pool_utilized :: rat

definition GetRedisPoolStats :: "(nat \<Rightarrow> redis_pool_stats) \<Rightarrow> redis_state \<Rightarrow> redis_pool_stats option" where
  "GetRedisPoolStats pool_stats rs = map_option pool_stats (pool_client rs)"

definition GetRedisMetrics :: "(nat \<Rightarrow> redis_pool_stats) \<Rightarrow> redis_state \<Rightarrow> redis_pool_stats option" where
  "GetRedisMetrics pool_stats rs = GetRedisPoolStats pool_stats rs"

definition percentage :: "int \<Rightarrow> int \<Rightarrow> rat" where
  "percentage a b = (of_int a / of_int b) * 100"

definition GetRedisMetricsDetailed ::
  "(nat \<Rightarrow> redis_pool_stats) \<Rightarrow> redis_state \<Rightarrow> redis_metrics_detailed option" where
  "GetRedisMetricsDetailed pool_stats rs =
     (case GetRedisPoolStats pool_stats rs of
        None \<Rightarrow> None
      | Some st \<Rightarrow>
          (let totalRequests = rps_hits st + rps_misses st;
               active = rps_total_conns st - rps_idle_conns st
           in Some \<lparr>rmd_pool_stats = st,
                    rmd_hit_rate = (if totalRequests > 0
                                    then percentage (uint (rps_hits st)) (uint totalRequests) else 0),
                    rmd_active_conns = active,
                    rmd_pool_utilized = (if rps_total_conns st > 0
                                         then percentage active (rps_total_conns st) else 0)\<rparr>))"


subsection \<open>Properties\<close>

definition graded :: "health_status \<Rightarrow> severity \<Rightarrow> bool" where
  "graded h sv \<longleftrightarrow> hs_status h = severity_text sv"

lemma overall_status_fold:
  "list_all2 graded checks svs \<Longrightarrow>
   overall_status (severity_text sv0) checks = severity_text (foldl max sv0 svs)"
proof (induction checks svs arbitrary: sv0 rule: list_all2_induct)
  case (Cons c cs sv svs)
  have unhealthy: "foldl max Unhealthy xs = Unhealthy" for xs
    by (induction xs) (simp_all add: max_absorb1)
  show ?case
  proof (cases sv)
    case Unhealthy
    then have "max sv0 sv = Unhealthy" by (simp add: max_absorb2)
    with Cons.hyps Unhealthy show ?thesis by (simp add: graded_def unhealthy)
  next
    case Degraded
    then have "max sv0 sv = (if sv0 = Unhealthy then Unhealthy else Degraded)"
      by (cases sv0) (simp_all add: max_def less_eq_severity_def)
    moreover have "severity_text sv0 \<noteq> ''unhealthy'' \<longleftrightarrow> sv0 \<noteq> Unhealthy"
      by (cases sv0) simp_all
    ultimately show ?thesis
      using Cons.hyps Cons.IH [of Degraded] Cons.IH [of sv0] Degraded
      by (auto simp: graded_def)
  next
    case Healthy
    then have "max sv0 sv = sv0" by (cases sv0) (simp_all add: max_def less_eq_severity_def)
    with Cons.hyps Cons.IH [of sv0] Healthy show ?thesis by (auto simp: graded_def)
  qed
qed simp

definition redis_severity :: "(nat \<Rightarrow> err option) \<Rightarrow> int \<Rightarrow> int \<Rightarrow> redis_state \<Rightarrow> severity" where
  "redis_severity ping start finish rs =
     (case pool_client rs of
        None \<Rightarrow> Unhealthy
      | Some c \<Rightarrow> (if ping c \<noteq> None then Unhealthy
                  else if go_div (elapsed start finish) Millisecond > 1000 then Degraded else Healthy))"

definition rabbitmq_severity :: "'v audit_state \<Rightarrow> severity" where
  "rabbitmq_severity au =
     (case audit_client au of
        None \<Rightarrow> Unhealthy | Some rmq \<Rightarrow> if is_ready rmq then Healthy else Degraded)"

definition sentry_severity :: "sentry_state \<Rightarrow> severity" where
  "sentry_severity sn = (if sn_client sn = None then Unhealthy else Healthy)"

lemma redis_graded:
  "graded (fst (check_redis_health ping start finish rs lg)) (redis_severity ping start finish rs)"
  by (auto simp: graded_def check_redis_health_def redis_severity_def Let_def split: option.split)

lemma rabbitmq_graded: "graded (fst (check_rabbitmq_health now au lg)) (rabbitmq_severity au)"
  by (auto simp: graded_def check_rabbitmq_health_def rabbitmq_severity_def Let_def split: option.split)

lemma sentry_graded: "graded (fst (check_sentry_health now sn lg)) (sentry_severity sn)"
  by (auto simp: graded_def check_sentry_health_def sentry_severity_def Let_def)

text \<open>
  C40. The overall status is the worst of the three components: the loop with its early exit computes the
  maximum of the severities, where Redis is unhealthy without a client or an answered ping and degraded
  above a second, RabbitMQ is unhealthy without a client and degraded while not ready, and Sentry is
  unhealthy without a client. The three checks are always listed, in this order.
\<close>

theorem overall_is_worst_component:
  "\<exists>h lg'. CheckHealth g ping start finish rs au sn lg = (h, lg') \<and>
     hc_overall h = severity_text
       (Max {redis_severity ping start finish rs, rabbitmq_severity au, sentry_severity sn}) \<and>
     list_all2 graded (hc_checks h)
       [redis_severity ping start finish rs, rabbitmq_severity au, sentry_severity sn]"
proof -
  let ?svs = "[redis_severity ping start finish rs, rabbitmq_severity au, sentry_severity sn]"
  obtain r lg1 where r: "check_redis_health ping start finish rs lg = (r, lg1)" by fastforce
  obtain b lg2 where b: "check_rabbitmq_health finish au lg1 = (b, lg2)" by fastforce
  obtain s lg3 where s: "check_sentry_health finish sn lg2 = (s, lg3)" by fastforce
  have g: "list_all2 graded [r, b, s] ?svs"
    using redis_graded [of ping start finish rs lg] rabbitmq_graded [of finish au lg1]
      sentry_graded [of finish sn lg2] r b s by simp
  have "foldl max Healthy ?svs = Max (set ?svs)"
    by (simp add: max.assoc max_absorb2)
  with overall_status_fold [OF g, of Healthy] g r b s show ?thesis
    by (simp add: CheckHealth_def)
qed

text \<open>
  The sum of the counters is a 32-bit sum: with 2147483648 hits and as many misses it is zero and the
  reported hit rate is zero.
\<close>

lemma hit_rate_wraps:
  "\<exists>d. GetRedisMetricsDetailed
      (\<lambda>_. \<lparr>rps_total_conns = 0, rps_idle_conns = 0, rps_stale_conns = 0, rps_hits = 2147483648,
            rps_misses = 2147483648, rps_timeouts = 0\<rparr>)
      (initial_redis_state\<lparr>pool_client := Some 0\<rparr>) = Some d \<and> rmd_hit_rate d = 0"
  by (simp add: GetRedisMetricsDetailed_def GetRedisPoolStats_def)

end
