(* ===== verification/Startup.thy ===== *)
theory Startup
  imports RedisConfig LogForward Passwords
begin

section \<open>init.go and config.go: start of the library and its configuration report\<close>

text \<open>
  What importing the package runs: the search for a \<^verbatim>\<open>.env\<close> file, its loading, the identity, the cost
  provider, the log sampler and the report of configuration problems. The file system is a predicate
  (\<open>os.Stat\<close> succeeds), the working directory and the executable are options (\<open>None\<close> when the system
  reports an error), and \<^verbatim>\<open>godotenv\<close>, a third-party package, is the parameter \<open>load_env\<close>.
\<close>

subsection \<open>path/filepath on slash-separated paths\<close>

text \<open>The elements of a path after \<open>filepath.Clean\<close>; \<open>acc\<close> holds those kept so far, reversed.\<close>

fun clean_parts :: "bool \<Rightarrow> string list \<Rightarrow> string list \<Rightarrow> string list" where
  "clean_parts rooted acc [] = rev acc"
| "clean_parts rooted acc (p # ps) =
     (if p = [] \<or> p = ''.'' then clean_parts rooted acc ps
      else if p = ''..'' then
        (case acc of
           [] \<Rightarrow> clean_parts rooted (if rooted then [] else [p]) ps
         | a # as \<Rightarrow> clean_parts rooted (if a = ''..'' then p # acc else as) ps)
      else clean_parts rooted (p # acc) ps)"

definition filepath_clean :: "string \<Rightarrow> string" where
  "filepath_clean path =
     (if path = [] then ''.''
      else let rooted = (hd path = CHR ''/'');
               s = join_with ''/'' (clean_parts rooted [] (split_on (CHR ''/'') path))
           in if rooted then CHR ''/'' # s else if s = [] then ''.'' else s)"

definition filepath_dir :: "string \<Rightarrow> string" where
  "filepath_dir path = filepath_clean (rev (dropWhile (\<lambda>c. c \<noteq> CHR ''/'') (rev path)))"

definition filepath_join :: "string list \<Rightarrow> string" where
  "filepath_join es =
     (case dropWhile (\<lambda>e. e = []) es of [] \<Rightarrow> [] | es' \<Rightarrow> filepath_clean (join_with ''/'' es'))"

subsection \<open>The search for .env\<close>

record os_view =
  os_exists :: "string \<Rightarrow> bool"
  os_getwd :: "string option"
  os_executable :: "string option"

fun find_override :: "os_view \<Rightarrow> env \<Rightarrow> string list \<Rightarrow> string option" where
  "find_override os ev [] = None"
| "find_override os ev (key # keys) =
     (if ev key \<noteq> [] \<and> os_exists os (ev key) then Some (ev key) else find_override os ev keys)"

fun find_in_parents :: "os_view \<Rightarrow> nat \<Rightarrow> string \<Rightarrow> string option" where
  "find_in_parents os 0 dir0 = None"
| "find_in_parents os (Suc i) dir0 =
     (let dir = filepath_dir dir0
      in if dir = filepath_dir dir then None
         else let p = filepath_join [dir, ''.env'']
              in if os_exists os p then Some p else find_in_parents os i dir)"

definition find_env_path :: "os_view \<Rightarrow> env \<Rightarrow> string" where
  "find_env_path os ev =
     (case find_override os ev [''ENV_FILE'', ''DOTENV_PATH''] of
        Some p \<Rightarrow> p
      | None \<Rightarrow>
          (let in_cwd =
             (case os_getwd os of
                None \<Rightarrow> None
              | Some wd \<Rightarrow>
                  (let p = filepath_join [wd, ''.env'']
                   in if os_exists os p then Some p else find_in_parents os 5 wd))
           in case in_cwd of
                Some p \<Rightarrow> p
              | None \<Rightarrow>
                  (let beside_exe =
                     (case os_executable os of
                        None \<Rightarrow> None
                      | Some exe \<Rightarrow>
                          (let p = filepath_join [filepath_dir exe, ''.env'']
                           in if os_exists os p then Some p else None))
                   in case beside_exe of
                        Some p \<Rightarrow> p
                      | None \<Rightarrow>
                          (case List.find (os_exists os) [''/app/.env'', ''/.env''] of
                             Some p \<Rightarrow> p | None \<Rightarrow> []))))"

subsection \<open>Configuration report\<close>

record config_error =
  ce_field :: string
  ce_message :: string
  ce_level :: string

definition config_issue :: "string \<Rightarrow> string \<Rightarrow> string \<Rightarrow> config_error" where
  "config_issue field message level = \<lparr>ce_field = field, ce_message = message, ce_level = level\<rparr>"

definition rabbitmq_vars :: "string list" where
  "rabbitmq_vars = [''RABBITMQ_HOST'', ''RABBITMQ_PORT'', ''RABBITMQ_VIRTUAL_HOST_AUDITTRAIL'',
     ''RABBITMQ_USERNAME_AUDITTRAIL'', ''RABBITMQ_PASSWORD_AUDITTRAIL'', ''RABBITMQ_QUEUE_AUDITTRAIL'']"

text \<open>The checks of \<open>ValidateConfiguration\<close>, one per block of the function.\<close>

definition app_name_issues :: "env \<Rightarrow> config_error list" where
  "app_name_issues ev =
     (if ev ''APP_NAME'' = [] then
        [config_issue ''APP_NAME'' ''APP_NAME environment variable not set - using empty default'' ''warning'']
      else [])"

definition effective_app_env :: "env \<Rightarrow> globals \<Rightarrow> string" where
  "effective_app_env ev g = (let e = ev ''APP_ENV'' in if e = [] then get_app_env g else e)"

definition app_env_issues :: "string \<Rightarrow> config_error list" where
  "app_env_issues appEnv =
     (if appEnv = [] then
        [config_issue ''APP_ENV'' ''APP_ENV environment variable not set - using empty default'' ''warning'']
      else if appEnv \<notin> {''develop'', ''staging'', ''production''} then
        [config_issue ''APP_ENV'' (''APP_ENV has unexpected value '' @ [CHR 39] @ appEnv @ [CHR 39] @
           '' (expected: develop, staging, production)'') ''warning'']
      else [])"

definition redis_issues :: "env \<Rightarrow> redis_options option \<Rightarrow> config_error list" where
  "redis_issues ev ropts =
     (case ropts of
        None \<Rightarrow> []
      | Some ro \<Rightarrow>
          (if ro_addr ro = [] then [config_issue ''Redis.Addr'' ''Redis address not configured'' ''error''] else []) @
          (if ro_password ro = [] \<and> ev ''REDIS_PASSWORD'' = [] then
             [config_issue ''Redis.Password'' ''Redis password not set - may fail with protected Redis instances''
                ''warning''] else []))"

definition sentry_issues :: "env \<Rightarrow> config_error list" where
  "sentry_issues ev =
     (if ev ''SENTRY_DSN'' = [] then
        [config_issue ''SENTRY_DSN'' ''SENTRY_DSN not set - error tracking disabled'' ''warning''] else [])"

definition rabbitmq_issues :: "env \<Rightarrow> config_error list" where
  "rabbitmq_issues ev =
     (let configuredCount = length (filter (\<lambda>v. ev v \<noteq> []) rabbitmq_vars)
      in if configuredCount > 0 \<and> configuredCount < 6 then
           [config_issue ''RabbitMQ'' ''RabbitMQ audit trail partially configured - audit trail may not work'' ''warning'']
         else if configuredCount = 0 then
           [config_issue ''RabbitMQ'' ''RabbitMQ audit trail not configured - audit trail disabled'' ''warning'']
         else [])"

definition ValidateConfiguration :: "env \<Rightarrow> globals \<Rightarrow> redis_options option \<Rightarrow> config_error list" where
  "ValidateConfiguration ev g ropts =
     app_name_issues ev @ app_env_issues (effective_app_env ev g) @ redis_issues ev ropts @
     sentry_issues ev @ rabbitmq_issues ev"

lemmas issue_defs = app_name_issues_def app_env_issues_def redis_issues_def sentry_issues_def rabbitmq_issues_def

definition log_issue :: "int \<Rightarrow> config_error \<Rightarrow> logger \<Rightarrow> logger" where
  "log_issue now e lg =
     (let prefix = AStr (build_log_prefix ''LogConfigurationWarnings'')
      in if ce_level e = ''error'' then
           LogE ''%s error field=%s message=%s'' [prefix, AStr (ce_field e), AStr (ce_message e)] now lg
         else if ce_level e = ''warning'' then
           LogW ''%s warning field=%s message=%s'' [prefix, AStr (ce_field e), AStr (ce_message e)] now lg
         else lg)"

definition LogConfigurationWarnings ::
  "int \<Rightarrow> env \<Rightarrow> globals \<Rightarrow> redis_options option \<Rightarrow> logger \<Rightarrow> logger" where
  "LogConfigurationWarnings now ev g ropts lg =
     (let errors = ValidateConfiguration ev g ropts;
          prefix = AStr (build_log_prefix ''LogConfigurationWarnings'')
      in if errors = [] then LogI ''%s configuration validation passed'' [prefix] now lg
         else foldl (\<lambda>lg e. log_issue now e lg)
                (LogW ''%s configuration validation found issues count=%d'' [prefix, AInt (int (length errors))] now lg)
                errors)"

record config_status =
  cs_status :: string
  cs_errors :: nat
  cs_warnings :: nat
  cs_issues :: "config_error list"

definition GetConfigurationStatus :: "env \<Rightarrow> globals \<Rightarrow> redis_options option \<Rightarrow> config_status" where
  "GetConfigurationStatus ev g ropts =
     (let errors = ValidateConfiguration ev g ropts;
          errorCount = length (filter (\<lambda>e. ce_level e = ''error'') errors);
          warningCount = length (filter (\<lambda>e. ce_level e = ''warning'') errors)
      in \<lparr>cs_status = (if errorCount > 0 then ''unhealthy'' else if warningCount > 0 then ''degraded'' else ''healthy''),
          cs_errors = errorCount, cs_warnings = warningCount, cs_issues = errors\<rparr>)"

subsection \<open>InitializeApp\<close>

record app_state =
  app_env :: env
  app_globals :: globals
  app_cost :: cost_state
  app_logger :: logger
  app_sampler_once :: sync_once
  app_redis_opts :: "redis_options option"

text \<open>The function given to \<open>ConfigureCostProvider\<close>.\<close>

definition bcrypt_cost_from_env :: "env \<Rightarrow> int" where
  "bcrypt_cost_from_env ev =
     (if ev ''BCRYPT_COST'' \<noteq> []
      then (case atoi (ev ''BCRYPT_COST'') of Some c \<Rightarrow> c | None \<Rightarrow> default_cost)
      else default_cost)"

definition load_dotenv :: "(string \<Rightarrow> env \<Rightarrow> env \<times> err option) \<Rightarrow> os_view \<Rightarrow> int \<Rightarrow> app_state \<Rightarrow> app_state" where
  "load_dotenv load_env os now s =
     (let envPath = find_env_path os (app_env s);
          prefix = AStr (build_log_prefix ''InitializeApp'');
          (ev, e) = load_env (if envPath \<noteq> [] then envPath else ''.env'') (app_env s);
          lg = app_logger s;
          lg' = (case e of
                   None \<Rightarrow> lg
                 | Some m \<Rightarrow>
                     (if envPath \<noteq> [] then
                        LogD ''%s failed to load .env from %s err=%v'' [prefix, AStr envPath, AErr m] now lg
                      else LogD ''%s .env not found (tried CWD and parents) err=%v'' [prefix, AErr m] now lg))
      in s\<lparr>app_env := ev, app_logger := lg'\<rparr>)"

definition set_identity :: "app_state \<Rightarrow> app_state" where
  "set_identity s =
     (let ev = app_env s;
          g1 = (if ev ''APP_NAME'' \<noteq> [] then set_app_name (ev ''APP_NAME'') (app_globals s) else app_globals s);
          g2 = (if ev ''APP_ENV'' \<noteq> [] then set_app_env (ev ''APP_ENV'') g1
                else if ev ''APP_MODE'' \<noteq> [] then set_app_env (ev ''APP_MODE'') g1 else g1)
      in s\<lparr>app_globals := g2\<rparr>)"

definition init_sampler_once :: "app_state \<Rightarrow> app_state" where
  "init_sampler_once s =
     (if app_sampler_once s = OnceNew
      then s\<lparr>app_sampler_once := OnceDone,
             app_logger := InitializeSampler (sampler_config_from_app_env (app_globals s)) (app_logger s)\<rparr>
      else s)"

definition InitializeApp :: "(string \<Rightarrow> env \<Rightarrow> env \<times> err option) \<Rightarrow> os_view \<Rightarrow> int \<Rightarrow> app_state \<Rightarrow> app_state" where
  "InitializeApp load_env os now s =
     (let s1 = load_dotenv load_env os now s;
          s2 = s1\<lparr>app_cost := ConfigureCostProvider (Some bcrypt_cost_from_env) (app_cost s1)\<rparr>;
          s3 = set_identity s2;
          s4 = init_sampler_once s3
      in s4\<lparr>app_logger := LogConfigurationWarnings now (app_env s4) (app_globals s4) (app_redis_opts s4)
              (app_logger s4)\<rparr>)"


text \<open>\<open>init()\<close>; the registration of the rules (\<open>AddValidatorLibs\<close>) changes the table of the validator, not this state.\<close>

definition package_init :: "(string \<Rightarrow> env \<Rightarrow> env \<times> err option) \<Rightarrow> os_view \<Rightarrow> int \<Rightarrow> app_state \<Rightarrow> app_state" where
  "package_init load_env os now s =
     InitializeApp load_env os now (s\<lparr>app_logger := InitializeLogger (app_globals s) (app_logger s)\<rparr>)"

subsection \<open>Lemmas\<close>

fun ancestors :: "nat \<Rightarrow> string \<Rightarrow> string list" where
  "ancestors 0 dir0 = []"
| "ancestors (Suc i) dir0 =
     (let dir = filepath_dir dir0 in if dir = filepath_dir dir then [] else dir # ancestors i dir)"

definition env_file_in :: "string \<Rightarrow> string" where
  "env_file_in dir = filepath_join [dir, ''.env'']"

text \<open>The places \<open>findEnvPath\<close> looks at, in order.\<close>

definition env_candidates :: "os_view \<Rightarrow> env \<Rightarrow> string list" where
  "env_candidates os ev =
     filter (\<lambda>p. p \<noteq> []) (map ev [''ENV_FILE'', ''DOTENV_PATH'']) @
     (case os_getwd os of None \<Rightarrow> [] | Some wd \<Rightarrow> map env_file_in (wd # ancestors 5 wd)) @
     (case os_executable os of None \<Rightarrow> [] | Some exe \<Rightarrow> [env_file_in (filepath_dir exe)]) @
     [''/app/.env'', ''/.env'']"

lemma find_append:
  "List.find P (xs @ ys) = (case List.find P xs of Some x \<Rightarrow> Some x | None \<Rightarrow> List.find P ys)"
  by (induction xs) auto

lemma find_override_candidates:
  "find_override os ev keys = List.find (os_exists os) (filter (\<lambda>p. p \<noteq> []) (map ev keys))"
  by (induction keys) auto

lemma find_in_parents_candidates:
  "find_in_parents os i dir = List.find (os_exists os) (map env_file_in (ancestors i dir))"
  by (induction os i dir rule: find_in_parents.induct) (auto simp: Let_def env_file_in_def)

lemma sampler_check_configD: "sampler_check key now s = (r, s') \<Longrightarrow> s_config s' = s_config s"
  using sampler_check_config [of key now s] by simp

definition same_config :: "(logger \<Rightarrow> logger) \<Rightarrow> bool" where
  "same_config f \<longleftrightarrow> (\<forall>lg. s_config (lg_sampler (f lg)) = s_config (lg_sampler lg))"

lemma same_config_logs [simp]:
  "same_config (LogD f a now)" "same_config (LogI f a now)" "same_config (LogW f a now)" "same_config (LogE f a now)"
  by (auto simp: same_config_def LogD_def LogI_def LogW_def LogE_def log_sampled_def with_suppressed_def Let_def
      split: prod.split dest: sampler_check_configD)

lemma same_config_app: "same_config f \<Longrightarrow> s_config (lg_sampler (f lg)) = s_config (lg_sampler lg)"
  by (simp add: same_config_def)

lemma log_issue_config: "s_config (lg_sampler (log_issue now e lg)) = s_config (lg_sampler lg)"
  by (simp add: log_issue_def Let_def same_config_app)

lemma warnings_config:
  "s_config (lg_sampler (LogConfigurationWarnings now ev g ropts lg)) = s_config (lg_sampler lg)"
proof -
  have "s_config (lg_sampler (foldl (\<lambda>lg e. log_issue now e lg) l0 es)) = s_config (lg_sampler l0)" for l0 es
    by (induction es arbitrary: l0) (simp_all add: log_issue_config)
  then show ?thesis by (simp add: LogConfigurationWarnings_def Let_def same_config_app)
qed

lemma load_dotenv_config:
  "s_config (lg_sampler (app_logger (load_dotenv load_env os now s))) = s_config (lg_sampler (app_logger s)) \<and>
   app_globals (load_dotenv load_env os now s) = app_globals s \<and>
   app_sampler_once (load_dotenv load_env os now s) = app_sampler_once s \<and>
   app_cost (load_dotenv load_env os now s) = app_cost s \<and>
   app_redis_opts (load_dotenv load_env os now s) = app_redis_opts s"
  by (simp add: load_dotenv_def Let_def same_config_app split: prod.split option.split)

lemma set_identity_fields [simp]:
  "app_logger (set_identity s) = app_logger s" "app_env (set_identity s) = app_env s"
  "app_sampler_once (set_identity s) = app_sampler_once s" "app_cost (set_identity s) = app_cost s"
  by (simp_all add: set_identity_def Let_def)

lemma init_sampler_once_fields [simp]:
  "app_globals (init_sampler_once s) = app_globals s" "app_env (init_sampler_once s) = app_env s"
  "app_cost (init_sampler_once s) = app_cost s"
  by (simp_all add: init_sampler_once_def)

lemma config_issue_level [simp]: "ce_level (config_issue f m l) = l"
  by (simp add: config_issue_def)

lemma all_configured:
  "\<not> (0 < length (filter P xs) \<and> length (filter P xs) < length xs) \<and> length (filter P xs) \<noteq> 0 \<longleftrightarrow>
   xs \<noteq> [] \<and> list_all P xs"
  by (induction xs) (auto simp: list_all_iff dest: filter_False)

lemma rabbitmq_var_count: "length rabbitmq_vars = 6"
  by (simp add: rabbitmq_vars_def)

lemma issue_levels:
  "e \<in> set (ValidateConfiguration ev g ropts) \<Longrightarrow> ce_level e = ''error'' \<or> ce_level e = ''warning''"
  unfolding ValidateConfiguration_def
  by (auto simp: issue_defs Let_def split: if_splits option.splits)

lemma only_redis_errors:
  "e \<in> set (app_name_issues ev @ app_env_issues ae @ sentry_issues ev @ rabbitmq_issues ev) \<Longrightarrow>
   ce_level e \<noteq> ''error''"
  by (auto simp: issue_defs Let_def split: if_splits)

lemma has_error_issue:
  "(\<exists>e \<in> set (ValidateConfiguration ev g ropts). ce_level e = ''error'') \<longleftrightarrow>
   (\<exists>ro. ropts = Some ro \<and> ro_addr ro = [])"
proof -
  have "(\<exists>e \<in> set (ValidateConfiguration ev g ropts). ce_level e = ''error'') \<longleftrightarrow>
      (\<exists>e \<in> set (redis_issues ev ropts). ce_level e = ''error'')"
    using only_redis_errors [of _ ev "effective_app_env ev g"] by (auto simp: ValidateConfiguration_def)
  also have "\<dots> \<longleftrightarrow> (\<exists>ro. ropts = Some ro \<and> ro_addr ro = [])"
    by (auto simp: redis_issues_def split: option.split)
  finally show ?thesis .
qed

lemma issues_Nil:
  "app_name_issues ev = [] \<longleftrightarrow> ev ''APP_NAME'' \<noteq> []"
  "app_env_issues ae = [] \<longleftrightarrow> ae \<in> {''develop'', ''staging'', ''production''}"
  "redis_issues ev ropts = [] \<longleftrightarrow>
     (ropts = None \<or> (\<exists>ro. ropts = Some ro \<and> ro_addr ro \<noteq> [] \<and> (ro_password ro \<noteq> [] \<or> ev ''REDIS_PASSWORD'' \<noteq> [])))"
  "sentry_issues ev = [] \<longleftrightarrow> ev ''SENTRY_DSN'' \<noteq> []"
  "rabbitmq_issues ev = [] \<longleftrightarrow> list_all (\<lambda>v. ev v \<noteq> []) rabbitmq_vars"
proof -
  show "rabbitmq_issues ev = [] \<longleftrightarrow> list_all (\<lambda>v. ev v \<noteq> []) rabbitmq_vars"
    using all_configured [of "\<lambda>v. ev v \<noteq> []" rabbitmq_vars] rabbitmq_var_count
    by (auto simp: rabbitmq_issues_def Let_def)
qed (auto simp: app_name_issues_def app_env_issues_def redis_issues_def sentry_issues_def split: option.split)

lemma no_issue:
  "ValidateConfiguration ev g ropts = [] \<longleftrightarrow>
     ev ''APP_NAME'' \<noteq> [] \<and> effective_app_env ev g \<in> {''develop'', ''staging'', ''production''} \<and>
     (ropts = None \<or> (\<exists>ro. ropts = Some ro \<and> ro_addr ro \<noteq> [] \<and> (ro_password ro \<noteq> [] \<or> ev ''REDIS_PASSWORD'' \<noteq> []))) \<and>
     ev ''SENTRY_DSN'' \<noteq> [] \<and> list_all (\<lambda>v. ev v \<noteq> []) rabbitmq_vars"
  by (simp only: ValidateConfiguration_def append_is_Nil_conv issues_Nil)

lemma two_level_counts:
  "(\<And>e. e \<in> set es \<Longrightarrow> ce_level e = ''error'' \<or> ce_level e = ''warning'') \<Longrightarrow>
   length (filter (\<lambda>e. ce_level e = ''error'') es) + length (filter (\<lambda>e. ce_level e = ''warning'') es) = length es"
  by (induction es) auto

lemma emit_keeps_sampler [simp]:
  "lg_sampler (emit_i g as st) = lg_sampler st" "lg_sampler (emit_w g as st) = lg_sampler st"
  by simp_all

text \<open>The formats of the configuration report, which are the only keys a start leaves in the sampler.\<close>

definition report_formats :: "string set" where
  "report_formats = {''%s configuration validation passed'', ''%s configuration validation found issues count=%d'',
     ''%s warning field=%s message=%s''}"

lemma log_issue_other_key:
  "f \<notin> report_formats \<Longrightarrow> s_entries (lg_sampler (log_issue now e lg)) f = s_entries (lg_sampler lg) f"
  by (auto simp: log_issue_def Let_def LogE_def LogW_def report_formats_def log_sampled_other_key)

lemma log_issues_other_key:
  "f \<notin> report_formats \<Longrightarrow>
   s_entries (lg_sampler (foldl (\<lambda>lg e. log_issue now e lg) lg es)) f = s_entries (lg_sampler lg) f"
  by (induction es arbitrary: lg) (simp_all add: log_issue_other_key)

lemma warnings_other_key:
  "f \<notin> report_formats \<Longrightarrow>
   s_entries (lg_sampler (LogConfigurationWarnings now ev g ropts lg)) f = s_entries (lg_sampler lg) f"
  by (auto simp: LogConfigurationWarnings_def Let_def log_issues_other_key)
    (simp_all add: LogI_def LogW_def report_formats_def log_sampled_other_key)

lemma first_start_sampler:
  assumes "app_sampler_once s = OnceNew" and "f \<notin> report_formats"
  shows "s_entries (lg_sampler (app_logger (InitializeApp load_env os now s))) f = None"
  using assms load_dotenv_config [of load_env os now s]
  by (simp add: InitializeApp_def Let_def warnings_other_key init_sampler_once_def InitializeSampler_def
      initialize_sampler_def)

subsection \<open>Properties\<close>

text \<open>
  The search for the \<open>.env\<close> file returns the first existing file of one fixed list, or nothing when
  none of them exists: the two override variables, the working directory and at most five directories
  above it (the root is not searched this way), the directory of the executable, the container mounts.
\<close>

theorem env_path_is_first_candidate:
  "find_env_path os ev =
     (case List.find (os_exists os) (env_candidates os ev) of Some p \<Rightarrow> p | None \<Rightarrow> [])"
  by (simp add: find_env_path_def env_candidates_def find_append find_override_candidates
      find_in_parents_candidates Let_def env_file_in_def [symmetric] split: option.split)

text \<open>
  Starting the application takes its environment name from \<^verbatim>\<open>APP_ENV\<close>, else from \<^verbatim>\<open>APP_MODE\<close>, else
  leaves it; the sampler gets the configuration of that environment on the first start only, so that a
  service's own sampler survives every later start; and from then on the bcrypt cost is between 4 and 14
  whatever \<^verbatim>\<open>BCRYPT_COST\<close> says, 10 when it says nothing readable.
\<close>

theorem startup_effects:
  "\<exists>s'. InitializeApp load_env os now s = s' \<and>
     get_app_env (app_globals s') =
       (if app_env s' ''APP_ENV'' \<noteq> [] then app_env s' ''APP_ENV''
        else if app_env s' ''APP_MODE'' \<noteq> [] then app_env s' ''APP_MODE'' else get_app_env (app_globals s)) \<and>
     s_config (lg_sampler (app_logger s')) =
       (if app_sampler_once s = OnceNew
        then s_config (initialize_sampler (sampler_config_for_env (get_app_env (app_globals s'))))
        else s_config (lg_sampler (app_logger s))) \<and>
     app_sampler_once s' \<noteq> OnceNew \<and>
     bcrypt_cost ev (app_cost s') =
       clamp_cost (case atoi (ev ''BCRYPT_COST'') of Some c \<Rightarrow> c | None \<Rightarrow> 10)"
proof -
  let ?s1 = "load_dotenv load_env os now s"
  let ?s2 = "?s1\<lparr>app_cost := ConfigureCostProvider (Some bcrypt_cost_from_env) (app_cost ?s1)\<rparr>"
  let ?s3 = "set_identity ?s2"
  let ?s4 = "init_sampler_once ?s3"
  let ?s' = "InitializeApp load_env os now s"
  have s': "app_env ?s' = app_env ?s1" "app_globals ?s' = app_globals ?s3"
      "app_sampler_once ?s' = app_sampler_once ?s4" "app_cost ?s' = app_cost ?s2"
      "s_config (lg_sampler (app_logger ?s')) = s_config (lg_sampler (app_logger ?s4))"
    by (simp_all add: InitializeApp_def Let_def warnings_config)
  note l = load_dotenv_config [of load_env os now s]
  have env: "get_app_env (app_globals ?s3) =
       (if app_env ?s1 ''APP_ENV'' \<noteq> [] then app_env ?s1 ''APP_ENV''
        else if app_env ?s1 ''APP_MODE'' \<noteq> [] then app_env ?s1 ''APP_MODE'' else get_app_env (app_globals s))"
    using l by (simp add: set_identity_def Let_def)
  have sampler: "s_config (lg_sampler (app_logger ?s4)) =
       (if app_sampler_once s = OnceNew
        then s_config (initialize_sampler (sampler_config_for_env (get_app_env (app_globals ?s3))))
        else s_config (lg_sampler (app_logger s)))" "app_sampler_once ?s4 \<noteq> OnceNew"
    using l by (simp_all add: init_sampler_once_def InitializeSampler_def sampler_config_from_app_env_def)
  have "bcrypt_cost ev (app_cost ?s2) = clamp_cost (case atoi (ev ''BCRYPT_COST'') of Some c \<Rightarrow> c | None \<Rightarrow> 10)"
    by (simp add: bcrypt_cost_def ConfigureCostProvider_def bcrypt_cost_from_env_def default_cost_def atoi_def
        unsigned_digits_def Let_def split: option.split)
  with env sampler s' show ?thesis by auto
qed

text \<open>
  The configuration status says exactly what is wrong: it is unhealthy if and only if Redis options
  exist without an address, healthy if and only if the application is named, its environment is one of
  the three known ones, Redis (if configured) has an address and a password, Sentry has a DSN and all
  six RabbitMQ variables are set; every issue is counted once, as an error or as a warning.
\<close>

theorem configuration_status_exact:
  "\<exists>c. GetConfigurationStatus ev g ropts = c \<and>
     (cs_status c = ''unhealthy'' \<longleftrightarrow> (\<exists>ro. ropts = Some ro \<and> ro_addr ro = [])) \<and>
     (cs_status c = ''healthy'' \<longleftrightarrow>
        ev ''APP_NAME'' \<noteq> [] \<and>
        effective_app_env ev g \<in> {''develop'', ''staging'', ''production''} \<and>
        (ropts = None \<or> (\<exists>ro. ropts = Some ro \<and> ro_addr ro \<noteq> [] \<and> (ro_password ro \<noteq> [] \<or> ev ''REDIS_PASSWORD'' \<noteq> []))) \<and>
        ev ''SENTRY_DSN'' \<noteq> [] \<and> list_all (\<lambda>v. ev v \<noteq> []) rabbitmq_vars) \<and>
     cs_errors c + cs_warnings c = length (cs_issues c)"
proof -
  let ?es = "ValidateConfiguration ev g ropts"
  let ?n = "length (filter (\<lambda>e. ce_level e = ''error'') ?es)"
  let ?w = "length (filter (\<lambda>e. ce_level e = ''warning'') ?es)"
  have sum: "?n + ?w = length ?es" by (rule two_level_counts) (rule issue_levels)
  have "?n > 0 \<longleftrightarrow> (\<exists>ro. ropts = Some ro \<and> ro_addr ro = [])"
    using has_error_issue [of ev g ropts] by (auto simp: filter_empty_conv)
  moreover have "\<not> ?n > 0 \<and> \<not> ?w > 0 \<longleftrightarrow> ?es = []" using sum by auto
  moreover obtain c where c: "GetConfigurationStatus ev g ropts = c" by simp
  moreover have "cs_status c = ''unhealthy'' \<longleftrightarrow> ?n > 0" "cs_status c = ''healthy'' \<longleftrightarrow> \<not> ?n > 0 \<and> \<not> ?w > 0"
      "cs_errors c = ?n" "cs_warnings c = ?w" "cs_issues c = ?es"
    by (simp_all add: GetConfigurationStatus_def Let_def flip: c)
  ultimately show ?thesis using sum no_issue [of ev g ropts] by (intro exI [of _ c]) metis
qed

theorem configuration_status_exact_witness:
  "cs_status (GetConfigurationStatus (\<lambda>v. if v = ''APP_ENV'' then ''production'' else ''x'')
      \<lparr>glob_app_name = [], glob_app_env = []\<rparr> None) = ''healthy'' \<and>
   cs_status (GetConfigurationStatus (\<lambda>_. []) \<lparr>glob_app_name = [], glob_app_env = []\<rparr> (Some blank_redis_options)) =
     ''unhealthy''"
  using configuration_status_exact [of "\<lambda>v. if v = ''APP_ENV'' then ''production'' else ''x''"
      "\<lparr>glob_app_name = [], glob_app_env = []\<rparr>" None]
    configuration_status_exact [of "\<lambda>_. []" "\<lparr>glob_app_name = [], glob_app_env = []\<rparr>" "Some blank_redis_options"]
  by (simp add: effective_app_env_def rabbitmq_vars_def blank_redis_options_def)

end
