(* ===== verification/Storage.thy ===== *)
theory Storage
  imports GoText Interfaces
begin

section \<open>sdk/services/s3minio/helper: requests of the object store\<close>

text \<open>
  The transport-neutral types of \<^verbatim>\<open>helper/types.go\<close>, the request builders of \<^verbatim>\<open>helper/build.go\<close> and the
  operations of \<^verbatim>\<open>helper/operations.go\<close> over any provider. A variadic argument is a string, an \<open>int\<close> or
  something else; a provider's answer is an error or a pointer to a response (\<open>None\<close> is nil). Byte
  slices are strings.
\<close>

datatype dyn_arg = DStr string | DInt int | DOther

definition code_ok :: int where "code_ok = 0"

record download_request =
  dr_object :: string
  dr_path :: string
  dr_bucket :: string
  dr_expires :: int
  dr_user_id :: int
  dr_merchant_id :: int

record download_response =
  drs_code :: int
  drs_status :: string
  drs_message :: string
  drs_data :: string

record upload_request =
  ur_filename :: string
  ur_size :: int
  ur_content_type :: string
  ur_content :: string
  ur_bucket :: string
  ur_path :: string
  ur_expires :: int
  ur_user_id :: int
  ur_merchant_id :: int

record upload_result =
  ures_filename :: string
  ures_url :: string
  ures_presigned_url :: string

record upload_response =
  urs_code :: int
  urs_status :: string
  urs_message :: string
  urs_data :: "upload_result option"

record health_response =
  hr_code :: int
  hr_message :: string
  hr_status :: string

record ready_response =
  rr_code :: int
  rr_message :: string
  rr_status :: string
  rr_dependencies :: "(string \<times> string) list"

record file_response =
  fr_code :: int
  fr_message :: string
  fr_status :: string
  fr_data :: string
  fr_content_type :: string
  fr_filename :: string

record view_response =
  vw_code :: int
  vw_message :: string
  vw_status :: string
  vw_data :: string
  vw_content_type :: string

subsection \<open>Builders\<close>

text \<open>The probe requests have no field; a view request is its path.\<close>

definition BuildHealthRequest :: unit where "BuildHealthRequest = ()"

definition BuildReadyRequest :: unit where "BuildReadyRequest = ()"

definition BuildViewRequest :: "string \<Rightarrow> string" where "BuildViewRequest path = path"

definition BuildDownloadRequest :: "string \<Rightarrow> int \<Rightarrow> int \<Rightarrow> dyn_arg list \<Rightarrow> download_request" where
  "BuildDownloadRequest object userID merchantID args =
     (let req = \<lparr>dr_object = object, dr_path = [], dr_bucket = [], dr_expires = 0, dr_user_id = userID,
                 dr_merchant_id = merchantID\<rparr>;
          req1 = (case args of DStr v # _ \<Rightarrow> if v \<noteq> [] then req\<lparr>dr_path := v\<rparr> else req | _ \<Rightarrow> req);
          req2 = (case args of _ # DStr v # _ \<Rightarrow> if v \<noteq> [] then req1\<lparr>dr_bucket := v\<rparr> else req1 | _ \<Rightarrow> req1)
      in case args of
           _ # _ # DInt v # _ \<Rightarrow> if v > 0 then req2\<lparr>dr_expires := wrap32 v\<rparr> else req2
         | _ \<Rightarrow> req2)"

text \<open>
  A stream gives its bytes and then ends with \<open>EOF\<close> (\<open>None\<close>) or another error. \<open>io.ReadFull\<close> into a buffer
  of \<open>n\<close> bytes returns what was read, the error and the rest of the stream.
\<close>

datatype read_error = EOF | UnexpectedEOF | ReadFailed err

record file_stream =
  fs_bytes :: string
  fs_end :: "err option"

definition end_error :: "file_stream \<Rightarrow> read_error" where
  "end_error f = (case fs_end f of None \<Rightarrow> EOF | Some e \<Rightarrow> ReadFailed e)"

definition read_full :: "nat \<Rightarrow> file_stream \<Rightarrow> string \<times> read_error option \<times> file_stream" where
  "read_full n f =
     (let got = take n (fs_bytes f); rest = f\<lparr>fs_bytes := drop n (fs_bytes f)\<rparr>
      in if n \<le> length (fs_bytes f) then (got, None, rest)
         else if got \<noteq> [] \<and> end_error f = EOF then (got, Some UnexpectedEOF, rest)
         else (got, Some (end_error f), rest))"

definition read_all :: "file_stream \<Rightarrow> read_error option \<times> string" where
  "read_all f = ((case fs_end f of None \<Rightarrow> None | Some e \<Rightarrow> Some (ReadFailed e)), fs_bytes f)"

record file_header =
  fh_filename :: string
  fh_size :: int
  fh_content_type :: string

text \<open>
  The result is the request beside the error, or the panic of \<open>make\<close> for a negative size. \<open>mime_type\<close>
  is the table of \<^verbatim>\<open>mime.TypeByExtension\<close>, which the system configures.
\<close>

definition BuildUploadRequestForMultipart ::
  "(string \<Rightarrow> string) \<Rightarrow> int \<Rightarrow> int \<Rightarrow> string \<Rightarrow> file_stream \<Rightarrow> file_header \<Rightarrow> dyn_arg list \<Rightarrow>
     (upload_request \<times> read_error option) outcome" where
  "BuildUploadRequestForMultipart mime_type userID merchantID path file fileHeader args =
     (let req = \<lparr>ur_filename = fh_filename fileHeader, ur_size = uwrap64 (fh_size fileHeader),
                 ur_content_type = fh_content_type fileHeader, ur_content = [], ur_bucket = [],
                 ur_path = path, ur_expires = 0, ur_user_id = userID, ur_merchant_id = merchantID\<rparr>;
          req1 = (case args of DStr v # _ \<Rightarrow> if v \<noteq> [] then req\<lparr>ur_bucket := v\<rparr> else req | _ \<Rightarrow> req);
          req2 = (case args of _ # DInt v # _ \<Rightarrow> if v > 0 then req1\<lparr>ur_expires := uwrap32 v\<rparr> else req1 | _ \<Rightarrow> req1)
      in if fh_size fileHeader < 0 then Panicked SliceLenOutOfRange
         else (let (got, e, rest) = read_full (nat (fh_size fileHeader)) file
               in if e \<noteq> None \<and> e \<noteq> Some UnexpectedEOF then
                    (if e = Some EOF \<and> fh_size fileHeader = 0 then Returned (req2\<lparr>ur_content := got\<rparr>, None)
                     else Returned (req2, e))
                  else
                    (let req3 = req2\<lparr>ur_content := got\<rparr>;
                         (e2, tail) = (if int (length got) < fh_size fileHeader then read_all rest else (None, []))
                     in if e2 \<noteq> None then Returned (req3, e2)
                        else
                          (let req4 = req3\<lparr>ur_content := ur_content req3 @ tail\<rparr>;
                               req5 = (if ur_content_type req4 = []
                                       then req4\<lparr>ur_content_type := mime_type (filepath_ext (ur_filename req4))\<rparr>
                                       else req4);
                               req6 = (if ur_size req5 = 0 \<and> ur_content req5 \<noteq> []
                                       then req5\<lparr>ur_size := int (length (ur_content req5))\<rparr> else req5)
                           in Returned (req6, None)))))"

text \<open>The loop over the arguments of \<open>BuildUploadRequestForFile\<close>.\<close>

fun file_args :: "nat \<Rightarrow> dyn_arg list \<Rightarrow> upload_request \<Rightarrow> upload_request" where
  "file_args i [] req = req"
| "file_args i (arg # args) req =
     file_args (Suc i) args
       (case arg of
          DStr v \<Rightarrow> if i = 0 \<and> v \<noteq> [] then req\<lparr>ur_bucket := v\<rparr> else req
        | DInt v \<Rightarrow> if i = 1 \<and> v > 0 then req\<lparr>ur_expires := uwrap32 v\<rparr> else req
        | DOther \<Rightarrow> req)"

text \<open>A file on disk: opening or inspecting it may fail; its size is what \<open>Stat\<close> says.\<close>

datatype file_error = OpenFailed err | StatFailed err | FileRead read_error

definition BuildUploadRequestForFile ::
  "(string \<Rightarrow> string) \<Rightarrow> (string \<Rightarrow> err + (err + nat) \<times> file_stream) \<Rightarrow> int \<Rightarrow> int \<Rightarrow> string \<Rightarrow> string \<Rightarrow>
     dyn_arg list \<Rightarrow> upload_request \<times> file_error option" where
  "BuildUploadRequestForFile mime_type open_file userID merchantID path fileLocation args =
     (let req = file_args 0 args
           \<lparr>ur_filename = [], ur_size = 0, ur_content_type = [], ur_content = [], ur_bucket = [],
            ur_path = path, ur_expires = 0, ur_user_id = userID, ur_merchant_id = merchantID\<rparr>
      in case open_file fileLocation of
           Inl e \<Rightarrow> (req, Some (OpenFailed e))
         | Inr (Inl e, f) \<Rightarrow> (req, Some (StatFailed e))
         | Inr (Inr sz, f) \<Rightarrow>
             (case read_full sz f of
                (got, Some e, rest) \<Rightarrow> (req, Some (FileRead e))
              | (got, None, rest) \<Rightarrow>
                  (req\<lparr>ur_content := got, ur_filename := filepath_base fileLocation, ur_size := int sz,
                       ur_content_type := mime_type (filepath_ext fileLocation)\<rparr>, None)))"


subsection \<open>What a multipart upload contains\<close>

lemma read_full_cases:
  "read_full n f = (got, e, rest) \<Longrightarrow> fs_end f = None \<Longrightarrow>
     got = take n (fs_bytes f) \<and> fs_bytes rest = drop n (fs_bytes f) \<and> fs_end rest = None \<and>
     e = (if n \<le> length (fs_bytes f) then None else if fs_bytes f = [] then Some EOF else Some UnexpectedEOF)"
  by (auto simp: read_full_def Let_def end_error_def split: if_splits)

text \<open>
  What a multipart upload carries. For a file that ends normally, a non-negative declared size and no
  panic, the builder fails exactly when bytes were announced and none arrive; otherwise the content is
  the file cut at the declared size, so that trailing bytes are lost when the size is too small, and
  the size of the request stays the declared one even when the file is shorter. A negative size panics.
\<close>

theorem multipart_content:
  assumes "fs_end file = None" and "fh_size h < 2 ^ 64"
  shows "if fh_size h < 0
    then BuildUploadRequestForMultipart mime uid mid path file h args = Panicked SliceLenOutOfRange
    else \<exists>req e. BuildUploadRequestForMultipart mime uid mid path file h args = Returned (req, e) \<and>
      (e \<noteq> None \<longleftrightarrow> 0 < fh_size h \<and> fs_bytes file = []) \<and>
      (e = None \<longrightarrow> ur_content req = take (nat (fh_size h)) (fs_bytes file) \<and> ur_size req = fh_size h \<and>
         (ur_content_type req = fh_content_type h \<or>
          fh_content_type h = [] \<and> ur_content_type req = mime (filepath_ext (fh_filename h))))"
proof (cases "fh_size h < 0")
  case True
  then show ?thesis by (simp add: BuildUploadRequestForMultipart_def Let_def)
next
  case False
  obtain got e rest where r: "read_full (nat (fh_size h)) file = (got, e, rest)"
    by (metis surj_pair)
  note c = read_full_cases [OF r assms(1)]
  have sz: "uwrap64 (fh_size h) = fh_size h"
    using False assms(2) by (simp add: uwrap64_def)
  define req0 where "req0 = \<lparr>ur_filename = fh_filename h, ur_size = fh_size h,
      ur_content_type = fh_content_type h, ur_content = [], ur_bucket = [], ur_path = path, ur_expires = 0,
      ur_user_id = uid, ur_merchant_id = mid\<rparr>"
  define req2 where "req2 =
    (let req1 = (case args of DStr v # _ \<Rightarrow> if v \<noteq> [] then req0\<lparr>ur_bucket := v\<rparr> else req0 | _ \<Rightarrow> req0)
     in case args of _ # DInt v # _ \<Rightarrow> if v > 0 then req1\<lparr>ur_expires := uwrap32 v\<rparr> else req1 | _ \<Rightarrow> req1)"
  have f: "ur_size req2 = fh_size h" "ur_content_type req2 = fh_content_type h" "ur_filename req2 = fh_filename h"
    by (auto simp: req2_def req0_def Let_def split: list.split dyn_arg.split)
  show ?thesis
    using False c r f
    unfolding BuildUploadRequestForMultipart_def sz req0_def [symmetric] Let_def req2_def [unfolded Let_def, symmetric]
    by (auto simp: read_all_def)
qed

theorem multipart_content_witness:
  "\<exists>req. BuildUploadRequestForMultipart (\<lambda>_. ''text/plain'') 1 2 ''p'' \<lparr>fs_bytes = ''hello'', fs_end = None\<rparr>
      \<lparr>fh_filename = ''a.txt'', fh_size = 3, fh_content_type = []\<rparr> [] = Returned (req, None) \<and>
     ur_content req = ''hel''"
  using multipart_content [of "\<lparr>fs_bytes = ''hello'', fs_end = None\<rparr>"
      "\<lparr>fh_filename = ''a.txt'', fh_size = 3, fh_content_type = []\<rparr>" "\<lambda>_. ''text/plain''" 1 2 "''p''" "[]"]
  by (auto simp: eval_nat_numeral)

end
