(* ===== verification/StorageOps.thy ===== *)
theory StorageOps
  imports Storage
begin

section \<open>sdk/services/s3minio/helper: operations over a provider\<close>

text \<open>
  \<^verbatim>\<open>helper/operations.go\<close> and \<^verbatim>\<open>helper/observe.go\<close>. A provider is the function that answers a request.
  Each operation calls it once and then checks the response; the checks satisfy \<open>response_check\<close>.
\<close>

definition failure :: "string \<Rightarrow> string \<Rightarrow> string \<Rightarrow> err" where
  "failure what fallback msg = what @ '': '' @ (if msg = [] then fallback else msg)"

definition presigned_of :: "string \<Rightarrow> (err + download_response option) \<Rightarrow> err + string" where
  "presigned_of object answer =
     (case answer of
        Inl e \<Rightarrow> Inl e
      | Inr None \<Rightarrow> Inl ''s3minio download response is nil''
      | Inr (Some res) \<Rightarrow>
          (if drs_code res \<noteq> code_ok then Inl (failure ''s3minio download'' ''download failed'' (drs_message res))
           else if drs_data res = [] then Inr object else Inr (drs_data res)))"

definition GetPresignedURL ::
  "(download_request \<Rightarrow> err + download_response option) \<Rightarrow> string \<Rightarrow> int \<Rightarrow> int \<Rightarrow> dyn_arg list \<Rightarrow> err + string" where
  "GetPresignedURL download object userID merchantID args =
     presigned_of object (download (BuildDownloadRequest object userID merchantID args))"

definition view_url_of :: "string \<Rightarrow> (err + download_response option) \<Rightarrow> err + string" where
  "view_url_of object answer =
     (case answer of
        Inl e \<Rightarrow> Inl e
      | Inr None \<Rightarrow> Inl ''s3minio download response is nil''
      | Inr (Some res) \<Rightarrow>
          (if drs_code res \<noteq> code_ok then Inl (failure ''s3minio view'' ''generate view url failed'' (drs_message res))
           else if drs_data res = [] then Inr object else Inr (drs_data res)))"

definition GetViewURL ::
  "(download_request \<Rightarrow> err + download_response option) \<Rightarrow> string \<Rightarrow> int \<Rightarrow> int \<Rightarrow> dyn_arg list \<Rightarrow> err + string" where
  "GetViewURL generate_view_url object userID merchantID args =
     view_url_of object (generate_view_url (BuildDownloadRequest object userID merchantID args))"

definition upload_result_of :: "(err + upload_response option) \<Rightarrow> err + upload_result" where
  "upload_result_of answer =
     (case answer of
        Inl e \<Rightarrow> Inl e
      | Inr None \<Rightarrow> Inl ''s3minio upload response is nil''
      | Inr (Some res) \<Rightarrow>
          (if urs_code res \<noteq> code_ok then Inl (failure ''s3minio upload'' ''upload failed'' (urs_message res))
           else case urs_data res of
                  None \<Rightarrow> Inl ''s3minio upload response data is nil''
                | Some d \<Rightarrow> Inr d))"

definition UploadByRequest ::
  "(upload_request \<Rightarrow> err + upload_response option) \<Rightarrow> upload_request \<Rightarrow> err + upload_result" where
  "UploadByRequest upload req = upload_result_of (upload req)"

definition read_error_text :: "read_error \<Rightarrow> err" where
  "read_error_text e = (case e of EOF \<Rightarrow> ''EOF'' | UnexpectedEOF \<Rightarrow> ''unexpected EOF'' | ReadFailed m \<Rightarrow> m)"

definition UploadByMultipart ::
  "(string \<Rightarrow> string) \<Rightarrow> (upload_request \<Rightarrow> err + upload_response option) \<Rightarrow> int \<Rightarrow> int \<Rightarrow> string \<Rightarrow>
     file_stream \<Rightarrow> file_header \<Rightarrow> dyn_arg list \<Rightarrow> (err + upload_result) outcome" where
  "UploadByMultipart mime_type upload userID merchantID path file fileHeader args =
     (case BuildUploadRequestForMultipart mime_type userID merchantID path file fileHeader args of
        Returned (req, Some e) \<Rightarrow> Returned (Inl (read_error_text e))
      | Returned (req, None) \<Rightarrow> Returned (UploadByRequest upload req)
      | Panicked p \<Rightarrow> Panicked p
      | Hangs \<Rightarrow> Hangs)"

definition file_error_text :: "file_error \<Rightarrow> err" where
  "file_error_text e = (case e of OpenFailed m \<Rightarrow> m | StatFailed m \<Rightarrow> m | FileRead r \<Rightarrow> read_error_text r)"

definition UploadByFile ::
  "(string \<Rightarrow> string) \<Rightarrow> (string \<Rightarrow> err + (err + nat) \<times> file_stream) \<Rightarrow>
     (upload_request \<Rightarrow> err + upload_response option) \<Rightarrow> int \<Rightarrow> int \<Rightarrow> string \<Rightarrow> string \<Rightarrow> dyn_arg list \<Rightarrow>
     err + upload_result" where
  "UploadByFile mime_type open_file upload userID merchantID path fileLocation args =
     (case BuildUploadRequestForFile mime_type open_file userID merchantID path fileLocation args of
        (req, Some e) \<Rightarrow> Inl (file_error_text e)
      | (req, None) \<Rightarrow> UploadByRequest upload req)"

definition CheckServiceHealth :: "(err + health_response option) \<Rightarrow> err + health_response" where
  "CheckServiceHealth answer =
     (case answer of
        Inl e \<Rightarrow> Inl e
      | Inr None \<Rightarrow> Inl ''s3minio health response is nil''
      | Inr (Some res) \<Rightarrow>
          (if hr_code res \<noteq> 0 \<and> hr_code res \<noteq> code_ok
           then Inl (failure ''s3minio health'' ''health check failed'' (hr_message res)) else Inr res))"

definition CheckReady :: "(err + ready_response option) \<Rightarrow> err + ready_response" where
  "CheckReady answer =
     (case answer of
        Inl e \<Rightarrow> Inl e
      | Inr None \<Rightarrow> Inl ''s3minio ready response is nil''
      | Inr (Some res) \<Rightarrow>
          (if rr_code res \<noteq> 0 \<and> rr_code res \<noteq> code_ok
           then Inl (failure ''s3minio ready'' ''readiness check failed'' (rr_message res)) else Inr res))"

definition file_of :: "(err + file_response option) \<Rightarrow> err + file_response" where
  "file_of answer =
     (case answer of
        Inl e \<Rightarrow> Inl e
      | Inr None \<Rightarrow> Inl ''s3minio download file response is nil''
      | Inr (Some res) \<Rightarrow>
          (if fr_code res \<noteq> 0 \<and> fr_code res \<noteq> code_ok
           then Inl (failure ''s3minio download file'' ''download file failed'' (fr_message res)) else Inr res))"

definition DownloadFileByRequest ::
  "(download_request \<Rightarrow> err + file_response option) \<Rightarrow> download_request \<Rightarrow> err + file_response" where
  "DownloadFileByRequest download_file req = file_of (download_file req)"

text \<open>
  \<open>ObserveProbe\<close> calls the hook when it is set; the observations are a trace. It returns no error.
\<close>

record probe_observation =
  po_name :: string
  po_transport :: string
  po_code :: int

definition ObserveProbe ::
  "bool \<Rightarrow> string \<Rightarrow> string \<Rightarrow> int \<Rightarrow> probe_observation list \<Rightarrow> err option \<times> probe_observation list" where
  "ObserveProbe hook_set probeName transport c seen =
     (None, if hook_set then seen @ [\<lparr>po_name = probeName, po_transport = transport, po_code = c\<rparr>] else seen)"

subsection \<open>The checks as instances of the contract\<close>

interpretation presigned: response_check "presigned_of object" "\<lambda>r. drs_code r = code_ok"
  "\<lambda>r. if drs_data r = [] then object else drs_data r"
  by unfold_locales (auto simp: presigned_of_def split: sum.splits option.splits if_splits)

interpretation view_url: response_check "view_url_of object" "\<lambda>r. drs_code r = code_ok"
  "\<lambda>r. if drs_data r = [] then object else drs_data r"
  by unfold_locales (auto simp: view_url_of_def split: sum.splits option.splits if_splits)

interpretation upload: response_check upload_result_of "\<lambda>r. urs_code r = code_ok \<and> urs_data r \<noteq> None"
  "\<lambda>r. the (urs_data r)"
  by unfold_locales (auto simp: upload_result_of_def split: sum.splits option.splits if_splits)

interpretation liveness: response_check CheckServiceHealth "\<lambda>r. hr_code r = code_ok" "\<lambda>r. r"
  by unfold_locales (auto simp: CheckServiceHealth_def code_ok_def split: sum.splits option.splits if_splits)

interpretation readiness: response_check CheckReady "\<lambda>r. rr_code r = code_ok" "\<lambda>r. r"
  by unfold_locales (auto simp: CheckReady_def code_ok_def split: sum.splits option.splits if_splits)

interpretation file_download: response_check file_of "\<lambda>r. fr_code r = code_ok" "\<lambda>r. r"
  by unfold_locales (auto simp: file_of_def code_ok_def split: sum.splits option.splits if_splits)

end
