(* ===== verification/StorageClients.thy ===== *)
theory StorageClients
  imports StorageOps
begin

section \<open>sdk/services/s3minio: the gRPC and HTTP clients\<close>

text \<open>
  The two providers of the helper's operations: \<^verbatim>\<open>pb/client.go\<close> and \<^verbatim>\<open>grpc/\<close> over the generated stubs,
  and \<^verbatim>\<open>http/client.go\<close> over \<^verbatim>\<open>net/http\<close>. The stubs and the HTTP server are parameters; what travels
  is a record. JSON bodies are values of \<open>http_body\<close>, and decoding a response is a parameter.
\<close>

subsection \<open>pb/client.go\<close>

text \<open>The messages of the compatibility surface; the generated ones have the same fields.\<close>

record pb_download_request =
  pdr_object :: string
  pdr_bucket :: string
  pdr_path :: string
  pdr_expires :: int
  pdr_user_id :: int
  pdr_merchant_id :: int

record pb_response =
  pr_code :: int
  pr_status :: string
  pr_message :: string
  pr_data :: string

record pb_upload_request =
  pur_filename :: string
  pur_size :: int
  pur_content_type :: string
  pur_content :: string
  pur_bucket :: string
  pur_path :: string
  pur_expires :: int
  pur_user_id :: int
  pur_merchant_id :: int

record pb_upload_data =
  pud_bucket :: string
  pud_path :: string
  pud_filename :: string
  pud_url :: string
  pud_presigned_url :: string

record pb_upload_response =
  pu_code :: int
  pu_status :: string
  pu_message :: string
  pu_data :: "pb_upload_data option"

text \<open>
  The generated stubs: the fields of the wire messages in the order of the \<^verbatim>\<open>.proto\<close> file. Upload is a
  client stream: opening it, sending the message, closing it.
\<close>

type_synonym wire_download = "string \<times> string \<times> string \<times> int \<times> int \<times> int"
type_synonym wire_upload =
  "string \<times> int \<times> string \<times> string \<times> string \<times> string \<times> int \<times> int \<times> int"

record wire_client =
  wc_download :: "wire_download \<Rightarrow> err + pb_response"
  wc_presigned :: "wire_download \<Rightarrow> err + pb_response"
  wc_view_url :: "wire_download \<Rightarrow> err + pb_response"
  wc_health :: "err + string"
  wc_upload_open :: "err option"
  wc_upload_send :: "wire_upload \<Rightarrow> err option"
  wc_upload_close :: "wire_upload \<Rightarrow> err + pb_upload_response"

definition to_wire :: "pb_download_request \<Rightarrow> wire_download" where
  "to_wire r = (pdr_object r, pdr_bucket r, pdr_path r, pdr_expires r, pdr_user_id r, pdr_merchant_id r)"

definition to_wire_upload :: "pb_upload_request \<Rightarrow> wire_upload" where
  "to_wire_upload m = (pur_filename m, pur_size m, pur_content_type m, pur_content m, pur_bucket m,
     pur_path m, pur_expires m, pur_user_id m, pur_merchant_id m)"

text \<open>Each call copies the fields into the wire message and the answer back into a new message.\<close>

definition copy_response :: "pb_response \<Rightarrow> pb_response" where
  "copy_response out =
     \<lparr>pr_code = pr_code out, pr_status = pr_status out, pr_message = pr_message out, pr_data = pr_data out\<rparr>"

definition pb_Download :: "wire_client \<Rightarrow> pb_download_request \<Rightarrow> err + pb_response option" where
  "pb_Download w r =
     (case wc_download w (to_wire r) of Inl e \<Rightarrow> Inl e | Inr out \<Rightarrow> Inr (Some (copy_response out)))"

definition pb_GeneratePresignedUrl :: "wire_client \<Rightarrow> pb_download_request \<Rightarrow> err + pb_response option" where
  "pb_GeneratePresignedUrl w r =
     (case wc_presigned w (to_wire r) of Inl e \<Rightarrow> Inl e | Inr out \<Rightarrow> Inr (Some (copy_response out)))"

definition pb_GenerateViewUrl :: "wire_client \<Rightarrow> pb_download_request \<Rightarrow> err + pb_response option" where
  "pb_GenerateViewUrl w r =
     (case wc_view_url w (to_wire r) of Inl e \<Rightarrow> Inl e | Inr out \<Rightarrow> Inr (Some (copy_response out)))"

definition pb_Health :: "wire_client \<Rightarrow> err + string option" where
  "pb_Health w = (case wc_health w of Inl e \<Rightarrow> Inl e | Inr status \<Rightarrow> Inr (Some status))"

definition pb_Send :: "wire_client \<Rightarrow> pb_upload_request \<Rightarrow> err option" where
  "pb_Send w m = wc_upload_send w (to_wire_upload m)"

definition pb_CloseAndRecv :: "wire_client \<Rightarrow> pb_upload_request \<Rightarrow> err + pb_upload_response option" where
  "pb_CloseAndRecv w m =
     (case wc_upload_close w (to_wire_upload m) of
        Inl e \<Rightarrow> Inl e
      | Inr u \<Rightarrow>
          Inr (Some \<lparr>pu_code = pu_code u, pu_status = pu_status u, pu_message = pu_message u,
            pu_data = map_option (\<lambda>d. \<lparr>pud_bucket = pud_bucket d, pud_path = pud_path d,
              pud_filename = pud_filename d, pud_url = pud_url d,
              pud_presigned_url = pud_presigned_url d\<rparr>) (pu_data u)\<rparr>))"

text \<open>Opening the stream; the client of the stream sends and closes over the same stub.\<close>

definition pb_Upload :: "wire_client \<Rightarrow> err + wire_client" where
  "pb_Upload w = (case wc_upload_open w of Some e \<Rightarrow> Inl e | None \<Rightarrow> Inr w)"

definition OKCode :: int where "OKCode = 0"

text \<open>\<open>stub\<close> is the generated constructor, from a connection to the stub of the service.\<close>

definition NewS3MinIOServiceClient :: "('conn \<Rightarrow> wire_client) \<Rightarrow> 'conn \<Rightarrow> wire_client" where
  "NewS3MinIOServiceClient stub cc = stub cc"

subsection \<open>grpc/client.go, grpc/adapter.go and grpc/health.go\<close>

definition NewWithServiceClient :: "wire_client \<Rightarrow> wire_client" where
  "NewWithServiceClient pb = pb"

definition NewWithConn :: "('conn \<Rightarrow> wire_client) \<Rightarrow> 'conn \<Rightarrow> wire_client" where
  "NewWithConn stub conn = NewS3MinIOServiceClient stub conn"

definition pb_request :: "download_request \<Rightarrow> pb_download_request" where
  "pb_request r =
     \<lparr>pdr_object = dr_object r, pdr_bucket = dr_bucket r, pdr_path = dr_path r, pdr_expires = dr_expires r,
      pdr_user_id = dr_user_id r, pdr_merchant_id = dr_merchant_id r\<rparr>"

text \<open>The status is not copied.\<close>

definition helper_response :: "pb_response \<Rightarrow> download_response" where
  "helper_response res =
     \<lparr>drs_code = pr_code res, drs_status = [], drs_message = pr_message res, drs_data = pr_data res\<rparr>"

definition grpc_Download :: "wire_client \<Rightarrow> download_request \<Rightarrow> err + download_response option" where
  "grpc_Download w req =
     (case pb_Download w (pb_request req) of
        Inl e \<Rightarrow> Inl e
      | Inr None \<Rightarrow> Inl ''minio download response is nil''
      | Inr (Some res) \<Rightarrow> Inr (Some (helper_response res)))"

definition grpc_GenerateViewURL :: "wire_client \<Rightarrow> download_request \<Rightarrow> err + download_response option" where
  "grpc_GenerateViewURL w req =
     (case pb_GenerateViewUrl w (pb_request req) of
        Inl e \<Rightarrow> Inl e
      | Inr None \<Rightarrow> Inl ''minio view response is nil''
      | Inr (Some res) \<Rightarrow> Inr (Some (helper_response res)))"

definition pb_upload_message :: "upload_request \<Rightarrow> pb_upload_request" where
  "pb_upload_message r =
     \<lparr>pur_filename = ur_filename r, pur_size = ur_size r, pur_content_type = ur_content_type r,
      pur_content = ur_content r, pur_bucket = ur_bucket r, pur_path = ur_path r, pur_expires = ur_expires r,
      pur_user_id = ur_user_id r, pur_merchant_id = ur_merchant_id r\<rparr>"

definition grpc_Upload :: "wire_client \<Rightarrow> upload_request \<Rightarrow> err + upload_response option" where
  "grpc_Upload w req =
     (case pb_Upload w of
        Inl e \<Rightarrow> Inl e
      | Inr stream \<Rightarrow>
          (case pb_Send stream (pb_upload_message req) of
             Some e \<Rightarrow> Inl e
           | None \<Rightarrow>
               (case pb_CloseAndRecv stream (pb_upload_message req) of
                  Inl e \<Rightarrow> Inl e
                | Inr None \<Rightarrow> Inl ''minio upload response is nil''
                | Inr (Some res) \<Rightarrow>
                    Inr (Some \<lparr>urs_code = pu_code res, urs_status = [], urs_message = pu_message res,
                      urs_data = map_option (\<lambda>d. \<lparr>ures_filename = pud_filename d, ures_url = pud_url d,
                        ures_presigned_url = pud_presigned_url d\<rparr>) (pu_data res)\<rparr>))))"

definition grpc_DownloadFile :: "wire_client \<Rightarrow> download_request \<Rightarrow> err + file_response option" where
  "grpc_DownloadFile w req = Inl ''download_file is not exposed over s3minio grpc yet''"

definition grpc_View :: "wire_client \<Rightarrow> string option \<Rightarrow> err + view_response option" where
  "grpc_View w req = Inl ''view stream is not exposed over s3minio grpc yet''"

definition normalize_status :: "string \<Rightarrow> string" where
  "normalize_status status =
     (if trim_space (to_lower status) = ''ok'' then ''ok'' else trim_space status)"

definition grpc_Health ::
  "bool \<Rightarrow> wire_client \<Rightarrow> probe_observation list \<Rightarrow>
     (err + health_response option) \<times> probe_observation list" where
  "grpc_Health hook w seen =
     (case pb_Health w of
        Inl e \<Rightarrow> (Inl e, seen)
      | Inr res \<Rightarrow>
          (let status = (case res of None \<Rightarrow> [] | Some st \<Rightarrow> normalize_status st);
               cd = (if status \<noteq> ''ok'' then 503 else OKCode);
               (e, seen') = ObserveProbe hook ''health'' ''grpc'' cd seen
           in (case e of
                 Some m \<Rightarrow> Inl m
               | None \<Rightarrow> Inr (Some \<lparr>hr_code = cd, hr_message = ''grpc health'', hr_status = status\<rparr>), seen')))"

text \<open>\<open>Health\<close> answers no nil without an error, so the second case of \<open>Ready\<close> is never met.\<close>

definition grpc_Ready ::
  "bool \<Rightarrow> wire_client \<Rightarrow> probe_observation list \<Rightarrow>
     (err + ready_response option) \<times> probe_observation list" where
  "grpc_Ready hook w seen =
     (case grpc_Health hook w seen of
        (Inl e, seen1) \<Rightarrow> (Inl e, seen1)
      | (Inr None, seen1) \<Rightarrow> (Inr None, seen1)
      | (Inr (Some health), seen1) \<Rightarrow>
          (let ready = \<lparr>rr_code = hr_code health, rr_message = ''grpc readiness'', rr_status = hr_status health,
                        rr_dependencies = [(''grpc'', hr_status health)]\<rparr>;
               ready1 = (if rr_status ready = [] then ready\<lparr>rr_status := ''unavailable''\<rparr> else ready);
               (e, seen2) = ObserveProbe hook ''ready'' ''grpc'' (rr_code ready1) seen1
           in (case e of Some m \<Rightarrow> Inl m | None \<Rightarrow> Inr (Some ready1), seen2)))"

definition grpc_CheckHealth :: "(err + health_response option) \<Rightarrow> err + health_response" where
  "grpc_CheckHealth p = CheckServiceHealth p"

definition grpc_CheckReady :: "(err + ready_response option) \<Rightarrow> err + ready_response" where
  "grpc_CheckReady p = CheckReady p"

subsection \<open>http/client.go\<close>

text \<open>
  A request either fails to be made (an unparsable URL), fails on the way, or meets a response whose
  body may fail to be read. \<open>hs_envelope\<close> and \<open>hs_text\<close> decode the JSON envelope and a JSON string,
  \<open>hs_upload_data\<close> the data of an upload (zero values where a field is missing or the text is not JSON).
\<close>

datatype http_body =
    NoBody
  | JsonBody string string string int
  | UploadForm "(string \<times> string) list" string string

record http_call =
  hq_method :: string
  hq_url :: string
  hq_body :: http_body

record http_reply =
  hp_status_code :: int
  hp_status :: string
  hp_body :: "err + string"
  hp_content_type :: string

record response_envelope =
  re_code :: int
  re_status :: string
  re_message :: string
  re_data :: string

record http_service =
  hs_bad_url :: "string \<Rightarrow> err option"
  hs_do :: "http_call \<Rightarrow> err + http_reply"
  hs_envelope :: "string \<Rightarrow> err + response_envelope"
  hs_text :: "string \<Rightarrow> string option"
  hs_upload_data :: "string \<Rightarrow> upload_result"

definition trim_right_slashes :: "string \<Rightarrow> string" where
  "trim_right_slashes s = rev (dropWhile (\<lambda>c. c = CHR ''/'') (rev s))"

text \<open>
  A client holds the address and the \<^verbatim>\<open>net/http\<close> client it was given, or one with a timeout of 30 seconds.
  The operations take the address; \<open>http_service\<close> is what the other one does.
\<close>

datatype http_backend = GivenClient nat | TimeoutClient int

record http_client =
  hc_base_url :: string
  hc_backend :: http_backend

definition new_http :: "string \<Rightarrow> nat option \<Rightarrow> http_client" where
  "new_http baseURL httpClient =
     \<lparr>hc_base_url = trim_right_slashes baseURL,
      hc_backend = (case httpClient of None \<Rightarrow> TimeoutClient (30 * Second) | Some h \<Rightarrow> GivenClient h)\<rparr>"

definition http_send :: "http_service \<Rightarrow> http_call \<Rightarrow> err + http_reply" where
  "http_send sv q = (case hs_bad_url sv (hq_url q) of Some e \<Rightarrow> Inl e | None \<Rightarrow> hs_do sv q)"

definition json_payload :: "download_request \<Rightarrow> http_body" where
  "json_payload req = JsonBody (dr_object req) (dr_bucket req) (dr_path req) (dr_expires req)"

definition post_download_like ::
  "http_service \<Rightarrow> string \<Rightarrow> string \<Rightarrow> download_request \<Rightarrow> err + download_response option" where
  "post_download_like sv baseURL endpoint req =
     (case http_send sv \<lparr>hq_method = ''POST'', hq_url = baseURL @ endpoint, hq_body = json_payload req\<rparr> of
        Inl e \<Rightarrow> Inl e
      | Inr res \<Rightarrow>
          (case hp_body res of
             Inl e \<Rightarrow> Inl e
           | Inr body \<Rightarrow>
               (case hs_envelope sv body of
                  Inl e \<Rightarrow> Inl e
                | Inr ev \<Rightarrow>
                    (if hp_status_code res \<ge> 300 then
                       Inl (if re_message ev = [] then hp_status res else re_message ev)
                     else
                       (let dataValue =
                          (if re_data ev \<noteq> [] then (case hs_text sv (re_data ev) of None \<Rightarrow> [] | Some t \<Rightarrow> t) else [])
                        in Inr (Some \<lparr>drs_code = re_code ev, drs_status = re_status ev,
                                      drs_message = re_message ev, drs_data = dataValue\<rparr>))))))"

definition http_Download :: "http_service \<Rightarrow> string \<Rightarrow> download_request \<Rightarrow> err + download_response option" where
  "http_Download sv baseURL req = post_download_like sv baseURL ''/api/v2/download'' req"

definition http_GenerateViewURL :: "http_service \<Rightarrow> string \<Rightarrow> download_request \<Rightarrow> err + download_response option" where
  "http_GenerateViewURL sv baseURL req = post_download_like sv baseURL ''/api/v2/generate_view_url'' req"

definition http_Health :: "http_service \<Rightarrow> string \<Rightarrow> err + health_response option" where
  "http_Health sv baseURL =
     (case http_send sv \<lparr>hq_method = ''GET'', hq_url = baseURL @ ''/healthz'', hq_body = NoBody\<rparr> of
        Inl e \<Rightarrow> Inl e
      | Inr res \<Rightarrow>
          (if hp_status_code res \<ge> 300 then Inl (''health request failed: '' @ hp_status res)
           else Inr (Some \<lparr>hr_code = code_ok, hr_message = ''http health'', hr_status = ''ok''\<rparr>)))"

definition http_Ready :: "http_service \<Rightarrow> string \<Rightarrow> err + ready_response option" where
  "http_Ready sv baseURL =
     (case http_send sv \<lparr>hq_method = ''GET'', hq_url = baseURL @ ''/readyz'', hq_body = NoBody\<rparr> of
        Inl e \<Rightarrow> Inl e
      | Inr res \<Rightarrow>
          (let status = (if hp_status_code res \<ge> 300 then ''unavailable'' else ''ok'')
           in Inr (Some \<lparr>rr_code = uwrap32 (hp_status_code res), rr_message = ''http ready'', rr_status = status,
                         rr_dependencies = [(''http'', status)]\<rparr>)))"

definition http_DownloadFile :: "http_service \<Rightarrow> string \<Rightarrow> download_request \<Rightarrow> err + file_response option" where
  "http_DownloadFile sv baseURL req =
     (case http_send sv \<lparr>hq_method = ''POST'', hq_url = baseURL @ ''/api/v2/download_file'',
                         hq_body = json_payload req\<rparr> of
        Inl e \<Rightarrow> Inl e
      | Inr res \<Rightarrow>
          (case hp_body res of
             Inl e \<Rightarrow> Inl e
           | Inr body \<Rightarrow>
               (if hp_status_code res \<ge> 300 then
                  Inl (''download_file failed: status='' @ itoa (hp_status_code res))
                else Inr (Some \<lparr>fr_code = uwrap32 (hp_status_code res), fr_message = ''download file'',
                       fr_status = hp_status res, fr_data = body, fr_content_type = hp_content_type res,
                       fr_filename = []\<rparr>))))"

definition http_View :: "http_service \<Rightarrow> string \<Rightarrow> string option \<Rightarrow> err + view_response option" where
  "http_View sv baseURL req =
     (case req of
        None \<Rightarrow> Inl ''view path is required''
      | Some path \<Rightarrow>
          (if path = [] then Inl ''view path is required''
           else case http_send sv \<lparr>hq_method = ''GET'', hq_url = baseURL @ ''/api/v2/view?path='' @ path,
                                   hq_body = NoBody\<rparr> of
             Inl e \<Rightarrow> Inl e
           | Inr res \<Rightarrow>
               (case hp_body res of
                  Inl e \<Rightarrow> Inl e
                | Inr body \<Rightarrow>
                    (if hp_status_code res \<ge> 300 then Inl (''view failed: status='' @ itoa (hp_status_code res))
                     else Inr (Some \<lparr>vw_code = uwrap32 (hp_status_code res), vw_message = ''view'',
                            vw_status = hp_status res, vw_data = body,
                            vw_content_type = hp_content_type res\<rparr>)))))"


text \<open>The fields of the form in the order they are written; a nil request is refused.\<close>

definition upload_fields :: "upload_request \<Rightarrow> (string \<times> string) list" where
  "upload_fields req =
     (if ur_path req \<noteq> [] then [(''path'', ur_path req)] else []) @
     (if ur_bucket req \<noteq> [] then [(''bucket'', ur_bucket req)] else []) @
     (if ur_expires req > 0 then [(''expires'', itoa (ur_expires req))] else []) @
     [(''signed'', ''true'')]"

definition http_Upload :: "http_service \<Rightarrow> string \<Rightarrow> upload_request option \<Rightarrow> err + upload_response option" where
  "http_Upload sv baseURL r =
     (case r of
        None \<Rightarrow> Inl ''upload request is nil''
      | Some req \<Rightarrow>
          (case http_send sv \<lparr>hq_method = ''POST'', hq_url = baseURL @ ''/api/v2/upload'',
                   hq_body = UploadForm (upload_fields req) (ur_filename req) (ur_content req)\<rparr> of
             Inl e \<Rightarrow> Inl e
           | Inr res \<Rightarrow>
               (case hp_body res of
                  Inl e \<Rightarrow> Inl e
                | Inr body \<Rightarrow>
                    (if hp_status_code res \<ge> 300 then
                       Inl (''upload failed: status='' @ itoa (hp_status_code res))
                     else case hs_envelope sv body of
                       Inl e \<Rightarrow> Inl e
                     | Inr ev \<Rightarrow>
                         (let d = hs_upload_data sv (re_data ev);
                              d1 = (if ures_filename d = []
                                    then d\<lparr>ures_filename := filepath_base (ur_filename req)\<rparr> else d)
                          in Inr (Some \<lparr>urs_code = re_code ev, urs_status = re_status ev,
                                        urs_message = re_message ev, urs_data = Some d1\<rparr>))))))"

subsection \<open>Lemmas\<close>

lemma grpc_health_answer:
  "fst (grpc_Health hook w seen) =
     (case wc_health w of
        Inl e \<Rightarrow> Inl e
      | Inr st \<Rightarrow> Inr (Some \<lparr>hr_code = (if normalize_status st = ''ok'' then code_ok else 503),
                              hr_message = ''grpc health'', hr_status = normalize_status st\<rparr>))"
  by (simp add: grpc_Health_def pb_Health_def ObserveProbe_def OKCode_def code_ok_def Let_def split: sum.split)

lemma grpc_ready_answer:
  "fst (grpc_Ready hook w seen) =
     (case wc_health w of
        Inl e \<Rightarrow> Inl e
      | Inr st \<Rightarrow>
          Inr (Some \<lparr>rr_code = (if normalize_status st = ''ok'' then code_ok else 503),
            rr_message = ''grpc readiness'',
            rr_status = (if normalize_status st = [] then ''unavailable'' else normalize_status st),
            rr_dependencies = [(''grpc'', normalize_status st)]\<rparr>))"
  by (simp add: grpc_Ready_def grpc_Health_def pb_Health_def ObserveProbe_def OKCode_def code_ok_def Let_def
      split: sum.split)

text \<open>Servers answer with a three-digit status code.\<close>

definition http_codes_ok :: "http_service \<Rightarrow> bool" where
  "http_codes_ok sv \<longleftrightarrow> (\<forall>q res. hs_do sv q = Inr res \<longrightarrow> 100 \<le> hp_status_code res \<and> hp_status_code res \<le> 999)"

lemma http_reply_code:
  "http_codes_ok sv \<Longrightarrow> http_send sv q = Inr res \<Longrightarrow> uwrap32 (hp_status_code res) \<noteq> code_ok"
proof -
  assume "http_codes_ok sv" "http_send sv q = Inr res"
  then have "100 \<le> hp_status_code res" "hp_status_code res \<le> 999"
    by (auto simp: http_codes_ok_def http_send_def split: option.splits)
  then show ?thesis by (simp add: uwrap32_def code_ok_def)
qed

subsection \<open>Properties\<close>

text \<open>
  C34. Readiness depends on the transport. Over gRPC the checked probe passes exactly when the service
  answers a status that normalises to \<open>ok\<close>. Over HTTP it never passes, whatever the server answers,
  because the adapter reports the HTTP status code where the check expects the gRPC code of success;
  for the same reason a file download through the checked operation always fails, while the liveness
  probe, which reports the gRPC code, passes on every answer below 300.
\<close>

theorem readiness_by_transport:
  assumes "http_codes_ok sv"
  shows "((\<exists>r. CheckReady (fst (grpc_Ready hook w seen)) = Inr r) \<longleftrightarrow>
      (\<exists>st. wc_health w = Inr st \<and> normalize_status st = ''ok'')) \<and>
    (\<exists>e. CheckReady (http_Ready sv base) = Inl e) \<and>
    (\<exists>e. DownloadFileByRequest (http_DownloadFile sv base) req = Inl e) \<and>
    ((\<exists>r. CheckServiceHealth (http_Health sv base) = Inr r) \<longleftrightarrow>
      (\<exists>res. http_send sv \<lparr>hq_method = ''GET'', hq_url = base @ ''/healthz'', hq_body = NoBody\<rparr> = Inr res \<and>
         hp_status_code res < 300))"
proof (intro conjI)
  show "(\<exists>r. CheckReady (fst (grpc_Ready hook w seen)) = Inr r) \<longleftrightarrow>
      (\<exists>st. wc_health w = Inr st \<and> normalize_status st = ''ok'')"
    by (auto simp: readiness.check_Inr_iff grpc_ready_answer code_ok_def split: sum.split)
  show "\<exists>e. CheckReady (http_Ready sv base) = Inl e"
    using http_reply_code [OF assms]
    by (intro readiness.never_passes) (auto simp: http_Ready_def Let_def split: sum.splits)
  show "\<exists>e. DownloadFileByRequest (http_DownloadFile sv base) req = Inl e"
    unfolding DownloadFileByRequest_def using http_reply_code [OF assms]
    by (intro file_download.never_passes) (auto simp: http_DownloadFile_def split: sum.splits if_splits)
  show "(\<exists>r. CheckServiceHealth (http_Health sv base) = Inr r) \<longleftrightarrow>
      (\<exists>res. http_send sv \<lparr>hq_method = ''GET'', hq_url = base @ ''/healthz'', hq_body = NoBody\<rparr> = Inr res \<and>
         hp_status_code res < 300)"
    by (auto simp: liveness.check_Inr_iff http_Health_def split: sum.splits if_splits)
qed

definition ok_http_service :: http_service where
  "ok_http_service =
     \<lparr>hs_bad_url = \<lambda>_. None,
      hs_do = \<lambda>_. Inr \<lparr>hp_status_code = 200, hp_status = ''200 OK'', hp_body = Inr ''{}'', hp_content_type = []\<rparr>,
      hs_envelope = \<lambda>_. Inl ''no envelope'', hs_text = \<lambda>_. None,
      hs_upload_data = \<lambda>_. \<lparr>ures_filename = [], ures_url = [], ures_presigned_url = []\<rparr>\<rparr>"

theorem readiness_by_transport_witness:
  "(\<exists>e. CheckReady (http_Ready ok_http_service ''http://store'') = Inl e) \<and>
   (\<exists>r. CheckServiceHealth (http_Health ok_http_service ''http://store'') = Inr r)"
proof -
  have "http_codes_ok ok_http_service" by (simp add: http_codes_ok_def ok_http_service_def)
  from readiness_by_transport [OF this, of False undefined "[]" "''http://store''" undefined]
  show ?thesis by (simp add: http_send_def ok_http_service_def)
qed

text \<open>
  A presigned URL over gRPC, from the caller's variadic arguments to the wire and back. The object,
  the path, the bucket and the expiry arrive in the message the stub sends, a positive expiry taken
  modulo 32 bits, and the call yields a URL exactly when the service answers code 0: the data of the
  answer, or the object's own name when the data is empty.
\<close>

theorem presigned_url_end_to_end:
  "GetPresignedURL (grpc_Download w) object uid mid [DStr path, DStr bucket, DInt v] = Inr url \<longleftrightarrow>
   (\<exists>out. wc_download w (object, bucket, path, (if v > 0 then wrap32 v else 0), uid, mid) = Inr out \<and>
      pr_code out = 0 \<and> url = (if pr_data out = [] then object else pr_data out))"
proof -
  have "to_wire (pb_request (BuildDownloadRequest object uid mid [DStr path, DStr bucket, DInt v])) =
      (object, bucket, path, (if v > 0 then wrap32 v else 0), uid, mid)"
    by (auto simp: to_wire_def pb_request_def BuildDownloadRequest_def Let_def)
  then show ?thesis
    unfolding GetPresignedURL_def presigned.check_Inr_iff
    by (auto simp: grpc_Download_def pb_Download_def helper_response_def copy_response_def code_ok_def
        split: sum.splits)
qed

subsection \<open>facade/client.go\<close>

definition NewGRPC :: "('conn \<Rightarrow> wire_client) \<Rightarrow> 'conn \<Rightarrow> wire_client" where
  "NewGRPC stub conn = NewWithConn stub conn"

definition NewHTTPBridge :: "string \<Rightarrow> nat option \<Rightarrow> http_client" where
  "NewHTTPBridge baseURL h = new_http baseURL h"

text \<open>However many slashes end the address, the endpoints are appended after exactly one.\<close>

lemma bridge_base_url:
  "hc_base_url (NewHTTPBridge (u @ replicate n (CHR ''/'')) h) = hc_base_url (NewHTTPBridge u h)"
  "hc_base_url (NewHTTPBridge u h) \<noteq> [] \<Longrightarrow> last (hc_base_url (NewHTTPBridge u h)) \<noteq> CHR ''/''"
proof -
  have "dropWhile (\<lambda>c. c = CHR ''/'') (replicate n (CHR ''/'') @ xs) = dropWhile (\<lambda>c. c = CHR ''/'') xs" for xs
    by (induction n) simp_all
  then show "hc_base_url (NewHTTPBridge (u @ replicate n (CHR ''/'')) h) = hc_base_url (NewHTTPBridge u h)"
    by (simp add: NewHTTPBridge_def new_http_def trim_right_slashes_def)
  assume "hc_base_url (NewHTTPBridge u h) \<noteq> []"
  then show "last (hc_base_url (NewHTTPBridge u h)) \<noteq> CHR ''/''"
    using hd_dropWhile [of "\<lambda>c. c = CHR ''/''" "rev u"]
    by (simp add: NewHTTPBridge_def new_http_def trim_right_slashes_def last_rev)
qed

end
