(* ===== verification/StorageProviders.thy ===== *)
theory StorageProviders
  imports StorageClients
begin

section \<open>The interfaces of the object-store helper\<close>

text \<open>
  \<^verbatim>\<open>helper/types.go\<close> declares one interface per operation and \<open>Client\<close>, which groups them. A value of such an
  interface is the record of its methods; the two adapters are two such values. The operations of the
  helper are proved once over any provider that never answers nil without an error.
\<close>

record helper_client =
  cl_download :: "download_request \<Rightarrow> err + download_response option"
  cl_upload :: "upload_request \<Rightarrow> err + upload_response option"
  cl_generate_view_url :: "download_request \<Rightarrow> err + download_response option"
  cl_health :: "err + health_response option"
  cl_ready :: "err + ready_response option"
  cl_download_file :: "download_request \<Rightarrow> err + file_response option"
  cl_view :: "string option \<Rightarrow> err + view_response option"

text \<open>The observations of the probes are dropped here; \<open>hook\<close> tells whether a hook is set.\<close>

definition grpc_client :: "bool \<Rightarrow> wire_client \<Rightarrow> helper_client" where
  "grpc_client hook w =
     \<lparr>cl_download = grpc_Download w, cl_upload = grpc_Upload w, cl_generate_view_url = grpc_GenerateViewURL w,
      cl_health = fst (grpc_Health hook w []), cl_ready = fst (grpc_Ready hook w []),
      cl_download_file = grpc_DownloadFile w, cl_view = grpc_View w\<rparr>"

definition http_bridge :: "http_service \<Rightarrow> http_client \<Rightarrow> helper_client" where
  "http_bridge sv h =
     \<lparr>cl_download = http_Download sv (hc_base_url h),
      cl_upload = (\<lambda>req. http_Upload sv (hc_base_url h) (Some req)),
      cl_generate_view_url = http_GenerateViewURL sv (hc_base_url h),
      cl_health = http_Health sv (hc_base_url h), cl_ready = http_Ready sv (hc_base_url h),
      cl_download_file = http_DownloadFile sv (hc_base_url h), cl_view = http_View sv (hc_base_url h)\<rparr>"

locale storage_provider =
  fixes cl :: helper_client
  assumes download_answers: "cl_download cl req \<noteq> Inr None"
    and upload_answers: "cl_upload cl up \<noteq> Inr None"
    and view_url_answers: "cl_generate_view_url cl req \<noteq> Inr None"
    and health_answers: "cl_health cl \<noteq> Inr None"
    and ready_answers: "cl_ready cl \<noteq> Inr None"
    and file_answers: "cl_download_file cl req \<noteq> Inr None"
begin

text \<open>
  Over such a provider an operation ends in one of three ways: the call's own error, the error made of the
  message of a refused response, or the result of an accepted one. The errors about nil never occur.
\<close>

lemma presigned_ends:
  "GetPresignedURL (cl_download cl) object uid mid args =
     (case cl_download cl (BuildDownloadRequest object uid mid args) of
        Inl e \<Rightarrow> Inl e
      | Inr r \<Rightarrow> (if drs_code (the r) = code_ok
                 then Inr (if drs_data (the r) = [] then object else drs_data (the r))
                 else Inl (failure ''s3minio download'' ''download failed'' (drs_message (the r)))))"
  using download_answers [of "BuildDownloadRequest object uid mid args"]
  by (auto simp: GetPresignedURL_def presigned_of_def split: sum.split option.split)

lemma health_ends:
  "CheckServiceHealth (cl_health cl) =
     (case cl_health cl of
        Inl e \<Rightarrow> Inl e
      | Inr r \<Rightarrow> (if hr_code (the r) = code_ok then Inr (the r)
                 else Inl (failure ''s3minio health'' ''health check failed'' (hr_message (the r)))))"
  using health_answers by (auto simp: CheckServiceHealth_def code_ok_def split: sum.split option.split)

lemma ready_ends:
  "CheckReady (cl_ready cl) =
     (case cl_ready cl of
        Inl e \<Rightarrow> Inl e
      | Inr r \<Rightarrow> (if rr_code (the r) = code_ok then Inr (the r)
                 else Inl (failure ''s3minio ready'' ''readiness check failed'' (rr_message (the r)))))"
  using ready_answers by (auto simp: CheckReady_def code_ok_def split: sum.split option.split)

lemma upload_ends:
  "(\<exists>e. UploadByRequest (cl_upload cl) up = Inl e) \<longleftrightarrow>
     (\<forall>r. cl_upload cl up = Inr r \<longrightarrow> urs_code (the r) \<noteq> code_ok \<or> urs_data (the r) = None)"
  using upload_answers [of up] upload.check_error_iff [of "cl_upload cl up"]
  by (cases "cl_upload cl up") (auto simp: UploadByRequest_def)

end

lemma grpc_provider: "grpc_Download w req \<noteq> Inr None" "grpc_GenerateViewURL w req \<noteq> Inr None"
    "grpc_Upload w up \<noteq> Inr None" "grpc_DownloadFile w req \<noteq> Inr None"
  by (simp_all add: grpc_Download_def grpc_GenerateViewURL_def grpc_Upload_def grpc_DownloadFile_def
      split: sum.split option.split)

lemma http_provider: "post_download_like sv base endpoint req \<noteq> Inr None" "http_Health sv base \<noteq> Inr None"
    "http_Ready sv base \<noteq> Inr None" "http_DownloadFile sv base req \<noteq> Inr None" "http_Upload sv base up \<noteq> Inr None"
  by (simp_all add: post_download_like_def http_Health_def http_Ready_def http_DownloadFile_def http_Upload_def
      Let_def split: sum.split option.split)

interpretation over_grpc: storage_provider "grpc_client hook w" for hook w
  by unfold_locales
    (simp_all add: grpc_client_def grpc_provider grpc_health_answer grpc_ready_answer split: sum.split)

interpretation over_http: storage_provider "http_bridge sv h" for sv h
  by unfold_locales
    (simp_all add: http_bridge_def http_provider http_Download_def http_GenerateViewURL_def)

text \<open>
  What a service sees of the gRPC provider, by the contract: a presigned URL is the text of the wire
  response, or the object when that is empty, exactly when the code is the one of success.
\<close>

lemma grpc_presigned_url:
  assumes "wc_download w (to_wire (pb_request (BuildDownloadRequest object uid mid args))) = Inr res"
  shows "GetPresignedURL (cl_download (grpc_client hook w)) object uid mid args =
    (if pr_code res = code_ok then Inr (if pr_data res = [] then object else pr_data res)
     else Inl (failure ''s3minio download'' ''download failed'' (pr_message res)))"
  using over_grpc.presigned_ends [of hook w object uid mid args] assms
  by (simp add: grpc_client_def grpc_Download_def pb_Download_def copy_response_def helper_response_def)

end
