(* ===== verification/Spec2Isabelle.thy ===== *)
theory Spec2Isabelle
  imports Facade JsonCodec RedisLog SamplerRace LogForward AmqpLifecycle LockSystem StoreSpec IdemRace MiddlewareLog AuditTrail PublisherSpec PublisherDrain RmqListener SentryLog TraceTelemetry Passwords DbPool Health Startup StorageProviders
begin

text \<open>
  A model of \<^verbatim>\<open>paycloudhelper\<close>, the Go library the PayCloud services share, with the theorems that make
  its parts correct. The library is a set of packages with package-level state: a logger with sampling
  and hooks, a Sentry adapter, an OpenTelemetry starter, a reconnecting RabbitMQ client, an audit trail
  published through it, a Redis store with distributed locks, three request middlewares over Redis,
  password hashing, a database pool, a health report, the start of the application and an object-store
  client.

  How to read the model. A struct is a record, an enumeration a datatype, a Go string its list of bytes,
  \<open>int\<close> and \<open>time.Duration\<close> are integers with the 64-bit wrap-around written out (\<open>wrap64\<close>, \<open>dur_mul\<close>), a map
  is a partial function or an association list where its order matters. Package variables are one
  record per component, and a function of the source is a definition of the same name that takes the
  state and returns it changed. An error is the \<open>Inl\<close> of a sum or an option, a runtime panic or a call
  that never returns is a value (\<open>panic\<close>, \<open>outcome\<close>). Code outside the repository is an argument: what a
  broker, a server, a clock, a random generator or a third-party package answers is passed to the
  definition that asks. Where a property relies on documented behaviour of such code it says so in a
  hypothesis (\<open>bcrypt_laws\<close>, the key function of \<^verbatim>\<open>jwt.Parse\<close>, a codec that reads what it wrote).

  The theories, and the files under \<^verbatim>\<open>src/\<close> they model.

  \<^item> \<open>Prelude\<close>, \<open>GoStd\<close>, \<open>GoText\<close>, \<open>GoTime\<close>, \<open>GoJson\<close>: what the code uses of Go and its standard library
    (integers, \<^verbatim>\<open>strings\<close>, \<^verbatim>\<open>strconv\<close>, \<^verbatim>\<open>fmt\<close>, \<^verbatim>\<open>time.Parse\<close> for one layout, the scanner behind
    \<^verbatim>\<open>json.Compact\<close>). \<open>Interfaces\<close>: the contracts several components share, as locales, each interpreted
    on the definitions of the component that provides it.
  \<^item> \<open>AppGlobals\<close>: \<^verbatim>\<open>phhelper/\<close>. \<open>Sampling\<close>: \<^verbatim>\<open>phlogger/sampler.go\<close>, \<^verbatim>\<open>ratelimit.go\<close>, \<^verbatim>\<open>keyed_limiter.go\<close>.
    \<open>SamplerRace\<close>: the sampler's \<open>check\<close> as interleaved atomic steps of concurrent calls under one key.
    \<open>Logger\<close> and \<open>LogForward\<close>: the rest of \<^verbatim>\<open>phlogger/\<close>, \<^verbatim>\<open>phsentry/log_hook.go\<close>, the forwarding part of
    \<^verbatim>\<open>logger.go\<close>; the trace of events in the state is what becomes visible outside.
    \<open>SentryLog\<close>: the logger and Sentry together, what the hooks bring there and what \<^verbatim>\<open>phsentry\<close> logs.
    \<open>Facade\<close>: the functions of \<^verbatim>\<open>logger.go\<close>, \<^verbatim>\<open>sentry.go\<close> and \<^verbatim>\<open>log_prefix.go\<close> that forward to these.
  \<^item> \<open>Amqp\<close>, \<open>AmqpOps\<close>, \<open>AmqpLifecycle\<close>: \<^verbatim>\<open>amqp.go\<close>. The operations callers use are functions of the client;
    the goroutine that connects and reconnects is the step relation \<open>amqp_step\<close>, in which broker events
    and \<open>Close\<close> interleave with it.
  \<^item> \<open>AuditEntities\<close>, \<open>AuditPublisher\<close>, \<open>PublisherSpec\<close>, \<open>AuditTrail\<close>, \<open>JsonCodec\<close>: the \<^verbatim>\<open>audittrail*.go\<close> and
    \<^verbatim>\<open>transaction_trace*.go\<close> files, \<^verbatim>\<open>json_codec.go\<close>, \<^verbatim>\<open>phjson/\<close>. The publisher with its submitters, workers
    and cooldown goroutine is the step relation \<open>publisher_step\<close>, over the set of surroundings (client, encoder,
    broker) that a worker may meet; the check of the breaker and the send of a \<open>Submit\<close> are two steps, and so
    are the two channels that \<open>Stop\<close> closes. \<open>PublisherSpec\<close> specifies it by bags of messages and phases of the
    circuit breaker and proves the refinement; \<open>PublisherDrain\<close> is what happens after \<open>Stop\<close>, and what becomes
    of the messages.
  \<^item> \<open>RmqConnect\<close>: \<^verbatim>\<open>rmq.go\<close>, \<^verbatim>\<open>rmq-autoconnect.go\<close>, \<^verbatim>\<open>phaudittrailv0/\<close>. \<open>RmqListener\<close>: the goroutine of
    \<^verbatim>\<open>rmq-autoconnect.go\<close> that reconnects, as the step relation \<open>listener_step\<close>.
  \<^item> \<open>MutexRegistry\<close>, \<open>RedisConfig\<close>, \<open>RedisOps\<close>: \<^verbatim>\<open>mutex.go\<close>, \<^verbatim>\<open>redis.go\<close>. The commands sent to the server are
    a trace in the state. \<open>RedisLog\<close>: the same operations with the log calls they make, what is reported of a
    failed start and of a clamped duration, and that the password does not reach the log. \<open>StoreSpec\<close> puts any
    number of processes, which connect and lose their connection, and a server behind the operations and
    specifies the store as a map whose entries expire; \<open>LockSystem\<close> does the same for the distributed locks.
  \<^item> \<open>HttpHelpers\<close>, \<open>Idempotency\<close>, \<open>TokenChecks\<close>: \<^verbatim>\<open>helpers.go\<close>, \<^verbatim>\<open>response.go\<close>, \<^verbatim>\<open>headers.go\<close>, \<^verbatim>\<open>validator.go\<close>
    and the handlers of \<^verbatim>\<open>idempotency-key.go\<close>, \<^verbatim>\<open>csrf.go\<close> and \<^verbatim>\<open>revoke-token.go\<close>. \<open>IdemRace\<close>: concurrent
    requests with one idempotency key, as interleaved steps of the handler. \<open>MiddlewareLog\<close>: the three handlers
    with the log calls of each branch, and that leaving the calls out gives the handlers again.
  \<^item> \<open>Sentry\<close>: \<^verbatim>\<open>phsentry/phsentry.go\<close>. \<open>TraceConfig\<close>, \<open>TraceInit\<close>, \<open>TraceTelemetry\<close>: \<^verbatim>\<open>phtrace/\<close>.
  \<^item> \<open>Passwords\<close>: \<^verbatim>\<open>pcauth/\<close>. \<open>DbPool\<close>: \<^verbatim>\<open>phdb/\<close>. \<open>Health\<close>: \<^verbatim>\<open>health.go\<close>. \<open>Startup\<close>: \<^verbatim>\<open>init.go\<close>, \<^verbatim>\<open>config.go\<close>.
  \<^item> \<open>Storage\<close>, \<open>StorageOps\<close>, \<open>StorageClients\<close>, \<open>StorageProviders\<close>: \<^verbatim>\<open>sdk/services/s3minio/\<close> (types and request
    builders, checked operations, the gRPC and the HTTP provider, the facade).

  What the lemmas show, by group. Step relations keep an invariant (\<open>amqp_inv\<close>, \<open>breaker_inv\<close>,
  \<open>messages_inv\<close>, \<open>lock_inv\<close>, \<open>race_inv\<close>) by rule induction, lifted to runs by the locale \<open>invariant_steps\<close>;
  \<open>refinement\<close> lifts the simulation of the publisher to runs, \<open>labelled_refinement\<close> that of the store to runs with the
  same calls and results, \<open>decreasing_steps\<close> bounds the
  runs of the stopped publisher by a weight and shows that they come to an end. \<open>log_gate\<close> gives what holds
  of any limiter of log lines (other keys untouched, reports not negative); the exact budgets are in
  \<open>Sampling\<close>. In \<open>MiddlewareLog\<close> and \<open>RedisLog\<close> each operation with log calls comes with a lemma that leaving
  them out gives the operation again; the confidentiality of the password is that operations commute with
  blanking it out (\<open>hide_password\<close>). \<open>kv_store\<close> gives lookup
  after update for the mutex registry and the AMQP headers, \<open>option_setters\<close> that every sequence of
  functional options keeps a configuration well formed, \<open>response_check\<close> that a checked operation
  succeeds exactly on accepted responses, \<open>storage_provider\<close> how the operations of the object store
  end over any provider, with the gRPC and the HTTP adapter as instances. The theory at hand composes components: publisher and AMQP
  client, middlewares and Redis, start of the application and logger.

  Loops and bounds. \<open>Push\<close> runs over a list of attempts and is bounded by \<open>PushMaxRetries\<close> (\<open>push_returns\<close>
  shows that this many attempts are enough for a result); \<open>connect_loop\<close> by the configured retries; the
  search for \<^verbatim>\<open>.env\<close> by its five parents. The two older retry loops have no bound in the code: they run
  over the list of the broker's answers, and \<open>None\<close> means that they are still retrying at its end.
  The remaining recursions are structural or have a measure. No fuel is used elsewhere.

  Not modelled, and why.

  \<^item> Contexts and deadlines of Redis, AMQP and HTTP calls: whether a call was cut off is part of the
    answer its definition gets.
  \<^item> The log lines that the RabbitMQ code writes on its way: they change nothing the properties speak of.
    The lines of the logger itself, of \<^verbatim>\<open>phsentry\<close>, of \<^verbatim>\<open>redis.go\<close>, of the middlewares, of the audit
    publication, of the health report and of the configuration report are modelled.
  \<^item> Hooks named \<open>...ForTest\<close>, which are nil outside the tests, and the hook variables through which the
    tests replace a call of the broker library.
  \<^item> Encoders (\<^verbatim>\<open>encoding/json\<close>, \<^verbatim>\<open>sonic\<close>, \<^verbatim>\<open>jsoniter\<close>), \<^verbatim>\<open>govalidator\<close>, \<^verbatim>\<open>mergo\<close>, \<^verbatim>\<open>godotenv\<close>, bcrypt, MD5, JWT and
    PEM decoding, \<open>ParseFloat\<close> and \<open>ParseDuration\<close>: parameters.
  \<^item> The generated stubs under \<^verbatim>\<open>pb/wirepb/\<close> and the Go interface declarations, which the model has as
    function arguments.

  Assumptions of the systems. In \<open>IdemRace\<close> the key may have expired at any moment before the run that a
  claim on latecomers speaks of; that claim holds until it expires again. \<open>LockSystem\<close> and \<open>StoreSpec\<close>
  state in their server relations what redsync and Redis document, with lost requests and lost answers;
  the processes of \<open>StoreSpec\<close> may be in any state; \<open>SamplerRace\<close> looks at one key of a sampler that is
  turned on, with any clock reading for each call; a worker of the audit publisher looks at the client twice
  for one message and sees the same both times, and one that panics ends the program. The counters of the
  sampler and of the window limiter are integers without the wrap-around at \<open>2 ^ 63\<close> lines. \<open>IdemRace\<close>
  runs with a client that is connected.
\<close>

subsection \<open>From the audit publisher to the broker\<close>

text \<open>
  C12. A worker of the audit publisher survives whatever the AMQP client goes through: in every reachable
  state of the client and its reconnecting goroutine processing a message does not panic; the message
  is pushed exactly when the client is ready, the message marshals and the broker takes it; it goes to
  the queue the client was made for, with the configured time-to-live; and a failure is counted by the
  breaker exactly when the client is not ready or the broker refuses, never for a message that does
  not marshal on a ready client.
\<close>

theorem audit_worker_survives:
  assumes "(amqp_step g)\<^sup>*\<^sup>* (new_system (NewAmqpClient q n cfg)) s"
    and wire: "wire = (\<lambda>bytes. \<lparr>pub_content_type = ''application/json'', pub_body = bytes, pub_expiration = message_ttl p\<rparr>)"
    and "process_message (Some (client s)) marshal publish msg p = (res, out)"
  shows "(\<forall>pa. res \<noteq> PushPanicked pa) \<and>
    (res = Pushed \<longleftrightarrow> IsReady (client s) \<and> (\<exists>bytes. marshal msg = Inr bytes \<and> publish q (wire bytes) = None)) \<and>
    (counts_failure res \<longleftrightarrow>
       \<not> IsReady (client s) \<or> (\<exists>bytes e. marshal msg = Inr bytes \<and> publish q (wire bytes) = Some e)) \<and>
    out = (case marshal msg of Inr bytes \<Rightarrow> if IsReady (client s) then [(q, wire bytes)] else [] | Inl _ \<Rightarrow> [])"
proof -
  have q: "queue_name (client s) = q" using amqp_queue [OF assms(1)] new_client_queue by simp
  have "amqp_inv s" using amqp_steps.steps_inv [OF assms(1) new_client_inv] .
  then have ch: "is_ready (client s) \<longrightarrow> (\<exists>h. channel (client s) = Some h)" by (auto simp: amqp_inv_def)
  show ?thesis
  proof (cases "is_ready (client s)")
    case True
    with ch obtain h where "channel (client s) = Some h" by blast
    note P = PushWithTTL_ready [OF True this]
    show ?thesis using True assms(3)
      by (cases "marshal msg")
        (auto simp: process_message_def IsReady_def wire P q Let_def split: option.splits)
  next
    case False
    with assms(3) show ?thesis by (auto simp: process_message_def IsReady_def split: sum.split)
  qed
qed

theorem audit_worker_survives_witness:
  "\<exists>s. (amqp_step demo_globals)\<^sup>*\<^sup>* (new_system (NewAmqpClient ''q'' ''n'' None)) s \<and>
     fst (process_message (Some (client s)) Inr (\<lambda>_ _. None) ''m'' default_publisher) = Pushed"
proof -
  obtain s where s: "(amqp_step demo_globals)\<^sup>*\<^sup>* (new_system (NewAmqpClient ''q'' ''n'' None)) s" "IsReady (client s)"
    using reach_ready_client by blast
  obtain res out where r: "process_message (Some (client s)) Inr (\<lambda>_ _. None) ''m'' default_publisher = (res, out)"
    by (cases "process_message (Some (client s)) Inr (\<lambda>_ _. None) ''m'' default_publisher")
  from audit_worker_survives [OF s(1) refl r] s show ?thesis by (intro exI [of _ s]) (simp add: r)
qed

subsection \<open>The request middlewares over Redis\<close>

text \<open>
  C6. At most once: when a request has got past \<open>VerifIdemKey\<close> as new and the server later answers \<open>GET\<close>
  with what the \<open>SET\<close> of that request stored, a retry of the same request at any other time is
  answered and never reaches the next handler again. For a JSON body the answer is 202 with the
  decoded body of the first request, provided that the codec reads back what it wrote.
\<close>

theorem idem_replay_answered:
  assumes first: "VerifIdemKey g ev libs reply (Some (Inl e)) marshal set_reply rand_hex now rq st = (Returned CallNext, st1)"
    and live: "redis_opts st = Some ro" "pool_client st = Some c"
    and stored: "redis_sent st1 = before @ [SetKey c (rq_idempotency_key rq) json ttl]" and "json \<noteq> []"
    and codec: "\<And>v j. marshal (StoredBody v) = Inr j \<Longrightarrow> lib_unmarshal libs (Some v) j = Inr (Some v)"
  shows "\<exists>resp st2. VerifIdemKey g ev libs reply (Some (Inr json)) marshal set_reply' rand_hex' now' rq st1 =
      (Returned (Answer resp), st2) \<and> redis_sent st2 = redis_sent st1 @ [GetKey c (rq_idempotency_key rq)] \<and>
    (\<forall>body v. rq_content_type rq = ''application/json'' \<and> rq_body rq = Some (Inr body) \<and>
       lib_unmarshal libs (Some (lib_empty_map libs)) body = Inr (Some v) \<longrightarrow>
       resp = Accepted (Some v) empty_response)"
proof -
  obtain header session request where ad: "idem_admit libs rand_hex now rq = Inr (header, session, request)"
    using first by (auto simp: VerifIdemKey_def split: sum.splits)
  note a = idem_admit_Inr [OF ad]
  obtain header' where ad': "idem_admit libs rand_hex' now' rq = Inr (header', session, request)"
    and k': "hd_idempotency_key header' = rq_idempotency_key rq"
    using idem_admit_clock [OF ad] a(2) by metis
  let ?st0 = "send_cmd (GetKey c (rq_idempotency_key rq)) st"
  have "idem_store g ev reply marshal set_reply header request session ?st0 = (Returned CallNext, st1)"
    using first by (auto simp: VerifIdemKey_def ad idem_lookup_def GetRedis_alive [OF live] a(2) split: if_splits)
  from idem_store_keeps [OF this, of ro c] live stored a(2)
  have live1: "redis_opts st1 = Some ro" "pool_client st1 = Some c"
    and m: "marshal (case request of None \<Rightarrow> StoredHeaders header | Some r \<Rightarrow> StoredBody r) = Inr json" by auto
  have body: "request = Some v"
    if "rq_content_type rq = ''application/json''" "rq_body rq = Some (Inr body)"
      "lib_unmarshal libs (Some (lib_empty_map libs)) body = Inr (Some v)" for body v
    using that a(3) by (auto simp: ReadBody_def Let_def split: sum.splits if_splits)
  show ?thesis
    using \<open>json \<noteq> []\<close> m body codec
    by (cases "lib_unmarshal libs request json")
      (fastforce simp: VerifIdemKey_def ad' idem_lookup_def k' GetRedis_alive [OF live1])+
qed

theorem idem_replay_answered_witness:
  "\<exists>st1. VerifIdemKey demo_service (\<lambda>_. []) demo_libs (9, None) (Some (Inl ''redis: nil'')) demo_marshal None
      None 0 demo_idem_request alive_redis_state = (Returned CallNext, st1) \<and>
    fst (VerifIdemKey demo_service (\<lambda>_. []) demo_libs (9, None) (Some (Inr ''{}'')) demo_marshal None
      None 5 demo_idem_request st1) = Returned (Answer (Accepted (Some ''{}'') empty_response))"
proof -
  have al: "redis_opts alive_redis_state = Some blank_redis_options" "pool_client alive_redis_state = Some 1"
    by (simp_all add: alive_redis_state_def)
  have k: "rq_idempotency_key demo_idem_request = ''}{''" by (simp add: demo_idem_request_def)
  obtain st1 where st1: "VerifIdemKey demo_service (\<lambda>_. []) demo_libs (9, None) (Some (Inl ''redis: nil'')) demo_marshal
      None None 0 demo_idem_request alive_redis_state = (Returned CallNext, st1)"
    and sent: "redis_sent st1 = [GetKey 1 ''}{''] @ [SetKey 1 (rq_idempotency_key demo_idem_request) ''{}''
      (clamp_store_ttl (\<lambda>_. []) (dur_mul Second 60))]"
    using demo_first_request k by auto
  have codec: "\<And>v j. demo_marshal (StoredBody v) = Inr j \<Longrightarrow> lib_unmarshal demo_libs (Some v) j = Inr (Some v)"
    by (auto simp: demo_marshal_def demo_libs_def split: if_splits)
  have "rq_content_type demo_idem_request = ''application/json''" "rq_body demo_idem_request = Some (Inr ''{}'')"
    "lib_unmarshal demo_libs (Some (lib_empty_map demo_libs)) ''{}'' = Inr (Some ''{}'')"
    by (simp_all add: demo_idem_request_def demo_libs_def)
  with idem_replay_answered [OF st1 al sent _ codec, where set_reply' = None and rand_hex' = None and now' = 5] st1
  show ?thesis by (intro exI [of _ st1]) auto
qed

text \<open>
  Redis cannot be asked: the package has no options, there is no client and the attempt to reconnect fails, or
  the server answers the lookup with an error that is not the missing key (whether the client was there or
  is made on the way). A call for the client waits when there is none and somebody else is reconnecting, or
  when its own reconnection runs into the redsync once that is being executed.
\<close>

definition redis_down :: "conn_reply \<Rightarrow> (err + string) option \<Rightarrow> redis_state \<Rightarrow> bool" where
  "redis_down reply get_reply st \<longleftrightarrow> redis_opts st = None \<or>
     pool_client st = None \<and> (\<exists>e. snd reply = Some e \<and> \<not> contains e ''redis: nil'') \<or>
     (snd reply = None \<or> pool_client st \<noteq> None) \<and> (\<exists>e. get_reply = Some (Inl e) \<and> \<not> contains e ''redis: nil'')"

definition reconnect_waits :: "conn_reply \<Rightarrow> redis_state \<Rightarrow> bool" where
  "reconnect_waits reply st \<longleftrightarrow> redis_opts st \<noteq> None \<and> pool_client st = None \<and>
     (reconnect_mu st \<or> snd reply = None \<and> red_sync_once st = OnceRunning)"

lemma GetRedis_down:
  assumes "redis_down reply get_reply st"
  obtains err where "\<not> contains err ''redis: nil''"
    and "\<And>k. \<exists>st'. GetRedis g reply get_reply k st =
      (if reconnect_waits reply st then Hangs else Returned ([], Some err), st')"
proof -
  have "\<exists>err. \<not> contains err ''redis: nil'' \<and> (\<forall>k. \<exists>st'. GetRedis g reply get_reply k st =
      (if reconnect_waits reply st then Hangs else Returned ([], Some err), st'))"
  proof (cases "redis_opts st")
    case None
    have "\<not> contains ''nil redis options'' ''redis: nil''" by simp
    with GetRedis_unset [OF None] None show ?thesis by (auto simp: reconnect_waits_def)
  next
    case (Some ro)
    note pool = GetRedis_def GetRedisWithContext_def with_pool_client_def GetRedisPoolClient.simps [of g reply st]
    show ?thesis
    proof (cases "pool_client st")
      case (Some c)
      with \<open>redis_opts st = Some ro\<close> assms show ?thesis
        by (auto simp: redis_down_def reconnect_waits_def GetRedis_alive)
    next
      case None
      show ?thesis
      proof (cases "snd reply")
        case (Some e)
        with \<open>redis_opts st = Some ro\<close> None assms show ?thesis
          by (auto simp: redis_down_def reconnect_waits_def pool init_redis_client_fails intro!: exI [of _ e])
      next
        case ok: None
        with \<open>redis_opts st = Some ro\<close> None assms obtain e where
          e: "get_reply = Some (Inl e)" "\<not> contains e ''redis: nil''" by (auto simp: redis_down_def)
        show ?thesis
        proof (cases "reconnect_waits reply st")
          case True
          then show ?thesis using \<open>redis_opts st = Some ro\<close> None ok e
            by (auto simp: reconnect_waits_def pool init_redis_client.simps [of g reply "Some ro"]
                InitRedSyncOnce.simps Let_def intro!: exI [of _ e])
        next
          case False
          with \<open>redis_opts st = Some ro\<close> None ok have nr: "\<not> reconnect_mu st" "red_sync_once st \<noteq> OnceRunning"
            by (auto simp: reconnect_waits_def)
          from init_redis_client_connects [OF ok, of "st\<lparr>reconnect_mu := True\<rparr>" ro g] nr \<open>redis_opts st = Some ro\<close>
          obtain st1 where "init_redis_client g reply (Some ro) (st\<lparr>reconnect_mu := True\<rparr>) = (Returned None, st1)"
            "pool_client st1 = Some (fst reply)" by auto
          with False \<open>redis_opts st = Some ro\<close> None nr e show ?thesis by (auto simp: pool intro!: exI [of _ e])
        qed
      qed
    qed
  qed
  with that show thesis by blast
qed

definition held_back :: "conn_reply \<Rightarrow> redis_state \<Rightarrow> 'j verdict outcome \<Rightarrow> bool" where
  "held_back reply st v \<longleftrightarrow> refused v \<or> v = Hangs \<and> reconnect_waits reply st"

text \<open>
  C24. The three middlewares fail closed. When Redis cannot be asked (\<open>redis_down\<close>: no options, no client
  and a reconnection that fails, or an error for an answer), none of them panics or lets a request
  through, whatever the request and the state of the client; each answers 400, 401 or 500, except that
  it waits when the call for the client does (\<open>reconnect_waits\<close>: another goroutine holds the reconnection
  mutex, which it never gives back after the deadlock of a start without Redis).
\<close>

theorem middlewares_fail_closed:
  assumes "redis_down reply get_reply st"
  shows "held_back reply st (fst (VerifCsrf g gov reply get_reply rand_hex now rid token st)) \<and>
    held_back reply st (fst (VerifIdemKey g ev libs reply get_reply marshal set_reply rand_hex now rq st)) \<and>
    held_back reply st (fst (RevokeToken g ev parse_key jwt_parse unmarshal_status reply get_reply now auth st))"
proof -
  obtain err where err: "\<not> contains err ''redis: nil''"
    and "\<And>k. \<exists>st'. GetRedis g reply get_reply k st =
      (if reconnect_waits reply st then Hangs else Returned ([], Some err), st')"
    using GetRedis_down [OF assms] by blast
  then obtain st' where get: "\<And>k. GetRedis g reply get_reply k st =
      (if reconnect_waits reply st then Hangs else Returned ([], Some err), st' k)" by metis
  have csrf: "held_back reply st (fst (VerifCsrf g gov reply get_reply rand_hex now rid token st))"
    using err by (simp add: VerifCsrf_def Let_def get held_back_def refused_def)
  have idem: "held_back reply st (fst (VerifIdemKey g ev libs reply get_reply marshal set_reply rand_hex now rq st))"
  proof (cases "idem_admit libs rand_hex now rq")
    case (Inl resp)
    with idem_admit_code [OF Inl] show ?thesis by (auto simp: VerifIdemKey_def held_back_def refused_def)
  next
    case (Inr a)
    with err show ?thesis by (cases a) (simp add: VerifIdemKey_def idem_lookup_def get held_back_def refused_def)
  qed
  have "held_back reply st (fst (RevokeToken g ev parse_key jwt_parse unmarshal_status reply get_reply now auth st))"
  proof (cases "check_bearer ev parse_key jwt_parse now auth :: 'e response_api + int")
    case (Inl resp)
    with check_bearer_code [OF Inl] show ?thesis by (simp add: RevokeToken_def held_back_def refused_def)
  next
    case (Inr m)
    with err show ?thesis by (simp add: RevokeToken_def get held_back_def refused_def)
  qed
  with csrf idem show ?thesis by blast
qed

text \<open>Redis has gone: no client, and the connection is refused.\<close>

theorem middlewares_fail_closed_witness:
  "refused (fst (VerifCsrf demo_service (\<lambda>_. []) (9, Some ''connection refused'') None None 0 ''r'' ''tok''
      (alive_redis_state\<lparr>pool_client := None\<rparr>) :: string verdict outcome \<times> redis_state)) \<and>
   refused (fst (VerifIdemKey demo_service (\<lambda>_. []) demo_libs (9, Some ''connection refused'') None demo_marshal
      None None 0 demo_idem_request (alive_redis_state\<lparr>pool_client := None\<rparr>))) \<and>
   refused (fst (RevokeToken demo_service (\<lambda>_. []) (\<lambda>_. Inr (7::nat)) demo_jwt (\<lambda>_. Inr 1)
      (9, Some ''connection refused'') None 0 ''Bearer x'' (alive_redis_state\<lparr>pool_client := None\<rparr>)
      :: string verdict outcome \<times> redis_state))"
proof -
  let ?st = "alive_redis_state\<lparr>pool_client := None\<rparr>"
  let ?reply = "(9, Some ''connection refused'')"
  have down: "redis_down ?reply None ?st" by (simp add: redis_down_def)
  have free: "\<not> reconnect_waits ?reply ?st"
    by (simp add: reconnect_waits_def alive_redis_state_def initial_redis_state_def)
  then have held: "held_back ?reply ?st v \<longleftrightarrow> refused v" for v :: "'a verdict outcome"
    by (simp add: held_back_def)
  show ?thesis
    using middlewares_fail_closed [OF down, of demo_service "\<lambda>_. []" None 0 "''r''" "''tok''" "\<lambda>_. []" demo_libs
        demo_marshal None demo_idem_request "\<lambda>_. Inr (7::nat)" demo_jwt "\<lambda>_. Inr 1" "''Bearer x''"]
    by (simp only: held)
qed

subsection \<open>From the start of the application to the log\<close>

text \<open>
  C27. The volume of the log in production: after the first start with \<^verbatim>\<open>APP_ENV=production\<close>, however the
  logger was configured before, the calls of \<open>LogI\<close> with one format (other than those of the
  configuration report itself) inside one second write every line up to the fifth and then one line in
  fifty.
\<close>

theorem production_line_budget:
  assumes a: "a = InitializeApp load_env os now s" and once: "app_sampler_once s = OnceNew"
    and env: "app_env a ''APP_ENV'' = ''production''" and f: "f \<notin> report_formats"
    and t0: "Second \<le> t0" "t0 < 2 ^ 63"
    and inside: "\<forall>(args, t) \<in> set calls. t0 \<le> t \<and> t < t0 + Second"
  shows "lines_of (log_all f ((args0, t0) # calls) (app_logger a)) = lines_of (app_logger a) +
    (if length calls < 5 then Suc (length calls) else 5 + (length calls - 4) div 50)"
proof -
  let ?s = "lg_sampler (app_logger a)" and ?c = "\<lparr>sc_initial = 5, sc_thereafter = 50, sc_period = Second\<rparr>"
  have cfg: "s_config ?s = ?c"
    using startup_effects [of load_env os now s] env once
    by (simp add: a [symmetric] initialize_sampler_def sampler_config_for_env_def Let_def)
  have "sampler_entry_of ?s f = empty_sampler_entry"
    using first_start_sampler [OF once f] by (simp add: a sampler_entry_of_def)
  then have fresh: "sc_period (s_config ?s) \<le> wrap64 (t0 - se_reset_nano (sampler_entry_of ?s f))"
    using t0 by (simp add: cfg empty_sampler_entry_def wrap64_def)
  have ins: "\<forall>t \<in> set (map snd calls). within_period (s_config ?s) t0 t"
    using inside by (auto simp: cfg within_period_def wrap64_def)
  obtain rs s' where run: "sampler_run f (map snd ((args0, t0) # calls)) ?s = (rs, s')"
    by (cases "sampler_run f (map snd ((args0, t0) # calls)) ?s")
  have "int (allowed_count rs) = sampler_budget (s_config ?s) (Suc (length (map snd calls)))"
    by (rule sampler_run_fresh(1) [OF fresh ins _ _ run [simplified list.map snd_conv]]) (simp_all add: cfg)
  then have "allowed_count rs = (if Suc (length calls) \<le> 5 then Suc (length calls)
      else 5 + (Suc (length calls) - 5) div 50)"
    by (intro production_budget) (simp add: cfg)
  with log_all_lines [OF run] show ?thesis by (simp add: Suc_le_eq)
qed

definition demo_app :: app_state where
  "demo_app = \<lparr>app_env = (\<lambda>_. []), app_globals = \<lparr>glob_app_name = [], glob_app_env = []\<rparr>,
     app_cost = \<lparr>configured_cost = 0, configured_cost_provider = None\<rparr>, app_logger = demo_logger,
     app_sampler_once = OnceNew, app_redis_opts = None\<rparr>"

definition demo_start :: app_state where
  "demo_start = InitializeApp (\<lambda>_ _. (\<lambda>_. ''production'', None))
     \<lparr>os_exists = (\<lambda>_. False), os_getwd = None, os_executable = None\<rparr> 0 demo_app"

theorem production_line_budget_witness:
  "lines_of (log_all ''paid id=%s'' (([], 1700000000000000000) # replicate 199 ([], 1700000000000000001))
      (app_logger demo_start)) = lines_of (app_logger demo_start) + 8"
proof -
  have e: "app_env demo_start ''APP_ENV'' = ''production''"
    by (simp add: demo_start_def InitializeApp_def load_dotenv_def Let_def demo_app_def)
  have f: "''paid id=%s'' \<notin> report_formats" by (simp add: report_formats_def)
  have c: "\<forall>(args :: goarg list, t) \<in> set (replicate 199 ([], 1700000000000000001)).
      1700000000000000000 \<le> t \<and> t < 1700000000000000000 + Second" by simp
  from production_line_budget [OF demo_start_def _ e f _ _ c, of "[]"] show ?thesis
    by (simp add: demo_app_def)
qed

end
